theory Spec2Isabelle
  imports Complex_Main "HOL-Library.AList"
begin

section \<open>Tensors and the tensor store\<close>

text \<open>
  A tensor is its shape, its elements in row-major order and its layout flag. Elements are
  real numbers: rounding of floating-point arithmetic is not modelled. Tensors are
  objects: the store \<open>heap\<close> maps the address of a tensor to its current contents, a
  Python variable holding a tensor is an address, and an in-place operation
  (\<open>mul_\<close>, \<open>add_\<close>, \<open>copy_\<close>; here \<open>mul_inplace\<close>, \<open>add_inplace\<close>, \<open>copy_inplace\<close>)
  rewrites the cell at that address, so that every alias sees it. A parameter \<open>p\<close> is an identifier; \<open>p_data w p\<close> is the tensor that holds its
  value (\<open>p.data\<close>) and \<open>p_grad w p\<close> its gradient (\<open>p.grad\<close>, \<open>None\<close> when it has none).
  A gradient has the shape of its parameter; the elementwise operations below work on
  the common prefix of their operands and are only meant for operands of equal size.
\<close>

type_synonym addr = nat
type_synonym pid = nat

record tensor =
  shape :: "nat list"
  vals :: "real list"
  is_sparse :: bool

record torch =
  heap :: "addr \<Rightarrow> tensor"
  next_addr :: addr
  p_data :: "pid \<Rightarrow> addr"
  p_grad :: "pid \<Rightarrow> addr option"

definition t_scale :: "real \<Rightarrow> tensor \<Rightarrow> tensor" where
  "t_scale c t = t\<lparr>vals := map (\<lambda>x. x * c) (vals t)\<rparr>"

definition t_mul :: "tensor \<Rightarrow> tensor \<Rightarrow> tensor" where
  "t_mul a b = a\<lparr>vals := map2 (\<lambda>x y. x * y) (vals a) (vals b)\<rparr>"

definition t_div :: "tensor \<Rightarrow> tensor \<Rightarrow> tensor" where
  "t_div a b = a\<lparr>vals := map2 (\<lambda>x y. x / y) (vals a) (vals b)\<rparr>"

definition t_add :: "tensor \<Rightarrow> real \<Rightarrow> tensor \<Rightarrow> tensor" where
  "t_add a alpha b = a\<lparr>vals := map2 (\<lambda>x y. x + alpha * y) (vals a) (vals b)\<rparr>"

definition t_abs :: "tensor \<Rightarrow> tensor" where
  "t_abs t = t\<lparr>vals := map abs (vals t)\<rparr>"

definition t_pow :: "tensor \<Rightarrow> nat \<Rightarrow> tensor" where
  "t_pow t n = t\<lparr>vals := map (\<lambda>x. x ^ n) (vals t)\<rparr>"

definition t_sqrt :: "tensor \<Rightarrow> tensor" where
  "t_sqrt t = t\<lparr>vals := map sqrt (vals t)\<rparr>"

definition t_add_scalar :: "tensor \<Rightarrow> real \<Rightarrow> tensor" where
  "t_add_scalar t c = t\<lparr>vals := map (\<lambda>x. x + c) (vals t)\<rparr>"

definition zeros_like :: "tensor \<Rightarrow> tensor" where
  "zeros_like t = t\<lparr>vals := map (\<lambda>x. 0) (vals t)\<rparr>"

definition numel :: "tensor \<Rightarrow> nat" where
  "numel t = length (vals t)"

text \<open>\<open>torch.norm(t)\<close>: the 2-norm of the elements.\<close>

definition torch_norm :: "tensor \<Rightarrow> real" where
  "torch_norm t = sqrt (\<Sum>x\<leftarrow>vals t. x\<^sup>2)"

text \<open>A new tensor object: the next free address.\<close>

definition new_tensor :: "tensor \<Rightarrow> 'a torch_scheme \<Rightarrow> addr \<times> 'a torch_scheme" where
  "new_tensor t w =
     (next_addr w, w\<lparr>heap := (heap w)(next_addr w := t), next_addr := Suc (next_addr w)\<rparr>)"

text \<open>\<open>a.mul_(c)\<close>, \<open>a.add_(b, alpha=alpha)\<close> and \<open>a.copy_(b)\<close>, with \<open>b\<close> read by the caller.\<close>

definition mul_inplace :: "addr \<Rightarrow> real \<Rightarrow> 'a torch_scheme \<Rightarrow> 'a torch_scheme" where
  "mul_inplace a c w = w\<lparr>heap := (heap w)(a := t_scale c (heap w a))\<rparr>"

definition add_inplace :: "addr \<Rightarrow> tensor \<Rightarrow> real \<Rightarrow> 'a torch_scheme \<Rightarrow> 'a torch_scheme" where
  "add_inplace a b alpha w = w\<lparr>heap := (heap w)(a := t_add (heap w a) alpha b)\<rparr>"

definition copy_inplace :: "addr \<Rightarrow> tensor \<Rightarrow> 'a torch_scheme \<Rightarrow> 'a torch_scheme" where
  "copy_inplace a b w = w\<lparr>heap := (heap w)(a := (heap w a)\<lparr>vals := vals b\<rparr>)\<rparr>"

section \<open>Optimizers: parameter groups, state, errors\<close>

text \<open>
  A parameter group is a dict; the record has the keys this repository reads.
  \<open>self.state[p]\<close> is a dict per parameter, modelled as an association list in insertion
  order; its keys are the strings the code uses (\<open>PRE_COND i\<close> is \<open>f'pre_cond_{i}'\<close>).
  The type \<open>'pc\<close> is the PreConditioner object of Scalable Shampoo.
\<close>

record param_group =
  params :: "pid list"
  lr :: real
  momentum :: real
  weight_decay :: real
  betas :: "real \<times> real"
  rho :: real
  adaptive :: bool

datatype key = STEP | MOMENTUM_BUFFER | PRE_COND nat | INV_PRE_COND nat
  | MOMENTUM | PRE_CONDITIONER | GRAFT | OLD_P

datatype LayerWiseGrafting = NONE | SGD | ADAGRAD | RMSPROP | SQRTN

text \<open>
  Modelled from the spec: the Graft classes of \<open>shampoo_utils\<close> are not among the sources.
  A Graft object owns an accumulator and an independent momentum buffer (spec 3 and 4.3),
  both tensors of the parameter's shape.
\<close>

record Graft =
  graft_kind :: LayerWiseGrafting
  statistics :: addr
  graft_momentum :: addr
  graft_eps :: real

datatype 'pc val = IntV int | TensorV addr | PreCondV 'pc | GraftV Graft

record 'pc optimizer = torch +
  state :: "pid \<Rightarrow> (key \<times> 'pc val) list"

datatype error = NoSparseGradientError | RuntimeError | KeyError | IndexError

text \<open>
  A statement that can raise returns the error or its value, and the world it leaves
  behind either way. A \<open>for\<close> loop stops at the first error.
\<close>

fun for_each :: "('x \<Rightarrow> 'w \<Rightarrow> (error + unit) \<times> 'w) \<Rightarrow> 'x list \<Rightarrow> 'w \<Rightarrow> (error + unit) \<times> 'w" where
  "for_each body [] w = (Inr (), w)"
| "for_each body (x # xs) w =
     (case body x w of
        (Inl e, w') \<Rightarrow> (Inl e, w')
      | (Inr u, w') \<Rightarrow> for_each body xs w')"

definition set_state :: "pid \<Rightarrow> key \<Rightarrow> 'pc val \<Rightarrow> ('pc, 'z) optimizer_scheme \<Rightarrow> ('pc, 'z) optimizer_scheme" where
  "set_state p k v w = w\<lparr>state := (state w)(p := AList.update k v (state w p))\<rparr>"

definition get_tensor :: "pid \<Rightarrow> key \<Rightarrow> ('pc, 'z) optimizer_scheme \<Rightarrow> error + addr" where
  "get_tensor p k w =
     (case map_of (state w p) k of Some (TensorV a) \<Rightarrow> Inr a | _ \<Rightarrow> Inl KeyError)"

definition get_int :: "pid \<Rightarrow> key \<Rightarrow> ('pc, 'z) optimizer_scheme \<Rightarrow> error + int" where
  "get_int p k w =
     (case map_of (state w p) k of Some (IntV n) \<Rightarrow> Inr n | _ \<Rightarrow> Inl KeyError)"

section \<open>SAM (sam.py)\<close>

text \<open>
  The wrapped base optimizer's \<open>step\<close> and the inherited \<open>zero_grad\<close> of
  \<open>torch.optim.Optimizer\<close> are not code of this repository: they are fields of \<open>self\<close>.
\<close>

record Optimizer =
  param_groups :: "param_group list"

record 'w SAM = Optimizer +
  base_optimizer_step :: "'w \<Rightarrow> (error + unit) \<times> 'w"
  zero_grad :: "'w \<Rightarrow> 'w"

text \<open>\<open>(torch.abs(p) if group['adaptive'] else 1.0) * p.grad\<close>\<close>

definition weighted_grad :: "param_group \<Rightarrow> tensor \<Rightarrow> tensor \<Rightarrow> tensor" where
  "weighted_grad grp p g =
     (if adaptive grp then t_mul (t_abs p) g else t_scale 1 g)"

text \<open>
  \<open>grad_norm\<close>: \<open>self.param_groups[0]['params'][0]\<close> raises IndexError on an empty list,
  and \<open>torch.stack\<close> a RuntimeError on an empty list of norms.
\<close>

definition grad_norms :: "('w, 'a) SAM_scheme \<Rightarrow> ('pc, 'z) optimizer_scheme \<Rightarrow> real list" where
  "grad_norms self w =
     concat (map (\<lambda>grp. concat (map (\<lambda>p.
         (case p_grad w p of
            None \<Rightarrow> []
          | Some g \<Rightarrow> [torch_norm (weighted_grad grp (heap w (p_data w p)) (heap w g))]))
       (params grp))) (param_groups self))"

definition grad_norm :: "('w, 'a) SAM_scheme \<Rightarrow> ('pc, 'z) optimizer_scheme \<Rightarrow> error + real" where
  "grad_norm self w =
     (case param_groups self of
        [] \<Rightarrow> Inl IndexError
      | g0 # gs \<Rightarrow>
         (case params g0 of
            [] \<Rightarrow> Inl IndexError
          | p0 # ps \<Rightarrow>
             (if grad_norms self w = [] then Inl RuntimeError
              else Inr (sqrt (\<Sum>x\<leftarrow>grad_norms self w. x\<^sup>2)))))"

text \<open>The body of the loops of \<open>first_step\<close>, for one parameter.\<close>

definition first_step_param ::
  "real \<Rightarrow> param_group \<Rightarrow> pid \<Rightarrow> ('pc, 'z) optimizer_scheme \<Rightarrow> ('pc, 'z) optimizer_scheme" where
  "first_step_param scale grp p w =
     (case p_grad w p of
        None \<Rightarrow> w
      | Some g \<Rightarrow>
         (let (old_p, w1) = new_tensor (heap w (p_data w p)) w;
              w2 = set_state p OLD_P (TensorV old_p) w1;
              e_w = t_scale scale
                (if adaptive grp then t_mul (t_pow (heap w2 (p_data w2 p)) 2) (heap w2 g)
                 else t_scale 1 (heap w2 g))
          in add_inplace (p_data w2 p) e_w 1 w2))"

definition first_step ::
  "(('pc, 'z) optimizer_scheme, 'a) SAM_scheme \<Rightarrow> bool \<Rightarrow> ('pc, 'z) optimizer_scheme
     \<Rightarrow> (error + unit) \<times> ('pc, 'z) optimizer_scheme" where
  "first_step self zero w =
     (case grad_norm self w of
        Inl e \<Rightarrow> (Inl e, w)
      | Inr gn \<Rightarrow>
         (let w1 = fold (\<lambda>grp. fold (first_step_param (rho grp / (gn + 1 / 10 ^ 12)) grp)
                      (params grp)) (param_groups self) w
          in (Inr (), if zero then zero_grad self w1 else w1)))"

definition second_step_param ::
  "pid \<Rightarrow> ('pc, 'z) optimizer_scheme \<Rightarrow> (error + unit) \<times> ('pc, 'z) optimizer_scheme" where
  "second_step_param p w =
     (case p_grad w p of
        None \<Rightarrow> (Inr (), w)
      | Some g \<Rightarrow>
         (case get_tensor p OLD_P w of
            Inl e \<Rightarrow> (Inl e, w)
          | Inr old_p \<Rightarrow> (Inr (), w\<lparr>p_data := (p_data w)(p := old_p)\<rparr>)))"

definition restore_params ::
  "(('pc, 'z) optimizer_scheme, 'a) SAM_scheme \<Rightarrow> ('pc, 'z) optimizer_scheme
     \<Rightarrow> (error + unit) \<times> ('pc, 'z) optimizer_scheme" where
  "restore_params self w =
     for_each (\<lambda>grp. for_each second_step_param (params grp)) (param_groups self) w"

definition second_step ::
  "(('pc, 'z) optimizer_scheme, 'a) SAM_scheme \<Rightarrow> bool \<Rightarrow> ('pc, 'z) optimizer_scheme
     \<Rightarrow> (error + unit) \<times> ('pc, 'z) optimizer_scheme" where
  "second_step self zero w =
     (case restore_params self w of
        (Inl e, w1) \<Rightarrow> (Inl e, w1)
      | (Inr u, w1) \<Rightarrow>
         (case base_optimizer_step self w1 of
            (Inl e, w2) \<Rightarrow> (Inl e, w2)
          | (Inr u, w2) \<Rightarrow> (Inr (), if zero then zero_grad self w2 else w2)))"

text \<open>
  \<open>SAM.step\<close>. The closure is the caller's code: it returns its loss (or raises) and
  leaves a world. \<open>step\<close> has no \<open>return\<close>, so its value is \<open>None\<close>.
\<close>

definition SAM_step ::
  "(('pc, 'z) optimizer_scheme, 'a) SAM_scheme
     \<Rightarrow> (('pc, 'z) optimizer_scheme \<Rightarrow> (error + real) \<times> ('pc, 'z) optimizer_scheme) option
     \<Rightarrow> ('pc, 'z) optimizer_scheme \<Rightarrow> (error + real option) \<times> ('pc, 'z) optimizer_scheme" where
  "SAM_step self closure w =
     (case closure of
        None \<Rightarrow> (Inl RuntimeError, w)
      | Some c \<Rightarrow>
         (case first_step self True w of
            (Inl e, w1) \<Rightarrow> (Inl e, w1)
          | (Inr u, w1) \<Rightarrow>
             (case c w1 of
                (Inl e, w2) \<Rightarrow> (Inl e, w2)
              | (Inr loss, w2) \<Rightarrow>
                 (case second_step self False w2 of
                    (Inl e, w3) \<Rightarrow> (Inl e, w3)
                  | (Inr u, w3) \<Rightarrow> (Inr None, w3)))))"


section \<open>Shampoo (optimizer/shampoo.py)\<close>

text \<open>
  The constructor validates its arguments (\<open>preconditioning_compute_steps\<close> is at least 1,
  so \<open>%\<close> never divides by zero). \<open>self.lr\<close>, \<open>self.momentum\<close> and \<open>self.weight_decay\<close>
  are read from the parameter group in \<open>step\<close>.
\<close>

record Shampoo = Optimizer +
  preconditioning_compute_steps :: int
  matrix_eps :: real

text \<open>Row-major index arithmetic: the multi-index of an offset and back.\<close>

fun unravel :: "nat list \<Rightarrow> nat \<Rightarrow> nat list" where
  "unravel [] i = []"
| "unravel (d # ds) i = (i div prod_list ds) # unravel ds (i mod prod_list ds)"

fun ravel :: "nat list \<Rightarrow> nat list \<Rightarrow> nat" where
  "ravel (d # ds) (j # js) = j * prod_list ds + ravel ds js"
| "ravel ds js = 0"

definition swap_dims :: "nat \<Rightarrow> 'a list \<Rightarrow> 'a list" where
  "swap_dims k xs = (xs[0 := xs ! k])[k := xs ! 0]"

text \<open>\<open>t.transpose_(0, k).contiguous()\<close>: dimensions 0 and \<open>k\<close> swapped, elements laid out anew.\<close>

definition transpose_contiguous :: "nat \<Rightarrow> tensor \<Rightarrow> tensor" where
  "transpose_contiguous k t =
     (let s = swap_dims k (shape t)
      in t\<lparr>shape := s,
           vals := map (\<lambda>i. vals t ! ravel (shape t) (swap_dims k (unravel s i)))
                     [0..<prod_list s]\<rparr>)"

text \<open>\<open>t.view(dim, -1)\<close> for \<open>dim > 0\<close>, and \<open>t.view(size)\<close>.\<close>

definition view2 :: "nat \<Rightarrow> tensor \<Rightarrow> tensor" where
  "view2 dm t = t\<lparr>shape := [dm, numel t div dm]\<rparr>"

definition view :: "nat list \<Rightarrow> tensor \<Rightarrow> tensor" where
  "view sz t = t\<lparr>shape := sz\<rparr>"

text \<open>\<open>a @ b\<close> on matrices.\<close>

definition matmul :: "tensor \<Rightarrow> tensor \<Rightarrow> tensor" where
  "matmul a b =
     (let r = shape a ! 0; k = shape a ! 1; c = shape b ! 1
      in \<lparr>shape = [r, c],
          vals = concat (map (\<lambda>i. map (\<lambda>l.
                   (\<Sum>j\<leftarrow>[0..<k]. vals a ! (i * k + j) * vals b ! (j * c + l))) [0..<c]) [0..<r]),
          is_sparse = False\<rparr>)"

definition eye :: "nat \<Rightarrow> tensor" where
  "eye n = \<lparr>shape = [n, n],
            vals = concat (map (\<lambda>i. map (\<lambda>j. if i = j then 1 else 0) [0..<n]) [0..<n]),
            is_sparse = False\<rparr>"

definition zeros :: "nat \<Rightarrow> nat \<Rightarrow> tensor" where
  "zeros r c = \<lparr>shape = [r, c], vals = replicate (r * c) 0, is_sparse = False\<rparr>"

text \<open>\<open>Shampoo.reset\<close>\<close>

definition Shampoo_reset ::
  "'a Shampoo_scheme \<Rightarrow> ('pc, 'z) optimizer_scheme \<Rightarrow> ('pc, 'z) optimizer_scheme" where
  "Shampoo_reset self w =
     fold (\<lambda>grp. fold (\<lambda>p. set_state p STEP (IntV 0)) (params grp)) (param_groups self) w"

text \<open>Lines 88 to 96 of \<open>Shampoo.step\<close>: the state of a parameter seen for the first time.\<close>

definition Shampoo_init_state ::
  "'a Shampoo_scheme \<Rightarrow> param_group \<Rightarrow> pid \<Rightarrow> addr \<Rightarrow> ('pc, 'z) optimizer_scheme
     \<Rightarrow> ('pc, 'z) optimizer_scheme" where
  "Shampoo_init_state self grp p grad w =
     (if length (state w p) = 0 then
        (let w1 = set_state p STEP (IntV 0) w;
             w2 = (if momentum grp > 0 then
                     (let (buf, w') = new_tensor (heap w1 grad) w1
                      in set_state p MOMENTUM_BUFFER (TensorV buf) w')
                   else w1)
         in fold (\<lambda>(dim_id, dm) w.
              (let (pre_cond, wa) = new_tensor (t_scale (matrix_eps self) (eye dm)) w;
                   wb = set_state p (PRE_COND dim_id) (TensorV pre_cond) wa;
                   (inv_pre_cond, wc) = new_tensor (zeros dm dm) wb
               in set_state p (INV_PRE_COND dim_id) (TensorV inv_pre_cond) wc))
            (enumerate 0 (shape (heap w2 grad))) w2)
      else w)"

text \<open>
  Lines 98 and 99: \<open>grad.mul_(1.0 - momentum)\<close> runs before \<open>state['momentum_buffer']\<close>
  is looked up.
\<close>

definition Shampoo_momentum ::
  "param_group \<Rightarrow> pid \<Rightarrow> addr \<Rightarrow> ('pc, 'z) optimizer_scheme
     \<Rightarrow> (error + unit) \<times> ('pc, 'z) optimizer_scheme" where
  "Shampoo_momentum grp p grad w =
     (if momentum grp > 0 then
        (let w1 = mul_inplace grad (1 - momentum grp) w
         in (case get_tensor p MOMENTUM_BUFFER w1 of
               Inl e \<Rightarrow> (Inl e, w1)
             | Inr buf \<Rightarrow> (Inr (), add_inplace grad (heap w1 buf) (momentum grp) w1)))
      else (Inr (), w))"

text \<open>
  Lines 106 to 124, the loop over \<open>enumerate(grad.size())\<close>. The local \<open>grad\<close> is a value
  here: the loop writes to \<open>pre_cond\<close> and \<open>inv_pre_cond\<close> only, and from the first
  iteration on \<open>grad\<close> is a tensor the loop made. \<open>view(0, -1)\<close> is an error of the runtime.
  \<open>compute_power_svd\<close> of \<open>shampoo_utils\<close> is not among the sources: it is the parameter
  \<open>cps\<close>.
\<close>

fun Shampoo_dims ::
  "(tensor \<Rightarrow> real \<Rightarrow> tensor) \<Rightarrow> 'a Shampoo_scheme \<Rightarrow> pid \<Rightarrow> nat \<Rightarrow> nat list
     \<Rightarrow> (nat \<times> nat) list \<Rightarrow> tensor \<Rightarrow> ('pc, 'z) optimizer_scheme
     \<Rightarrow> (error + tensor) \<times> ('pc, 'z) optimizer_scheme" where
  "Shampoo_dims cps self p order original_size [] grad w = (Inr grad, w)"
| "Shampoo_dims cps self p order original_size ((dim_id, dm) # rest) grad w =
     (case get_tensor p (PRE_COND dim_id) w of
        Inl e \<Rightarrow> (Inl e, w)
      | Inr pre_cond \<Rightarrow>
     (case get_tensor p (INV_PRE_COND dim_id) w of
        Inl e \<Rightarrow> (Inl e, w)
      | Inr inv_pre_cond \<Rightarrow>
         (let grad1 = transpose_contiguous dim_id grad;
              transposed_size = shape grad1
          in if dm = 0 then (Inl RuntimeError, w)
             else
               (let grad2 = view2 dm grad1;
                    grad_t = transpose_contiguous 1 grad2;
                    w1 = add_inplace pre_cond (matmul grad2 grad_t) 1 w
                in (case get_int p STEP w1 of
                      Inl e \<Rightarrow> (Inl e, w1)
                    | Inr n \<Rightarrow>
                       (let w2 = (if n mod preconditioning_compute_steps self = 0
                                  then copy_inplace inv_pre_cond
                                         (cps (heap w1 pre_cond) (- 1 / real order)) w1
                                  else w1);
                            grad3 = (if dim_id = order - 1
                                     then view original_size (matmul grad_t (heap w2 inv_pre_cond))
                                     else view transposed_size (matmul (heap w2 inv_pre_cond) grad2))
                        in Shampoo_dims cps self p order original_size rest grad3 w2))))))"

text \<open>Lines 101 and 102.\<close>

definition Shampoo_weight_decay ::
  "param_group \<Rightarrow> pid \<Rightarrow> addr \<Rightarrow> 'a torch_scheme \<Rightarrow> 'a torch_scheme" where
  "Shampoo_weight_decay grp p grad w =
     (if weight_decay grp > 0
      then add_inplace grad (heap w (p_data w p)) (weight_decay grp) w
      else w)"

text \<open>
  Lines 126 to 129. After the loop over the dimensions \<open>grad\<close> is a new tensor, of value
  \<open>g\<close>, or \<open>p.grad\<close> itself when the gradient has no dimension.
\<close>

definition Shampoo_commit ::
  "param_group \<Rightarrow> pid \<Rightarrow> addr \<Rightarrow> nat \<Rightarrow> tensor \<Rightarrow> ('pc, 'z) optimizer_scheme
     \<Rightarrow> (error + unit) \<times> ('pc, 'z) optimizer_scheme" where
  "Shampoo_commit grp p grad order g w =
     (case get_int p STEP w of
        Inl e \<Rightarrow> (Inl e, w)
      | Inr n \<Rightarrow>
         (let w5 = set_state p STEP (IntV (n + 1)) w;
              (buf, w6) = (if order = 0 then (grad, w5) else new_tensor g w5);
              w7 = set_state p MOMENTUM_BUFFER (TensorV buf) w6
          in (Inr (), add_inplace (p_data w7 p) (heap w7 buf) (- lr grp) w7)))"

text \<open>The body of the loops of \<open>Shampoo.step\<close>, for one parameter (lines 80 to 129).\<close>

definition Shampoo_param ::
  "(tensor \<Rightarrow> real \<Rightarrow> tensor) \<Rightarrow> 'a Shampoo_scheme \<Rightarrow> param_group \<Rightarrow> pid
     \<Rightarrow> ('pc, 'z) optimizer_scheme \<Rightarrow> (error + unit) \<times> ('pc, 'z) optimizer_scheme" where
  "Shampoo_param cps self grp p w =
     (case p_grad w p of
        None \<Rightarrow> (Inr (), w)
      | Some grad \<Rightarrow>
         if is_sparse (heap w grad) then (Inl NoSparseGradientError, w)
         else
           (case Shampoo_momentum grp p grad (Shampoo_init_state self grp p grad w) of
              (Inl e, w2) \<Rightarrow> (Inl e, w2)
            | (Inr u, w2) \<Rightarrow>
               (let w3 = Shampoo_weight_decay grp p grad w2;
                    order = length (shape (heap w3 grad));
                    original_size = shape (heap w3 grad)
                in (case Shampoo_dims cps self p order original_size
                            (enumerate 0 original_size) (heap w3 grad) w3 of
                      (Inl e, w4) \<Rightarrow> (Inl e, w4)
                    | (Inr g, w4) \<Rightarrow> Shampoo_commit grp p grad order g w4))))"

text \<open>Lines 72 to 75 of \<open>Shampoo.step\<close> and 273 to 276 of \<open>ScalableShampoo.step\<close>.\<close>

definition call_closure ::
  "('w \<Rightarrow> (error + real) \<times> 'w) option \<Rightarrow> 'w \<Rightarrow> (error + real option) \<times> 'w" where
  "call_closure closure w =
     (case closure of
        None \<Rightarrow> (Inr None, w)
      | Some c \<Rightarrow> (case c w of (Inl e, w') \<Rightarrow> (Inl e, w') | (Inr l, w') \<Rightarrow> (Inr (Some l), w')))"

definition Shampoo_step ::
  "(tensor \<Rightarrow> real \<Rightarrow> tensor) \<Rightarrow> 'a Shampoo_scheme
     \<Rightarrow> (('pc, 'z) optimizer_scheme \<Rightarrow> (error + real) \<times> ('pc, 'z) optimizer_scheme) option
     \<Rightarrow> ('pc, 'z) optimizer_scheme \<Rightarrow> (error + real option) \<times> ('pc, 'z) optimizer_scheme" where
  "Shampoo_step cps self closure w =
     (case call_closure closure w of
        (Inl e, w0) \<Rightarrow> (Inl e, w0)
      | (Inr loss, w0) \<Rightarrow>
         (case for_each (\<lambda>grp. for_each (Shampoo_param cps self grp) (params grp))
                 (param_groups self) w0 of
            (Inl e, w1) \<Rightarrow> (Inl e, w1)
          | (Inr u, w1) \<Rightarrow> (Inr loss, w1)))"

section \<open>Scalable Shampoo (optimizer/shampoo.py)\<close>

text \<open>
  \<open>ScalableShampoo\<close> has \<open>preconditioning_compute_steps\<close> and \<open>matrix_eps\<close> as \<open>Shampoo\<close>
  has; the record extends \<open>Shampoo\<close>'s so that the two field names are declared once.
\<close>

record ScalableShampoo = Shampoo +
  moving_average_for_momentum :: bool
  decoupled_weight_decay :: bool
  decoupled_learning_rate :: bool
  inverse_exponent_override :: int
  start_preconditioning_step :: int
  statistics_compute_steps :: int
  block_size :: int
  no_preconditioning_for_layers_with_dim_gt :: int
  shape_interpretation :: bool
  graft_type :: LayerWiseGrafting
  pre_conditioner_type :: int
  nesterov :: bool
  diagonal_eps :: real
  use_svd :: bool

text \<open>
  The class \<open>PreConditioner\<close> of \<open>shampoo_utils\<close> is not among the sources: its constructor
  and its three methods are parameters, over any type \<open>'pc\<close> of PreConditioner objects. Its
  matrices are its own, and \<open>preconditioned_grad\<close> makes a new tensor (spec 4.2).
\<close>

record 'pc PreConditioner =
  pc_new :: "tensor \<Rightarrow> real \<Rightarrow> int \<Rightarrow> int \<Rightarrow> int \<Rightarrow> bool \<Rightarrow> real \<Rightarrow> int \<Rightarrow> bool \<Rightarrow> 'pc"
  pc_add_statistics :: "'pc \<Rightarrow> tensor \<Rightarrow> 'pc"
  pc_compute_pre_conditioners :: "'pc \<Rightarrow> 'pc"
  pc_preconditioned_grad :: "'pc \<Rightarrow> tensor \<Rightarrow> tensor"

text \<open>
  Modelled from the spec: the constructors of the Graft classes, which are not among the
  sources. Each makes the accumulator and the momentum buffer, zero tensors like the
  parameter.
\<close>

definition Graft_new ::
  "LayerWiseGrafting \<Rightarrow> tensor \<Rightarrow> real \<Rightarrow> 'a torch_scheme \<Rightarrow> Graft \<times> 'a torch_scheme" where
  "Graft_new kind var eps w =
     (let (s, w1) = new_tensor (zeros_like var) w;
          (m, w2) = new_tensor (zeros_like var) w1
      in (\<lparr>graft_kind = kind, statistics = s, graft_momentum = m, graft_eps = eps\<rparr>, w2))"

text \<open>
  Modelled from the spec: \<open>add_statistics(grad, beta2)\<close> of spec 4.3, which is not among
  the sources: a no-op for SGD and None, the running sum of the squared gradient for
  AdaGrad, its exponential average for RMSProp.
\<close>

definition Graft_add_statistics ::
  "Graft \<Rightarrow> tensor \<Rightarrow> real \<Rightarrow> 'a torch_scheme \<Rightarrow> 'a torch_scheme" where
  "Graft_add_statistics graft grad beta2 w =
     (case graft_kind graft of
        ADAGRAD \<Rightarrow> add_inplace (statistics graft) (t_pow grad 2) 1 w
      | RMSPROP \<Rightarrow>
          add_inplace (statistics graft) (t_pow grad 2) (1 - beta2)
            (mul_inplace (statistics graft) beta2 w)
      | _ \<Rightarrow> w)"

text \<open>
  Modelled from the spec: \<open>precondition_gradient(grad)\<close> of spec 4.3, which is not among
  the sources: the gradient divided elementwise by \<open>sqrt(accumulator) + diagonal_eps\<close>
  (AdaGrad, RMSProp), scaled by \<open>1/sqrt(numel)\<close> (SQRT-N), or the argument itself
  (SGD, None).
\<close>

definition Graft_precondition_gradient ::
  "Graft \<Rightarrow> addr \<Rightarrow> 'a torch_scheme \<Rightarrow> addr \<times> 'a torch_scheme" where
  "Graft_precondition_gradient graft grad w =
     (case graft_kind graft of
        ADAGRAD \<Rightarrow>
          new_tensor (t_div (heap w grad)
            (t_add_scalar (t_sqrt (heap w (statistics graft))) (graft_eps graft))) w
      | RMSPROP \<Rightarrow>
          new_tensor (t_div (heap w grad)
            (t_add_scalar (t_sqrt (heap w (statistics graft))) (graft_eps graft))) w
      | SQRTN \<Rightarrow> new_tensor (t_scale (1 / sqrt (real (numel (heap w grad)))) (heap w grad)) w
      | _ \<Rightarrow> (grad, w))"

text \<open>
  Modelled from the spec: \<open>update_momentum(grad, beta1)\<close> of spec 4.3, which is not among
  the sources: \<open>m <- beta1*m + grad\<close> on the Graft's own buffer, which it returns.
\<close>

definition Graft_update_momentum ::
  "Graft \<Rightarrow> addr \<Rightarrow> real \<Rightarrow> 'a torch_scheme \<Rightarrow> addr \<times> 'a torch_scheme" where
  "Graft_update_momentum graft grad beta1 w =
     (let w1 = mul_inplace (graft_momentum graft) beta1 w
      in (graft_momentum graft, add_inplace (graft_momentum graft) (heap w1 grad) 1 w1))"

definition get_pre_conditioner :: "pid \<Rightarrow> ('pc, 'z) optimizer_scheme \<Rightarrow> error + 'pc" where
  "get_pre_conditioner p w =
     (case map_of (state w p) PRE_CONDITIONER of Some (PreCondV c) \<Rightarrow> Inr c | _ \<Rightarrow> Inl KeyError)"

definition get_graft :: "pid \<Rightarrow> ('pc, 'z) optimizer_scheme \<Rightarrow> error + Graft" where
  "get_graft p w =
     (case map_of (state w p) GRAFT of Some (GraftV g) \<Rightarrow> Inr g | _ \<Rightarrow> Inl KeyError)"

text \<open>
  Lines 244 to 266 of \<open>reset\<close> and, the same statements, lines 290 to 312 of \<open>step\<close>: the
  state of one parameter, made anew.
\<close>

definition ScalableShampoo_new_state ::
  "'pc PreConditioner \<Rightarrow> 'a ScalableShampoo_scheme \<Rightarrow> real \<Rightarrow> pid
     \<Rightarrow> ('pc, 'z) optimizer_scheme \<Rightarrow> ('pc, 'z) optimizer_scheme" where
  "ScalableShampoo_new_state pc self beta2 p w =
     (let w1 = set_state p STEP (IntV 0) w;
          (m, w2) = new_tensor (zeros_like (heap w1 (p_data w1 p))) w1;
          w3 = set_state p MOMENTUM (TensorV m) w2;
          w4 = set_state p PRE_CONDITIONER
                 (PreCondV (pc_new pc (heap w3 (p_data w3 p)) beta2
                    (inverse_exponent_override self) (block_size self)
                    (no_preconditioning_for_layers_with_dim_gt self)
                    (shape_interpretation self) (matrix_eps self)
                    (pre_conditioner_type self) (use_svd self))) w3;
          (graft, w5) =
             (if graft_type self = ADAGRAD
                then Graft_new ADAGRAD (heap w4 (p_data w4 p)) (diagonal_eps self) w4
              else if graft_type self = RMSPROP
                then Graft_new RMSPROP (heap w4 (p_data w4 p)) (diagonal_eps self) w4
              else if graft_type self = SGD
                then Graft_new SGD (heap w4 (p_data w4 p)) 0 w4
              else if graft_type self = SQRTN
                then Graft_new SQRTN (heap w4 (p_data w4 p)) 0 w4
              else Graft_new NONE (heap w4 (p_data w4 p)) 0 w4)
      in set_state p GRAFT (GraftV graft) w5)"

definition ScalableShampoo_reset ::
  "'pc PreConditioner \<Rightarrow> 'a ScalableShampoo_scheme \<Rightarrow> ('pc, 'z) optimizer_scheme
     \<Rightarrow> ('pc, 'z) optimizer_scheme" where
  "ScalableShampoo_reset pc self w =
     fold (\<lambda>grp. fold (ScalableShampoo_new_state pc self (snd (betas grp))) (params grp))
       (param_groups self) w"

definition is_precondition_step :: "'a ScalableShampoo_scheme \<Rightarrow> int \<Rightarrow> bool" where
  "is_precondition_step self step \<longleftrightarrow> step \<ge> start_preconditioning_step self"

text \<open>Lines 331 to 335 of \<open>step\<close>.\<close>

definition ScalableShampoo_rescale ::
  "'a ScalableShampoo_scheme \<Rightarrow> addr \<Rightarrow> addr \<Rightarrow> 'b torch_scheme \<Rightarrow> 'b torch_scheme" where
  "ScalableShampoo_rescale self graft_grad shampoo_grad w =
     (if graft_type self \<noteq> NONE then
        (let graft_norm = torch_norm (heap w graft_grad);
             shampoo_norm = torch_norm (heap w shampoo_grad)
         in mul_inplace shampoo_grad (graft_norm / (shampoo_norm + 1 / 10 ^ 16)) w)
      else w)"

text \<open>Lines 337 to 343 of \<open>step\<close>.\<close>

definition ScalableShampoo_weight_decay ::
  "'a ScalableShampoo_scheme \<Rightarrow> param_group \<Rightarrow> pid \<Rightarrow> addr \<Rightarrow> addr
     \<Rightarrow> 'b torch_scheme \<Rightarrow> 'b torch_scheme" where
  "ScalableShampoo_weight_decay self grp p graft_grad shampoo_grad w =
     (if weight_decay grp > 0 then
        (if \<not> decoupled_weight_decay self then
           (let w1 = add_inplace shampoo_grad (heap w (p_data w p)) (weight_decay grp) w
            in add_inplace graft_grad (heap w1 (p_data w1 p)) (weight_decay grp) w1)
         else
           (let w1 = mul_inplace shampoo_grad (1 - lr grp * weight_decay grp) w
            in mul_inplace graft_grad (1 - lr grp * weight_decay grp) w1))
      else w)"

text \<open>Lines 345 to 361 of \<open>step\<close>, after \<open>state['momentum']\<close> has been looked up.\<close>

definition ScalableShampoo_update ::
  "'a ScalableShampoo_scheme \<Rightarrow> param_group \<Rightarrow> pid \<Rightarrow> Graft \<Rightarrow> bool \<Rightarrow> addr \<Rightarrow> addr
     \<Rightarrow> addr \<Rightarrow> addr \<Rightarrow> 'b torch_scheme \<Rightarrow> 'b torch_scheme" where
  "ScalableShampoo_update self grp p graft is_pre grad graft_grad shampoo_grad state_momentum w =
     (let beta1 = fst (betas grp);
          w1 = mul_inplace state_momentum beta1 w;
          w2 = add_inplace state_momentum (heap w1 shampoo_grad) 1 w1;
          (graft_momentum, w3) = Graft_update_momentum graft grad beta1 w2;
          (momentum_update, wd_update) =
             (if is_pre then (state_momentum, shampoo_grad) else (graft_momentum, graft_grad));
          w4 = (if nesterov self then
                  (let wt = (if moving_average_for_momentum self then 1 - beta1 else 1);
                       wa = mul_inplace wd_update wt w3;
                       wb = mul_inplace momentum_update beta1 wa
                   in add_inplace momentum_update (heap wb wd_update) 1 wb)
                else w3)
      in add_inplace (p_data w4 p) (heap w4 momentum_update) (- lr grp) w4)"

text \<open>
  Lines 319 to 329 of \<open>step\<close>: the statistics, and the two gradients \<open>graft_grad\<close> and
  \<open>shampoo_grad\<close>. The PreConditioner is an object: its methods change it where it is,
  which the model writes back to the state. \<open>grad * pre_conditioner_multiplier\<close> is a
  new tensor; \<open>shampoo_grad\<close> is \<open>grad\<close> itself unless the step preconditions.
\<close>

definition ScalableShampoo_grads ::
  "'pc PreConditioner \<Rightarrow> 'a ScalableShampoo_scheme \<Rightarrow> param_group \<Rightarrow> pid \<Rightarrow> addr \<Rightarrow> 'pc
     \<Rightarrow> Graft \<Rightarrow> int \<Rightarrow> bool \<Rightarrow> ('pc, 'z) optimizer_scheme
     \<Rightarrow> (addr \<times> addr) \<times> ('pc, 'z) optimizer_scheme" where
  "ScalableShampoo_grads pc self grp p grad pre_conditioner graft step is_pre w1 =
     (let beta2 = snd (betas grp);
          w2 = Graft_add_statistics graft (heap w1 grad) beta2 w1;
          pc1 = (if step mod statistics_compute_steps self = 0
                 then pc_add_statistics pc pre_conditioner (heap w2 grad)
                 else pre_conditioner);
          pc2 = (if step mod preconditioning_compute_steps self = 0
                 then pc_compute_pre_conditioners pc pc1 else pc1);
          w3 = set_state p PRE_CONDITIONER (PreCondV pc2) w2;
          pre_conditioner_multiplier = (if \<not> decoupled_learning_rate self then lr grp else 1);
          (scaled, w4) = new_tensor (t_scale pre_conditioner_multiplier (heap w3 grad)) w3;
          (graft_grad, w5) = Graft_precondition_gradient graft scaled w4;
          (shampoo_grad, w6) =
             (if is_pre
              then new_tensor (pc_preconditioned_grad pc pc2 (heap w5 grad)) w5
              else (grad, w5))
      in ((graft_grad, shampoo_grad), w6))"

text \<open>The body of the loops of \<open>ScalableShampoo.step\<close>, for one parameter (lines 281 to 361).\<close>

definition ScalableShampoo_param ::
  "'pc PreConditioner \<Rightarrow> 'a ScalableShampoo_scheme \<Rightarrow> param_group \<Rightarrow> pid
     \<Rightarrow> ('pc, 'z) optimizer_scheme \<Rightarrow> (error + unit) \<times> ('pc, 'z) optimizer_scheme" where
  "ScalableShampoo_param pc self grp p w =
     (case p_grad w p of
        None \<Rightarrow> (Inr (), w)
      | Some grad \<Rightarrow>
         if is_sparse (heap w grad) then (Inl NoSparseGradientError, w)
         else
           (let w0 = (if length (state w p) = 0
                      then ScalableShampoo_new_state pc self (snd (betas grp)) p w else w)
            in (case get_int p STEP w0 of
                  Inl e \<Rightarrow> (Inl e, w0)
                | Inr n \<Rightarrow>
               (let w1 = set_state p STEP (IntV (n + 1)) w0
                in (case get_pre_conditioner p w1 of
                      Inl e \<Rightarrow> (Inl e, w1)
                    | Inr pre_conditioner \<Rightarrow>
                   (case get_graft p w1 of
                      Inl e \<Rightarrow> (Inl e, w1)
                    | Inr graft \<Rightarrow>
                   (let is_pre = is_precondition_step self (n + 1);
                        ((graft_grad, shampoo_grad), w6) =
                          ScalableShampoo_grads pc self grp p grad pre_conditioner graft
                            (n + 1) is_pre w1;
                        w7 = ScalableShampoo_rescale self graft_grad shampoo_grad w6;
                        w8 = ScalableShampoo_weight_decay self grp p graft_grad shampoo_grad w7
                    in (case get_tensor p MOMENTUM w8 of
                          Inl e \<Rightarrow> (Inl e, w8)
                        | Inr state_momentum \<Rightarrow>
                            (Inr (), ScalableShampoo_update self grp p graft is_pre grad
                                       graft_grad shampoo_grad state_momentum w8)))))))))"

definition ScalableShampoo_step ::
  "'pc PreConditioner \<Rightarrow> 'a ScalableShampoo_scheme
     \<Rightarrow> (('pc, 'z) optimizer_scheme \<Rightarrow> (error + real) \<times> ('pc, 'z) optimizer_scheme) option
     \<Rightarrow> ('pc, 'z) optimizer_scheme \<Rightarrow> (error + real option) \<times> ('pc, 'z) optimizer_scheme" where
  "ScalableShampoo_step pc self closure w =
     (case call_closure closure w of
        (Inl e, w0) \<Rightarrow> (Inl e, w0)
      | (Inr loss, w0) \<Rightarrow>
         (case for_each (\<lambda>grp. for_each (ScalableShampoo_param pc self grp) (params grp))
                 (param_groups self) w0 of
            (Inl e, w1) \<Rightarrow> (Inl e, w1)
          | (Inr u, w1) \<Rightarrow> (Inr loss, w1)))"

section \<open>Vocabulary of the properties\<close>

text \<open>
  The parameters of all groups, in the order of the loops, alone and with their group.
\<close>

definition all_params :: "'a Optimizer_scheme \<Rightarrow> pid list" where
  "all_params self = concat (map params (param_groups self))"

definition flat_params :: "param_group list \<Rightarrow> (param_group \<times> pid) list" where
  "flat_params gs = concat (map (\<lambda>grp. map (Pair grp) (params grp)) gs)"

text \<open>
  The global 2-norm of the gradients, in the spec's words: the square root of the sum
  of the squares of all elements of all gradients of all parameter groups.
\<close>

definition all_grads :: "'a Optimizer_scheme \<Rightarrow> 'b torch_scheme \<Rightarrow> tensor list" where
  "all_grads self w =
     concat (map (\<lambda>p. case p_grad w p of None \<Rightarrow> [] | Some g \<Rightarrow> [heap w g]) (all_params self))"

definition global_grad_norm :: "'a Optimizer_scheme \<Rightarrow> 'b torch_scheme \<Rightarrow> real" where
  "global_grad_norm self w = sqrt (\<Sum>t\<leftarrow>all_grads self w. \<Sum>x\<leftarrow>vals t. x\<^sup>2)"

text \<open>
  What the runtime guarantees of the parameters of an optimizer: they are distinct
  tensors that exist, and the gradient of each is a tensor that exists, is no parameter
  and has the parameter's size.
\<close>

definition params_wf :: "pid list \<Rightarrow> 'a torch_scheme \<Rightarrow> bool" where
  "params_wf ps w \<longleftrightarrow>
     distinct (map (p_data w) ps) \<and>
     list_all (\<lambda>p. p_data w p < next_addr w \<and>
        (case p_grad w p of
           None \<Rightarrow> True
         | Some g \<Rightarrow> g < next_addr w \<and> g \<notin> set (map (p_data w) ps) \<and>
             length (vals (heap w g)) = length (vals (heap w (p_data w p))))) ps"

text \<open>\<open>e_w\<close> of \<open>first_step\<close>, as a value.\<close>

definition ascent :: "param_group \<Rightarrow> real \<Rightarrow> tensor \<Rightarrow> tensor \<Rightarrow> tensor" where
  "ascent grp sc P G = t_scale sc (if adaptive grp then t_mul (t_pow P 2) G else t_scale 1 G)"

text \<open>The loop invariant of \<open>first_step\<close>: what holds before and after a run of the loops.\<close>

definition first_steps_pre :: "(param_group \<times> pid) list \<Rightarrow> 'a torch_scheme \<Rightarrow> bool" where
  "first_steps_pre xs w \<longleftrightarrow>
     distinct (map (p_data w \<circ> snd) xs) \<and>
     (\<forall>p \<in> snd ` set xs. p_data w p < next_addr w \<and>
        (\<forall>g. p_grad w p = Some g \<longrightarrow> g < next_addr w \<and> g \<notin> p_data w ` snd ` set xs))"

definition first_steps_post ::
  "(param_group \<Rightarrow> real) \<Rightarrow> (param_group \<times> pid) list \<Rightarrow> ('pc, 'z) optimizer_scheme
     \<Rightarrow> ('pc, 'z) optimizer_scheme \<Rightarrow> bool" where
  "first_steps_post sc xs w w' \<longleftrightarrow>
     p_data w' = p_data w \<and> p_grad w' = p_grad w \<and> next_addr w \<le> next_addr w' \<and>
     (\<forall>a < next_addr w. a \<notin> p_data w ` snd ` set xs \<longrightarrow> heap w' a = heap w a) \<and>
     (\<forall>q. q \<notin> snd ` set xs \<longrightarrow> state w' q = state w q) \<and>
     (\<forall>(grp, p) \<in> set xs. case p_grad w p of
         None \<Rightarrow> heap w' (p_data w p) = heap w (p_data w p)
       | Some g \<Rightarrow>
           heap w' (p_data w p) =
             t_add (heap w (p_data w p)) 1 (ascent grp (sc grp) (heap w (p_data w p)) (heap w g)) \<and>
           (\<exists>a. map_of (state w' p) OLD_P = Some (TensorV a) \<and> heap w' a = heap w (p_data w p)))"

subsection \<open>Sample inputs\<close>

text \<open>
  One group with the parameter 0, whose value \<open>[1, 2]\<close> is tensor 0 and whose gradient
  \<open>[3, 4]\<close> is tensor 1.
\<close>

definition ex_tensor :: "real list \<Rightarrow> tensor" where
  "ex_tensor xs = \<lparr>shape = [length xs], vals = xs, is_sparse = False\<rparr>"

definition ex_group :: param_group where
  "ex_group = \<lparr>params = [0], lr = 1 / 10, momentum = 0, weight_decay = 0,
     betas = (9 / 10, 999 / 1000), rho = 1 / 20, adaptive = False\<rparr>"

definition ex_world :: "unit optimizer" where
  "ex_world = \<lparr>heap = (\<lambda>a. ex_tensor [])(0 := ex_tensor [1, 2], 1 := ex_tensor [3, 4]),
     next_addr = 2, p_data = (\<lambda>p. 0), p_grad = (\<lambda>p. None)(0 := Some 1), state = (\<lambda>p. [])\<rparr>"

text \<open>
  A SAM over plain gradient descent with learning rate \<open>1/10\<close>, whose \<open>zero_grad\<close> sets
  the gradients to None.
\<close>

definition ex_sgd_step :: "unit optimizer \<Rightarrow> (error + unit) \<times> unit optimizer" where
  "ex_sgd_step w =
     (Inr (), case p_grad w 0 of
                None \<Rightarrow> w
              | Some g \<Rightarrow> add_inplace (p_data w 0) (heap w g) (- (1 / 10)) w)"

definition ex_SAM :: "(unit optimizer) SAM" where
  "ex_SAM = \<lparr>param_groups = [ex_group], base_optimizer_step = ex_sgd_step,
     zero_grad = (\<lambda>w. w\<lparr>p_grad := (\<lambda>p. None)\<rparr>)\<rparr>"

text \<open>
  The saved value of a parameter, and the world in which every parameter of \<open>ps\<close> that
  has a gradient is the tensor saved for it: what \<open>second_step\<close> is to hand to the base
  optimizer.
\<close>

definition old_p_of :: "('pc, 'z) optimizer_scheme \<Rightarrow> pid \<Rightarrow> addr option" where
  "old_p_of w p = (case map_of (state w p) OLD_P of Some (TensorV a) \<Rightarrow> Some a | _ \<Rightarrow> None)"

definition restored :: "pid list \<Rightarrow> ('pc, 'z) optimizer_scheme \<Rightarrow> ('pc, 'z) optimizer_scheme" where
  "restored ps w =
     w\<lparr>p_data := (\<lambda>p. if p \<in> set ps
         then (case p_grad w p of
                 None \<Rightarrow> p_data w p
               | Some g \<Rightarrow> (case old_p_of w p of Some a \<Rightarrow> a | None \<Rightarrow> p_data w p))
         else p_data w p)\<rparr>"

definition old_p_saved :: "pid list \<Rightarrow> ('pc, 'z) optimizer_scheme \<Rightarrow> bool" where
  "old_p_saved ps w =
     list_all (\<lambda>p. case p_grad w p of None \<Rightarrow> True | Some g \<Rightarrow> old_p_of w p \<noteq> None) ps"

text \<open>
  The sample world after \<open>first_step\<close>, and after a closure that then wrote the gradient
  \<open>[10, 20]\<close> of the perturbed point into the gradient tensor.
\<close>

definition ex_perturbed :: "unit optimizer" where
  "ex_perturbed = snd (first_step ex_SAM False ex_world)"

definition ex_regrad :: "unit optimizer" where
  "ex_regrad = ex_perturbed\<lparr>heap := (heap ex_perturbed)(1 := ex_tensor [10, 20])\<rparr>"

text \<open>What \<open>step(closure)\<close> is to return: the loss the closure evaluates to, or None.\<close>

definition closure_loss :: "('w \<Rightarrow> (error + real) \<times> 'w) option \<Rightarrow> 'w \<Rightarrow> real option" where
  "closure_loss closure w =
     (case closure of
        None \<Rightarrow> None
      | Some c \<Rightarrow> (case fst (c w) of Inl e \<Rightarrow> None | Inr l \<Rightarrow> Some l))"

text \<open>
  Sample inputs for the two Shampoo optimizers: the parameter 0 with value \<open>[2]\<close>
  (tensor 0) and gradient \<open>[3]\<close> (tensor 1), and the parameter 1 with value \<open>[5]\<close>
  (tensor 2) and a sparse gradient (tensor 3), which only the optimizers \<open>ex_Shampoo2\<close>
  and \<open>ex_ScalableShampoo2\<close> have in their group. \<open>ex_cps\<close> inverts a 1 by 1 matrix,
  which is its power \<open>-1\<close>. The sample PreConditioner keeps no statistics and halves
  the gradient. The sample closures return the loss 7 and write a gradient of
  parameter 0.
\<close>

definition ex_cps :: "tensor \<Rightarrow> real \<Rightarrow> tensor" where
  "ex_cps M e = M\<lparr>vals := map inverse (vals M)\<rparr>"

definition ex_sh_group :: param_group where
  "ex_sh_group = \<lparr>params = [0], lr = 1 / 10, momentum = 1 / 2, weight_decay = 0,
     betas = (9 / 10, 999 / 1000), rho = 1 / 20, adaptive = False\<rparr>"

definition ex_sh_world :: "unit optimizer" where
  "ex_sh_world = \<lparr>heap = (\<lambda>a. ex_tensor [])(0 := ex_tensor [2], 1 := ex_tensor [3],
       2 := ex_tensor [5], 3 := (ex_tensor [6])\<lparr>is_sparse := True\<rparr>),
     next_addr = 4, p_data = (\<lambda>p. 0)(1 := 2), p_grad = (\<lambda>p. None)(0 := Some 1, 1 := Some 3),
     state = (\<lambda>p. [])\<rparr>"

definition ex_pc :: "unit PreConditioner" where
  "ex_pc = \<lparr>pc_new = (\<lambda>var beta2 e b n s eps t u. ()),
     pc_add_statistics = (\<lambda>c g. c), pc_compute_pre_conditioners = (\<lambda>c. c),
     pc_preconditioned_grad = (\<lambda>c g. t_scale (1 / 2) g)\<rparr>"

definition ex_ScalableShampoo :: ScalableShampoo where
  "ex_ScalableShampoo = \<lparr>param_groups = [ex_sh_group], preconditioning_compute_steps = 1,
     matrix_eps = 1, moving_average_for_momentum = False, decoupled_weight_decay = False,
     decoupled_learning_rate = True, inverse_exponent_override = 0,
     start_preconditioning_step = 2, statistics_compute_steps = 1, block_size = 256,
     no_preconditioning_for_layers_with_dim_gt = 8192, shape_interpretation = True,
     graft_type = SGD, pre_conditioner_type = 0, nesterov = False, diagonal_eps = 1 / 10 ^ 10,
     use_svd = False\<rparr>"

definition ex_Shampoo :: Shampoo where
  "ex_Shampoo = \<lparr>param_groups = [ex_sh_group], preconditioning_compute_steps = 1,
     matrix_eps = 1\<rparr>"

definition ex_sh_group2 :: param_group where
  "ex_sh_group2 = ex_sh_group\<lparr>params := [0, 1]\<rparr>"

definition ex_Shampoo2 :: Shampoo where
  "ex_Shampoo2 = ex_Shampoo\<lparr>param_groups := [ex_sh_group2]\<rparr>"

definition ex_ScalableShampoo2 :: ScalableShampoo where
  "ex_ScalableShampoo2 = ex_ScalableShampoo\<lparr>param_groups := [ex_sh_group2]\<rparr>"

text \<open>The worlds the two optimizers leave when they have updated parameter 0.\<close>

definition ex_sh_after0 :: "unit optimizer" where
  "ex_sh_after0 = snd (Shampoo_param ex_cps ex_Shampoo2 ex_sh_group2 0 ex_sh_world)"

definition ex_ss_after0 :: "unit optimizer" where
  "ex_ss_after0 = snd (ScalableShampoo_param ex_pc ex_ScalableShampoo2 ex_sh_group2 0 ex_sh_world)"

definition ex_sh_closure :: "unit optimizer \<Rightarrow> (error + real) \<times> unit optimizer" where
  "ex_sh_closure w =
     (Inr 7, w\<lparr>heap := (heap w)(1 := ex_tensor [3]), p_grad := (p_grad w)(0 := Some 1)\<rparr>)"

definition ex_closure :: "unit optimizer \<Rightarrow> (error + real) \<times> unit optimizer" where
  "ex_closure w =
     (Inr 7, w\<lparr>heap := (heap w)(1 := ex_tensor [10, 20]), p_grad := (p_grad w)(0 := Some 1)\<rparr>)"

text \<open>
  The matrices \<open>pre_cond_i\<close> and \<open>inv_pre_cond_i\<close> of the state of a parameter are not
  its gradient tensor \<open>g\<close>: the optimizer made them itself (lines 95 and 96) and never
  rebinds them. Nothing is asked of \<open>momentum_buffer\<close>, which line 127 rebinds at every
  step, to \<open>p.grad\<close> itself when the gradient has no dimension.
\<close>

definition stats_apart :: "pid \<Rightarrow> addr \<Rightarrow> ('pc, 'z) optimizer_scheme \<Rightarrow> bool" where
  "stats_apart p g w =
     list_all (\<lambda>(k, v). case k of
                  PRE_COND i \<Rightarrow> (case v of TensorV a \<Rightarrow> a \<noteq> g | _ \<Rightarrow> True)
                | INV_PRE_COND i \<Rightarrow> (case v of TensorV a \<Rightarrow> a \<noteq> g | _ \<Rightarrow> True)
                | _ \<Rightarrow> True) (state w p)"

text \<open>
  What lines 98 to 102 of \<open>Shampoo.step\<close> leave in the gradient tensor, from the gradient
  \<open>g\<close>, the momentum buffer \<open>buf\<close> and the parameter \<open>p\<close>; and the value of
  \<open>state['momentum_buffer']\<close> that line 99 adds, read after \<open>grad.mul_(1.0 - momentum)\<close>:
  a clone of the gradient when the state is new, the gradient already scaled when the
  buffer is the tensor \<open>p.grad\<close> itself, the value the buffer had before the step
  otherwise.
\<close>

definition blended_grad :: "param_group \<Rightarrow> tensor \<Rightarrow> tensor \<Rightarrow> tensor \<Rightarrow> tensor" where
  "blended_grad grp g buf p =
     (let g1 = (if momentum grp > 0
                then t_add (t_scale (1 - momentum grp) g) (momentum grp) buf else g)
      in if weight_decay grp > 0 then t_add g1 (weight_decay grp) p else g1)"

definition momentum_buffer_value ::
  "param_group \<Rightarrow> pid \<Rightarrow> addr \<Rightarrow> ('pc, 'z) optimizer_scheme \<Rightarrow> tensor" where
  "momentum_buffer_value grp p g w =
     (if length (state w p) = 0 then heap w g
      else (case get_tensor p MOMENTUM_BUFFER w of
              Inr b \<Rightarrow> if b = g then t_scale (1 - momentum grp) (heap w g) else heap w b
            | Inl e \<Rightarrow> heap w g))"

text \<open>The sample world after one step of \<open>ex_Shampoo\<close>, with the same gradient again.\<close>

definition ex_sh_world1 :: "unit optimizer" where
  "ex_sh_world1 = snd (Shampoo_step ex_cps ex_Shampoo None ex_sh_world)"

text \<open>
  The same for a parameter and a gradient with no dimension, the scalars 2 and 3: the
  world before the first step of \<open>ex_Shampoo\<close> and the world after it.
\<close>

definition ex_scalar :: "real \<Rightarrow> tensor" where
  "ex_scalar x = \<lparr>shape = [], vals = [x], is_sparse = False\<rparr>"

definition ex_sh_scalar_world :: "unit optimizer" where
  "ex_sh_scalar_world = \<lparr>heap = (\<lambda>a. ex_tensor [])(0 := ex_scalar 2, 1 := ex_scalar 3),
     next_addr = 2, p_data = (\<lambda>p. 0), p_grad = (\<lambda>p. None)(0 := Some 1), state = (\<lambda>p. [])\<rparr>"

definition ex_sh_scalar_world1 :: "unit optimizer" where
  "ex_sh_scalar_world1 = snd (Shampoo_step ex_cps ex_Shampoo None ex_sh_scalar_world)"

text \<open>
  Frames: \<open>kept p g w w'\<close> says that the code between \<open>w\<close> and \<open>w'\<close> left the gradient
  tensor \<open>g\<close> and the value of \<open>p\<close> alone and made no tensor disappear;
  \<open>same_but_heap g w w'\<close> that it wrote to tensors other than \<open>g\<close> only.
\<close>

definition kept :: "pid \<Rightarrow> addr \<Rightarrow> ('pc, 'z) optimizer_scheme \<Rightarrow> ('pc, 'z) optimizer_scheme \<Rightarrow> bool" where
  "kept p g w w' \<longleftrightarrow>
     p_grad w' = p_grad w \<and> p_data w' = p_data w \<and> next_addr w \<le> next_addr w' \<and>
     heap w' g = heap w g \<and> heap w' (p_data w p) = heap w (p_data w p)"

definition same_but_heap ::
  "addr \<Rightarrow> ('pc, 'z) optimizer_scheme \<Rightarrow> ('pc, 'z) optimizer_scheme \<Rightarrow> bool" where
  "same_but_heap g w w' \<longleftrightarrow>
     p_grad w' = p_grad w \<and> p_data w' = p_data w \<and> next_addr w' = next_addr w \<and>
     state w' = state w \<and> heap w' g = heap w g"

text \<open>
  The values the Graft computes (spec 4.3), apart from the store: its accumulator after
  \<open>add_statistics\<close>, and its \<open>precondition_gradient\<close> of a tensor \<open>x\<close> for the
  accumulator \<open>s\<close>. \<open>decayed\<close> is what lines 337 to 343 of \<open>ScalableShampoo.step\<close> make of
  a gradient \<open>x\<close> for the parameter value \<open>P\<close>.
\<close>

definition graft_statistics_value :: "Graft \<Rightarrow> tensor \<Rightarrow> real \<Rightarrow> tensor \<Rightarrow> tensor" where
  "graft_statistics_value gr g beta2 s =
     (case graft_kind gr of
        ADAGRAD \<Rightarrow> t_add s 1 (t_pow g 2)
      | RMSPROP \<Rightarrow> t_add (t_scale beta2 s) (1 - beta2) (t_pow g 2)
      | _ \<Rightarrow> s)"

definition graft_preconditioned :: "Graft \<Rightarrow> tensor \<Rightarrow> tensor \<Rightarrow> tensor" where
  "graft_preconditioned gr x s =
     (case graft_kind gr of
        ADAGRAD \<Rightarrow> t_div x (t_add_scalar (t_sqrt s) (graft_eps gr))
      | RMSPROP \<Rightarrow> t_div x (t_add_scalar (t_sqrt s) (graft_eps gr))
      | SQRTN \<Rightarrow> t_scale (1 / sqrt (real (numel x))) x
      | _ \<Rightarrow> x)"

definition decayed :: "'a ScalableShampoo_scheme \<Rightarrow> param_group \<Rightarrow> tensor \<Rightarrow> tensor \<Rightarrow> tensor" where
  "decayed self grp x P =
     (if weight_decay grp > 0 then
        (if \<not> decoupled_weight_decay self then t_add x (weight_decay grp) P
         else t_scale (1 - lr grp * weight_decay grp) x)
      else x)"

text \<open>
  The state of a parameter of Scalable Shampoo that has been initialised: its step
  \<open>n\<close>, its momentum \<open>m\<close>, its PreConditioner \<open>c\<close> and its Graft \<open>gr\<close>, whose tensors,
  the gradient \<open>g\<close> and the value of the parameter are five different tensors that exist.
\<close>

definition ss_ready ::
  "pid \<Rightarrow> addr \<Rightarrow> int \<Rightarrow> addr \<Rightarrow> 'pc \<Rightarrow> Graft \<Rightarrow> ('pc, 'z) optimizer_scheme \<Rightarrow> bool" where
  "ss_ready p g n m c gr w \<longleftrightarrow>
     map_of (state w p) STEP = Some (IntV n) \<and>
     map_of (state w p) MOMENTUM = Some (TensorV m) \<and>
     map_of (state w p) PRE_CONDITIONER = Some (PreCondV c) \<and>
     map_of (state w p) GRAFT = Some (GraftV gr) \<and>
     distinct [p_data w p, g, m, statistics gr, graft_momentum gr] \<and>
     list_all (\<lambda>a. a < next_addr w) [p_data w p, g, m, statistics gr, graft_momentum gr]"

text \<open>
  Steps 3, 5 and 8 of spec 4.5 as values: the Graft's gradient of the gradient \<open>G\<close> for
  the accumulator \<open>S\<close> before the step; a gradient \<open>SG\<close> rescaled to the norm of the
  Graft's gradient \<open>GG\<close>; and a momentum buffer \<open>M\<close> after \<open>X\<close> was added to it and,
  with Nesterov momentum, blended with the update \<open>W\<close>.
\<close>

definition graft_grad_value ::
  "'a ScalableShampoo_scheme \<Rightarrow> param_group \<Rightarrow> Graft \<Rightarrow> tensor \<Rightarrow> tensor \<Rightarrow> tensor" where
  "graft_grad_value self grp gr G S =
     graft_preconditioned gr
       (t_scale (if \<not> decoupled_learning_rate self then lr grp else 1) G)
       (graft_statistics_value gr G (snd (betas grp)) S)"

definition rescaled :: "'a ScalableShampoo_scheme \<Rightarrow> tensor \<Rightarrow> tensor \<Rightarrow> tensor" where
  "rescaled self GG SG =
     (if graft_type self \<noteq> NONE
      then t_scale (torch_norm GG / (torch_norm SG + 1 / 10 ^ 16)) SG
      else SG)"

definition nesterov_blend ::
  "'a ScalableShampoo_scheme \<Rightarrow> param_group \<Rightarrow> tensor \<Rightarrow> tensor \<Rightarrow> tensor \<Rightarrow> tensor" where
  "nesterov_blend self grp M X W =
     (if nesterov self
      then t_add (t_scale (fst (betas grp)) (t_add (t_scale (fst (betas grp)) M) 1 X)) 1
             (t_scale (if moving_average_for_momentum self then 1 - fst (betas grp) else 1) W)
      else t_add (t_scale (fst (betas grp)) M) 1 X)"

text \<open>
  The world in which \<open>ScalableShampoo.step\<close> works on a parameter: the one it is called
  in, with the state of the parameter made (lines 289 to 312) if it was empty.
\<close>

definition ss_initialised ::
  "'pc PreConditioner \<Rightarrow> 'a ScalableShampoo_scheme \<Rightarrow> param_group \<Rightarrow> pid
     \<Rightarrow> ('pc, 'z) optimizer_scheme \<Rightarrow> ('pc, 'z) optimizer_scheme" where
  "ss_initialised pc self grp p w =
     (if length (state w p) = 0
      then ScalableShampoo_new_state pc self (snd (betas grp)) p w else w)"

text \<open>The sample world after one step of \<open>ex_ScalableShampoo\<close>, with the same gradient again.\<close>

definition ex_ss_world1 :: "unit optimizer" where
  "ex_ss_world1 =
     (snd (ScalableShampoo_param ex_pc ex_ScalableShampoo ex_sh_group 0 ex_sh_world))
       \<lparr>heap := (heap (snd (ScalableShampoo_param ex_pc ex_ScalableShampoo ex_sh_group 0
                           ex_sh_world)))(1 := ex_tensor [3])\<rparr>"

definition ex_graft :: Graft where
  "ex_graft = \<lparr>graft_kind = SGD, statistics = 5, graft_momentum = 6, graft_eps = 0\<rparr>"

section \<open>Properties\<close>

subsection \<open>SAM: the ascent step\<close>

lemma fold_flat_params:
  "fold (\<lambda>grp. fold (f grp) (params grp)) gs w = fold (\<lambda>(grp, p). f grp p) (flat_params gs) w"
  by (induction gs arbitrary: w) (simp_all add: flat_params_def fold_map comp_def)

lemma first_step_param_None:
  "p_grad w p = None \<Longrightarrow> first_step_param sc grp p w = w"
  by (simp add: first_step_param_def)


lemma first_steps_inv:
  "first_steps_pre xs w \<Longrightarrow>
   first_steps_post sc xs w (fold (\<lambda>(grp, p). first_step_param (sc grp) grp p) xs w)"
proof (induction xs arbitrary: w)
  case Nil
  then show ?case by (simp add: first_steps_post_def)
next
  case (Cons x xs)
  obtain grp p where x: "x = (grp, p)" by (cases x)
  let ?w1 = "first_step_param (sc grp) grp p w"
  let ?w' = "fold (\<lambda>(grp, p). first_step_param (sc grp) grp p) xs ?w1"
  have w': "fold (\<lambda>(grp, p). first_step_param (sc grp) grp p) (x # xs) w = ?w'"
    by (simp add: x)
  have pd: "p_data w p < next_addr w" using Cons.prems by (simp add: first_steps_pre_def x)
  have dist: "p_data w p \<notin> p_data w ` snd ` set xs"
    using Cons.prems by (auto simp: first_steps_pre_def x)
  have tail_lt: "\<And>q. q \<in> snd ` set xs \<Longrightarrow> p_data w q < next_addr w"
    using Cons.prems by (auto simp: first_steps_pre_def x)
  have tail_g: "\<And>q g. q \<in> snd ` set xs \<Longrightarrow> p_grad w q = Some g \<Longrightarrow>
      g < next_addr w \<and> g \<noteq> p_data w p"
    using Cons.prems by (auto simp: first_steps_pre_def x)
  show ?case
  proof (cases "p_grad w p")
    case None
    then have w1: "?w1 = w" by (simp add: first_step_param_None)
    have "first_steps_pre xs w" using Cons.prems by (auto simp: first_steps_pre_def)
    from Cons.IH[OF this, of ] show ?thesis using None Cons.prems
      apply (simp add: x w1)
      apply (auto simp: first_steps_post_def first_steps_pre_def x split: option.splits)
      done
  next
    case (Some g)
    let ?P = "heap w (p_data w p)"
    let ?N = "t_add ?P 1 (ascent grp (sc grp) ?P (heap w g))"
    have g: "g < next_addr w" "g \<noteq> p_data w p"
      using Cons.prems Some by (auto simp: first_steps_pre_def x)
    have w1: "?w1 = w\<lparr>heap := (heap w)(next_addr w := ?P, p_data w p := ?N),
      next_addr := Suc (next_addr w),
      state := (state w)(p := AList.update OLD_P (TensorV (next_addr w)) (state w p))\<rparr>"
      using Some pd g
      by (auto simp add: first_step_param_def new_tensor_def set_state_def add_inplace_def ascent_def Let_def)
    have f1: "p_data ?w1 = p_data w" "p_grad ?w1 = p_grad w" "next_addr ?w1 = Suc (next_addr w)"
      "heap ?w1 = (heap w)(next_addr w := ?P, p_data w p := ?N)"
      "state ?w1 = (state w)(p := AList.update OLD_P (TensorV (next_addr w)) (state w p))"
      unfolding w1 by simp_all
    have pre1: "first_steps_pre xs ?w1" using Cons.prems unfolding w1
      by (auto simp: first_steps_pre_def less_Suc_eq)
    have post: "first_steps_post sc xs ?w1 ?w'" by (rule Cons.IH[OF pre1])
    have a1: "p_data ?w' = p_data w" "p_grad ?w' = p_grad w" "next_addr w \<le> next_addr ?w'"
      using post by (simp_all add: first_steps_post_def f1)
    have frame: "\<And>a. a \<le> next_addr w \<Longrightarrow> a \<notin> p_data w ` snd ` set xs \<Longrightarrow> heap ?w' a = heap ?w1 a"
      using post by (simp add: first_steps_post_def f1 less_Suc_eq_le)
    have a2: "\<forall>a < next_addr w. a \<notin> p_data w ` snd ` set (x # xs) \<longrightarrow> heap ?w' a = heap w a"
      using frame by (auto simp: f1 x)
    have a3: "\<forall>q. q \<notin> snd ` set (x # xs) \<longrightarrow> state ?w' q = state w q"
      using post by (auto simp add: first_steps_post_def f1 x)
    have hp: "heap ?w' (p_data w p) = ?N"
      using frame[of "p_data w p"] pd dist by (simp add: f1)
    have nfresh: "next_addr w \<notin> p_data w ` snd ` set xs"
      using tail_lt by fastforce
    have ho: "heap ?w' (next_addr w) = ?P"
      using frame[of "next_addr w"] nfresh pd by (simp add: f1)
    have sp: "state ?w' p = AList.update OLD_P (TensorV (next_addr w)) (state w p)"
    proof (cases "p \<in> snd ` set xs")
      case True
      then show ?thesis using dist by blast
    next
      case False
      then show ?thesis using post by (simp add: first_steps_post_def f1)
    qed
    have head: "heap ?w' (p_data w p) = ?N \<and>
        (\<exists>a. map_of (state ?w' p) OLD_P = Some (TensorV a) \<and> heap ?w' a = ?P)"
      using hp ho sp by (simp add: update_conv')
    have tail: "\<forall>(grp', q) \<in> set xs. case p_grad w q of
         None \<Rightarrow> heap ?w' (p_data w q) = heap w (p_data w q)
       | Some g' \<Rightarrow>
           heap ?w' (p_data w q) =
             t_add (heap w (p_data w q)) 1 (ascent grp' (sc grp') (heap w (p_data w q)) (heap w g')) \<and>
           (\<exists>a. map_of (state ?w' q) OLD_P = Some (TensorV a) \<and> heap ?w' a = heap w (p_data w q))"
    proof (clarify)
      fix grp' q assume in_xs: "(grp', q) \<in> set xs"
      then have q: "q \<in> snd ` set xs" by force
      have qi: "p_data w q \<in> p_data w ` snd ` set xs" using q by (rule imageI)
      have qd1: "p_data w q \<noteq> p_data w p" using qi dist by metis
      have qd2: "p_data w q \<noteq> next_addr w" using tail_lt[OF q] by simp
      note qd = qd1 qd2
      have hq: "heap ?w1 (p_data w q) = heap w (p_data w q)" using qd by (simp add: f1)
      have hg: "\<And>g'. p_grad w q = Some g' \<Longrightarrow> heap ?w1 g' = heap w g'"
        using tail_g[OF q] by (auto simp: f1)
      from post in_xs have "case p_grad w q of
         None \<Rightarrow> heap ?w' (p_data w q) = heap ?w1 (p_data w q)
       | Some g' \<Rightarrow>
           heap ?w' (p_data w q) =
             t_add (heap ?w1 (p_data w q)) 1 (ascent grp' (sc grp') (heap ?w1 (p_data w q)) (heap ?w1 g')) \<and>
           (\<exists>a. map_of (state ?w' q) OLD_P = Some (TensorV a) \<and> heap ?w' a = heap ?w1 (p_data w q))"
        unfolding first_steps_post_def f1(1,2) by fast
      then show "case p_grad w q of
         None \<Rightarrow> heap ?w' (p_data w q) = heap w (p_data w q)
       | Some g' \<Rightarrow>
           heap ?w' (p_data w q) =
             t_add (heap w (p_data w q)) 1 (ascent grp' (sc grp') (heap w (p_data w q)) (heap w g')) \<and>
           (\<exists>a. map_of (state ?w' q) OLD_P = Some (TensorV a) \<and> heap ?w' a = heap w (p_data w q))"
        using hq hg by (cases "p_grad w q") simp_all
    qed
    show ?thesis
      unfolding w' first_steps_post_def
      using a1 a2 a3 head tail Some by (simp add: x)
  qed
qed





lemma sum_list_sq_nonneg: "0 \<le> (\<Sum>x\<leftarrow>xs. (x::real)\<^sup>2)"
  by (induction xs) simp_all

lemma torch_norm_sq: "(torch_norm t)\<^sup>2 = (\<Sum>x\<leftarrow>vals t. x\<^sup>2)"
  by (simp add: torch_norm_def sum_list_sq_nonneg)

lemma sum_norms_sq: "(\<Sum>x\<leftarrow>map torch_norm ts. x\<^sup>2) = (\<Sum>t\<leftarrow>ts. \<Sum>x\<leftarrow>vals t. x\<^sup>2)"
  by (induction ts) (simp_all add: torch_norm_sq)

lemma torch_norm_scale_1: "torch_norm (t_scale 1 t) = torch_norm t"
  by (simp add: torch_norm_def t_scale_def)

lemma grad_norms_nonadaptive:
  assumes "list_all (\<lambda>grp. \<not> adaptive grp) (param_groups self)"
  shows "grad_norms self w = map torch_norm (all_grads self w)"
proof -
  have "list_all (\<lambda>grp. \<not> adaptive grp) gs \<Longrightarrow>
    concat (map (\<lambda>grp. concat (map (\<lambda>p.
         (case p_grad w p of
            None \<Rightarrow> []
          | Some g \<Rightarrow> [torch_norm (weighted_grad grp (heap w (p_data w p)) (heap w g))]))
       (params grp))) gs) =
    map torch_norm (concat (map (\<lambda>p. case p_grad w p of None \<Rightarrow> [] | Some g \<Rightarrow> [heap w g])
       (concat (map params gs))))" for gs
  proof (induction gs)
    case Nil
    then show ?case by simp
  next
    case (Cons grp gs)
    have "concat (map (\<lambda>p.
         (case p_grad w p of
            None \<Rightarrow> []
          | Some g \<Rightarrow> [torch_norm (weighted_grad grp (heap w (p_data w p)) (heap w g))])) ps)
       = map torch_norm (concat (map (\<lambda>p. case p_grad w p of None \<Rightarrow> [] | Some g \<Rightarrow> [heap w g]) ps))" for ps
      using Cons.prems
      by (induction ps) (simp_all add: weighted_grad_def torch_norm_scale_1 split: option.splits)
    then show ?case using Cons by simp
  qed
  then show ?thesis using assms by (simp add: grad_norms_def all_grads_def all_params_def)
qed

lemma grad_norm_global:
  assumes "list_all (\<lambda>grp. \<not> adaptive grp) (param_groups self)"
    and "param_groups self \<noteq> []" and "params (hd (param_groups self)) \<noteq> []"
    and "all_grads self w \<noteq> []"
  shows "grad_norm self w = Inr (global_grad_norm self w)"
proof -
  obtain g0 gs where gs: "param_groups self = g0 # gs"
    using assms(2) by (cases "param_groups self") auto
  obtain p0 ps where ps: "params g0 = p0 # ps"
    using assms(3) gs by (cases "params g0") auto
  have n: "grad_norms self w = map torch_norm (all_grads self w)"
    by (rule grad_norms_nonadaptive[OF assms(1)])
  have "grad_norm self w = Inr (sqrt (\<Sum>x\<leftarrow>map torch_norm (all_grads self w). x\<^sup>2))"
    unfolding grad_norm_def n using assms(4) by (simp add: gs ps)
  then show ?thesis unfolding sum_norms_sq global_grad_norm_def .
qed

lemma map2_diff:
  "length xs = length ys \<Longrightarrow>
   map2 (-) (map2 (\<lambda>x y. x + 1 * y) xs (map (\<lambda>x. x * c) (map (\<lambda>x. x * 1) ys))) xs =
   map (\<lambda>d. c * d) (ys::real list)"
  by (induction xs ys rule: list_induct2) simp_all





lemma params_wf_pre:
  assumes "params_wf (all_params self) w"
  shows "first_steps_pre (flat_params (param_groups self)) w"
proof -
  have m: "map snd (flat_params gs) = concat (map params gs)" for gs
    by (induction gs) (simp_all add: flat_params_def comp_def)
  have s: "snd ` set (flat_params (param_groups self)) = set (all_params self)"
    using m[of "param_groups self"] by (metis all_params_def set_map)
  have d: "distinct (map (p_data w \<circ> snd) (flat_params (param_groups self)))"
    using assms m[of "param_groups self"]
    by (metis all_params_def map_map params_wf_def)
  show ?thesis
    unfolding first_steps_pre_def s
    using assms d by (auto simp: params_wf_def list_all_iff split: option.splits)
qed

text \<open>
  Claim C2. Let the parameters be well-formed, every group non-adaptive and the first
  group non-empty. Then \<open>first_step\<close> returns, and in the world \<open>w1\<close> its loops leave
  (to which \<open>zero_grad\<close> is applied when asked for) every parameter \<open>p\<close> of a group
  \<open>grp\<close> that has a gradient \<open>g\<close> differs from its value before the call by exactly
  \<open>rho * g / (grad_norm + 1e-12)\<close>, elementwise, where \<open>grad_norm\<close> is the global
  2-norm of all gradients of all groups, and \<open>state[p]['old_p']\<close> is a tensor that
  holds the value before the call.
\<close>

theorem SAM_first_step_perturbation:
  assumes wf: "params_wf (all_params self) w"
    and na: "list_all (\<lambda>grp. \<not> adaptive grp) (param_groups self)"
    and ne: "params (hd (param_groups self)) \<noteq> []"
    and grp: "grp \<in> set (param_groups self)" and p: "p \<in> set (params grp)"
    and g: "p_grad w p = Some g"
  shows "\<exists>w1. first_step self zero w = (Inr (), if zero then zero_grad self w1 else w1) \<and>
           map2 (-) (vals (heap w1 (p_data w1 p))) (vals (heap w (p_data w p))) =
             map (\<lambda>d. rho grp * d / (global_grad_norm self w + 1 / 10 ^ 12)) (vals (heap w g)) \<and>
           (\<exists>old_p. map_of (state w1 p) OLD_P = Some (TensorV old_p) \<and>
                    heap w1 old_p = heap w (p_data w p))"
proof -
  let ?gn = "global_grad_norm self w"
  let ?sc = "\<lambda>grp. rho grp / (?gn + 1 / 10 ^ 12)"
  let ?w' = "fold (\<lambda>(grp, p). first_step_param (?sc grp) grp p) (flat_params (param_groups self)) w"
  have pin: "p \<in> set (all_params self)" using grp p by (auto simp: all_params_def)
  have "heap w g \<in> set (all_grads self w)"
    using pin g by (force simp: all_grads_def)
  then have "all_grads self w \<noteq> []" by auto
  moreover have "param_groups self \<noteq> []" using grp by auto
  ultimately have gn: "grad_norm self w = Inr ?gn"
    using na ne by (simp add: grad_norm_global)
  have fs: "first_step self zero w = (Inr (), if zero then zero_grad self ?w' else ?w')"
    by (simp add: first_step_def gn fold_flat_params)
  have post: "first_steps_post ?sc (flat_params (param_groups self)) w ?w'"
    by (rule first_steps_inv[OF params_wf_pre[OF wf]])
  have mem: "(grp, p) \<in> set (flat_params (param_groups self))"
    using grp p by (auto simp: flat_params_def)
  have pd: "p_data ?w' = p_data w" using post by (simp add: first_steps_post_def)
  from post mem g have
    hp: "heap ?w' (p_data w p) =
           t_add (heap w (p_data w p)) 1 (ascent grp (?sc grp) (heap w (p_data w p)) (heap w g))"
    and old: "\<exists>a. map_of (state ?w' p) OLD_P = Some (TensorV a) \<and> heap ?w' a = heap w (p_data w p)"
    unfolding first_steps_post_def by fastforce+
  have nag: "\<not> adaptive grp" using na grp by (simp add: list_all_iff)
  have len: "length (vals (heap w (p_data w p))) = length (vals (heap w g))"
    using wf pin g by (auto simp: params_wf_def list_all_iff)
  have "map2 (-) (vals (heap ?w' (p_data ?w' p))) (vals (heap w (p_data w p))) =
      map (\<lambda>d. ?sc grp * d) (vals (heap w g))"
    unfolding pd hp using nag map2_diff[OF len, of "?sc grp"]
    by (simp add: ascent_def t_add_def t_scale_def)
  then have "map2 (-) (vals (heap ?w' (p_data ?w' p))) (vals (heap w (p_data w p))) =
      map (\<lambda>d. rho grp * d / (?gn + 1 / 10 ^ 12)) (vals (heap w g))"
    by simp
  then show ?thesis using fs old by blast
qed

lemma ex_global_grad_norm: "global_grad_norm ex_SAM ex_world = 5"
  by (simp add: global_grad_norm_def all_grads_def all_params_def ex_SAM_def ex_world_def ex_group_def ex_tensor_def)

theorem SAM_first_step_perturbation_witness:
  "\<exists>w1. first_step ex_SAM False ex_world = (Inr (), w1) \<and>
      map2 (-) (vals (heap w1 (p_data w1 0))) [1, 2] =
        [1 / 20 * 3 / (5 + 1 / 10 ^ 12), 1 / 20 * 4 / (5 + 1 / 10 ^ 12)] \<and>
      (\<exists>old_p. map_of (state w1 0) OLD_P = Some (TensorV old_p) \<and> vals (heap w1 old_p) = [1, 2])"
proof -
  have wf: "params_wf (all_params ex_SAM) ex_world"
    by (simp add: params_wf_def all_params_def ex_SAM_def ex_world_def ex_group_def ex_tensor_def)
  have na: "list_all (\<lambda>grp. \<not> adaptive grp) (param_groups ex_SAM)"
    by (simp add: ex_SAM_def ex_group_def)
  have ne: "params (hd (param_groups ex_SAM)) \<noteq> []"
    by (simp add: ex_SAM_def ex_group_def)
  have grp: "ex_group \<in> set (param_groups ex_SAM)" by (simp add: ex_SAM_def)
  have p: "0 \<in> set (params ex_group)" by (simp add: ex_group_def)
  have g: "p_grad ex_world 0 = Some 1" by (simp add: ex_world_def)
  have v: "vals (heap ex_world (p_data ex_world 0)) = [1, 2]" "vals (heap ex_world 1) = [3, 4]"
    "rho ex_group = 1 / 20"
    by (simp_all add: ex_world_def ex_tensor_def ex_group_def)
  from SAM_first_step_perturbation[OF wf na ne grp p g, of False]
  show ?thesis unfolding ex_global_grad_norm v by (auto simp: v)
qed

subsection \<open>SAM: the descent step\<close>

lemma restored_fields [simp]:
  "heap (restored ps w) = heap w" "p_grad (restored ps w) = p_grad w"
  "state (restored ps w) = state w" "next_addr (restored ps w) = next_addr w"
  by (simp_all add: restored_def)

lemma old_p_of_restored [simp]: "old_p_of (restored ps w) = old_p_of w"
  by (simp add: old_p_of_def fun_eq_iff)

lemma old_p_saved_restored [simp]: "old_p_saved qs (restored ps w) = old_p_saved qs w"
  by (simp add: old_p_saved_def cong: option.case_cong)

lemma restored_Nil [simp]: "restored [] w = w"
  by (simp add: restored_def)

lemma restored_append: "restored qs (restored ps w) = restored (ps @ qs) w"
proof -
  have "p_data (restored qs (restored ps w)) = p_data (restored (ps @ qs) w)"
    unfolding restored_def[of qs] restored_fields old_p_of_restored
    by (auto simp add: restored_def fun_eq_iff split: option.splits)
  then show ?thesis
    unfolding restored_def[of qs] by (simp add: restored_def)
qed

lemma second_step_param_restored:
  "old_p_saved [p] w \<Longrightarrow> second_step_param p w = (Inr (), restored [p] w)"
  by (auto simp add: second_step_param_def old_p_saved_def old_p_of_def restored_def get_tensor_def fun_eq_iff
      split: option.splits val.splits intro!: arg_cong[where f="\<lambda>f. p_data_update f w"])

lemma for_each_second_step_param:
  "old_p_saved ps w \<Longrightarrow> for_each second_step_param ps w = (Inr (), restored ps w)"
proof (induction ps arbitrary: w)
  case Nil
  then show ?case by simp
next
  case (Cons p ps)
  have 1: "second_step_param p w = (Inr (), restored [p] w)"
    using Cons.prems by (simp add: second_step_param_restored old_p_saved_def)
  have 2: "old_p_saved ps (restored [p] w)" using Cons.prems
    unfolding old_p_saved_restored by (simp add: old_p_saved_def)
  show ?case using Cons.IH[OF 2] by (simp add: 1 restored_append)
qed

lemma restore_params_restored:
  assumes "old_p_saved (all_params self) w"
  shows "restore_params self w = (Inr (), restored (all_params self) w)"
proof -
  have "old_p_saved (concat (map params gs)) w \<Longrightarrow>
      for_each (\<lambda>grp. for_each second_step_param (params grp)) gs w =
      (Inr (), restored (concat (map params gs)) w)" for gs
  proof (induction gs arbitrary: w)
    case Nil
    then show ?case by simp
  next
    case (Cons grp gs)
    have 1: "for_each second_step_param (params grp) w = (Inr (), restored (params grp) w)"
      using Cons.prems by (simp add: for_each_second_step_param old_p_saved_def)
    have 2: "old_p_saved (concat (map params gs)) (restored (params grp) w)"
      using Cons.prems unfolding old_p_saved_restored by (simp add: old_p_saved_def)
    show ?case using Cons.IH[OF 2] by (simp add: 1 restored_append)
  qed
  then show ?thesis using assms by (simp add: restore_params_def all_params_def)
qed

lemma second_step_restored:
  assumes "old_p_saved (all_params self) w"
  shows "second_step self zero w =
           (case base_optimizer_step self (restored (all_params self) w) of
              (Inl e, w2) \<Rightarrow> (Inl e, w2)
            | (Inr u, w2) \<Rightarrow> (Inr (), if zero then zero_grad self w2 else w2))"
  using assms by (simp add: second_step_def restore_params_restored)

lemma flat_params_mem:
  "p \<in> set (all_params self) \<Longrightarrow> \<exists>grp. (grp, p) \<in> set (flat_params (param_groups self))"
  by (auto simp: all_params_def flat_params_def)

lemma first_step_Inr:
  assumes "first_step self False w = (Inr (), w1)"
  shows "\<exists>sc. w1 = fold (\<lambda>(grp, p). first_step_param (sc grp) grp p) (flat_params (param_groups self)) w"
proof (cases "grad_norm self w")
  case (Inl e)
  then show ?thesis using assms by (simp add: first_step_def)
next
  case (Inr gn)
  then have "w1 = fold (\<lambda>(grp, p). first_step_param (rho grp / (gn + 1 / 10 ^ 12)) grp p)
      (flat_params (param_groups self)) w"
    using assms by (simp add: first_step_def fold_flat_params)
  then show ?thesis by (intro exI[of _ "\<lambda>grp. rho grp / (gn + 1 / 10 ^ 12)"])
qed

text \<open>
  Claim C3. After a \<open>first_step\<close> from well-formed parameters, let the caller's second
  pass leave a world \<open>w2\<close> with the optimizer state and the saved tensors untouched.
  Then \<open>second_step\<close> is the base optimizer's \<open>step\<close> run on the world in which every
  parameter with a gradient is the tensor \<open>state[p]['old_p']\<close>, whose value is the one
  the parameter had before \<open>first_step\<close>; the gradients are those of \<open>w2\<close>, computed at
  the perturbed point. (\<open>zero_grad\<close> follows when asked for.)
\<close>

theorem SAM_second_step_restores_first:
  assumes wf: "params_wf (all_params self) w"
    and fs: "first_step self False w = (Inr (), w1)"
    and st: "state w2 = state w1"
    and saved: "\<forall>p \<in> set (all_params self). \<forall>a. old_p_of w1 p = Some a \<longrightarrow> heap w2 a = heap w1 a"
    and grads: "\<forall>p \<in> set (all_params self). p_grad w2 p \<noteq> None \<longrightarrow> p_grad w p \<noteq> None"
  shows "second_step self zero w2 =
           (case base_optimizer_step self (restored (all_params self) w2) of
              (Inl e, w3) \<Rightarrow> (Inl e, w3)
            | (Inr u, w3) \<Rightarrow> (Inr (), if zero then zero_grad self w3 else w3)) \<and>
         heap (restored (all_params self) w2) = heap w2 \<and>
         p_grad (restored (all_params self) w2) = p_grad w2 \<and>
         (\<forall>p \<in> set (all_params self). p_grad w2 p \<noteq> None \<longrightarrow>
            old_p_of w2 p = Some (p_data (restored (all_params self) w2) p) \<and>
            heap (restored (all_params self) w2) (p_data (restored (all_params self) w2) p) =
              heap w (p_data w p))"
proof -
  let ?ps = "all_params self"
  obtain sc where w1: "w1 = fold (\<lambda>(grp, p). first_step_param (sc grp) grp p)
      (flat_params (param_groups self)) w"
    using first_step_Inr[OF fs] by blast
  have post: "first_steps_post sc (flat_params (param_groups self)) w w1"
    unfolding w1 by (rule first_steps_inv[OF params_wf_pre[OF wf]])
  have key: "\<exists>a. old_p_of w2 p = Some a \<and> heap w2 a = heap w (p_data w p)"
    if p: "p \<in> set ?ps" and g2: "p_grad w2 p \<noteq> None" for p
  proof -
    obtain g where g: "p_grad w p = Some g" using grads p g2 by auto
    obtain grp where mem: "(grp, p) \<in> set (flat_params (param_groups self))"
      using flat_params_mem[OF p] by blast
    from post mem g obtain a where
      a: "map_of (state w1 p) OLD_P = Some (TensorV a)" "heap w1 a = heap w (p_data w p)"
      unfolding first_steps_post_def by fastforce
    have "old_p_of w1 p = Some a" using a(1) by (simp add: old_p_of_def)
    moreover have "old_p_of w2 p = old_p_of w1 p" by (simp add: old_p_of_def st)
    ultimately show ?thesis using saved p a(2) by auto
  qed
  have sv: "old_p_saved ?ps w2"
    unfolding old_p_saved_def list_all_iff
  proof
    fix p assume "p \<in> set ?ps"
    then show "case p_grad w2 p of None \<Rightarrow> True | Some g \<Rightarrow> old_p_of w2 p \<noteq> None"
      using key[of p] by (cases "p_grad w2 p") auto
  qed
  have vals: "old_p_of w2 p = Some (p_data (restored ?ps w2) p) \<and>
      heap (restored ?ps w2) (p_data (restored ?ps w2) p) = heap w (p_data w p)"
    if p: "p \<in> set ?ps" and g2: "p_grad w2 p \<noteq> None" for p
  proof -
    obtain a where a: "old_p_of w2 p = Some a" "heap w2 a = heap w (p_data w p)"
      using key[OF p g2] by blast
    obtain g where g: "p_grad w2 p = Some g" using g2 by auto
    have "p_data (restored ?ps w2) p = a" using p a(1) g by (simp add: restored_def)
    then show ?thesis using a by simp
  qed
  show ?thesis using second_step_restored[OF sv, of zero] vals by simp
qed

lemmas ex_defs = ex_SAM_def ex_world_def ex_group_def ex_tensor_def ex_sgd_step_def

lemma ex_grad_norm: "grad_norm ex_SAM ex_world = Inr 5"
  by (simp add: grad_norm_def grad_norms_def weighted_grad_def torch_norm_def t_scale_def ex_defs)

lemma ex_first_step: "first_step ex_SAM False ex_world = (Inr (), ex_perturbed)"
  by (simp add: ex_perturbed_def first_step_def ex_grad_norm)

lemma ex_perturbed_eq:
  "ex_perturbed = first_step_param (1 / 20 / (5 + 1 / 10 ^ 12)) ex_group 0 ex_world"
  unfolding ex_perturbed_def first_step_def ex_grad_norm
  by (simp add: ex_SAM_def ex_group_def)

lemma ex_perturbed_fields:
  "state ex_perturbed 0 = [(OLD_P, TensorV 2)]"
  "p_grad ex_perturbed 0 = Some 1"
  "heap ex_perturbed 2 = ex_tensor [1, 2]"
  "p_data ex_perturbed 0 = 0"
  unfolding ex_perturbed_eq
  by (simp_all add: first_step_param_def new_tensor_def set_state_def add_inplace_def Let_def
      ex_world_def ex_group_def ex_tensor_def)

theorem SAM_second_step_restores_first_witness:
  "first_step ex_SAM False ex_world = (Inr (), ex_perturbed) \<and>
   fst (second_step ex_SAM False ex_regrad) = Inr () \<and>
   vals (heap (snd (second_step ex_SAM False ex_regrad))
          (p_data (snd (second_step ex_SAM False ex_regrad)) 0)) = [1 - 10 / 10, 2 - 20 / 10]"
proof -
  have wf: "params_wf (all_params ex_SAM) ex_world"
    by (simp add: params_wf_def all_params_def ex_defs)
  have st: "state ex_regrad = state ex_perturbed" by (simp add: ex_regrad_def)
  have ps: "all_params ex_SAM = [0]" by (simp add: all_params_def ex_defs)
  have saved: "\<forall>p \<in> set (all_params ex_SAM). \<forall>a. old_p_of ex_perturbed p = Some a \<longrightarrow>
      heap ex_regrad a = heap ex_perturbed a"
    by (simp add: ps old_p_of_def ex_perturbed_fields ex_regrad_def)
  have grads: "\<forall>p \<in> set (all_params ex_SAM). p_grad ex_regrad p \<noteq> None \<longrightarrow> p_grad ex_world p \<noteq> None"
    by (simp add: ps ex_world_def)
  have g: "p_grad ex_regrad 0 = Some 1" "heap ex_regrad 1 = ex_tensor [10, 20]"
    by (simp_all add: ex_regrad_def ex_perturbed_fields)
  have v: "heap ex_world (p_data ex_world 0) = ex_tensor [1, 2]" by (simp add: ex_world_def)
  let ?R = "restored (all_params ex_SAM) ex_regrad"
  have b: "base_optimizer_step ex_SAM = ex_sgd_step" by (simp add: ex_SAM_def)
  from SAM_second_step_restores_first[OF wf ex_first_step st saved grads, of False]
  have A: "second_step ex_SAM False ex_regrad =
      (case ex_sgd_step ?R of (Inl e, w3) \<Rightarrow> (Inl e, w3)
       | (Inr u, w3) \<Rightarrow> (Inr (), if False then zero_grad ex_SAM w3 else w3))"
    and B: "heap ?R = heap ex_regrad" and C: "p_grad ?R = p_grad ex_regrad"
    and D: "heap ?R (p_data ?R 0) = heap ex_world (p_data ex_world 0)"
    unfolding b by (simp_all add: ps g)
  have E: "ex_sgd_step ?R = (Inr (), add_inplace (p_data ?R 0) (heap ?R 1) (- (1 / 10)) ?R)"
    by (simp add: ex_sgd_step_def C g)
  have "vals (heap (snd (second_step ex_SAM False ex_regrad))
          (p_data (snd (second_step ex_SAM False ex_regrad)) 0)) = [1 - 10 / 10, 2 - 20 / 10]"
  proof -
    have D': "heap ex_regrad (p_data ?R 0) = ex_tensor [1, 2]" using D B v by simp
    have g': "heap ex_regrad (Suc 0) = ex_tensor [10, 20]" using g(2) by simp
    show ?thesis
      unfolding A E by (simp add: add_inplace_def D' g' t_add_def ex_tensor_def)
  qed
  moreover have "fst (second_step ex_SAM False ex_regrad) = Inr ()"
    unfolding A E by simp
  ultimately show ?thesis using ex_first_step by simp
qed

text \<open>
  Claim C7. \<open>SAM.step\<close> without a closure raises RuntimeError, and the world it leaves
  is the world it was called in: nothing is perturbed, the base optimizer does not run.
\<close>

theorem SAM_step_requires_closure:
  "SAM_step self None w = (Inl RuntimeError, w)"
  by (simp add: SAM_step_def)

subsection \<open>The steps: what they return and when they raise\<close>

lemma for_each_append:
  "for_each body (xs @ ys) w =
     (case for_each body xs w of
        (Inl e, w') \<Rightarrow> (Inl e, w')
      | (Inr u, w') \<Rightarrow> for_each body ys w')"
  by (induction xs arbitrary: w) (auto split: prod.splits sum.splits)

lemma for_each_stops:
  assumes "for_each body pre w = (Inr (), w1)" and "body x w1 = (Inl e, w2)"
  shows "for_each body (pre @ x # post) w = (Inl e, w2)"
  using assms by (simp add: for_each_append)

lemma call_closure_loss:
  "call_closure closure w = (Inr r, w0) \<Longrightarrow> r = closure_loss closure w"
  by (auto simp: call_closure_def closure_loss_def split: option.splits prod.splits sum.splits)

lemma Shampoo_param_sparse:
  "p_grad w p = Some g \<Longrightarrow> is_sparse (heap w g) \<Longrightarrow>
   Shampoo_param cps self grp p w = (Inl NoSparseGradientError, w)"
  by (simp add: Shampoo_param_def)

lemma ScalableShampoo_param_sparse:
  "p_grad w p = Some g \<Longrightarrow> is_sparse (heap w g) \<Longrightarrow>
   ScalableShampoo_param pc self grp p w = (Inl NoSparseGradientError, w)"
  by (simp add: ScalableShampoo_param_def)

text \<open>
  Claim C6. When the loops of \<open>Shampoo.step\<close> or \<open>ScalableShampoo.step\<close> reach a parameter
  whose gradient is sparse, the step raises NoSparseGradientError there: the body of
  the loop leaves the world as it found it (no state and no value of that parameter is
  written), and the world the step leaves is the world \<open>w2\<close> that the closure, the groups
  before and the parameters before in its group have made, their updates included.
\<close>

theorem sparse_gradient_raises_at_first_encounter:
  assumes cl: "call_closure closure w = (Inr loss, w0)"
    and ps: "params grp = pre @ p # post"
    and sp: "p_grad w2 p = Some g" "is_sparse (heap w2 g)"
  shows "Shampoo_param cps sh grp p w2 = (Inl NoSparseGradientError, w2) \<and>
         ScalableShampoo_param pc ss grp p w2 = (Inl NoSparseGradientError, w2) \<and>
         (param_groups sh = gpre @ grp # gpost
            \<and> for_each (\<lambda>grp. for_each (Shampoo_param cps sh grp) (params grp)) gpre w0
                 = (Inr (), w1)
            \<and> for_each (Shampoo_param cps sh grp) pre w1 = (Inr (), w2)
          \<longrightarrow> Shampoo_step cps sh closure w = (Inl NoSparseGradientError, w2)) \<and>
         (param_groups ss = gpre @ grp # gpost
            \<and> for_each (\<lambda>grp. for_each (ScalableShampoo_param pc ss grp) (params grp)) gpre w0
                 = (Inr (), w1)
            \<and> for_each (ScalableShampoo_param pc ss grp) pre w1 = (Inr (), w2)
          \<longrightarrow> ScalableShampoo_step pc ss closure w = (Inl NoSparseGradientError, w2))"
proof -
  have a: "Shampoo_param cps sh grp p w2 = (Inl NoSparseGradientError, w2)"
    by (rule Shampoo_param_sparse[OF sp])
  have b: "ScalableShampoo_param pc ss grp p w2 = (Inl NoSparseGradientError, w2)"
    by (rule ScalableShampoo_param_sparse[OF sp])
  have c: "Shampoo_step cps sh closure w = (Inl NoSparseGradientError, w2)"
    if gs: "param_groups sh = gpre @ grp # gpost"
    and 1: "for_each (\<lambda>grp. for_each (Shampoo_param cps sh grp) (params grp)) gpre w0 = (Inr (), w1)"
    and 2: "for_each (Shampoo_param cps sh grp) pre w1 = (Inr (), w2)"
  proof -
    have "for_each (Shampoo_param cps sh grp) (params grp) w1 = (Inl NoSparseGradientError, w2)"
      unfolding ps by (rule for_each_stops[OF 2 a])
    then have "for_each (\<lambda>grp. for_each (Shampoo_param cps sh grp) (params grp))
        (param_groups sh) w0 = (Inl NoSparseGradientError, w2)"
      unfolding gs by (rule for_each_stops[OF 1])
    then show ?thesis by (simp add: Shampoo_step_def cl)
  qed
  have d: "ScalableShampoo_step pc ss closure w = (Inl NoSparseGradientError, w2)"
    if gs: "param_groups ss = gpre @ grp # gpost"
    and 1: "for_each (\<lambda>grp. for_each (ScalableShampoo_param pc ss grp) (params grp)) gpre w0
        = (Inr (), w1)"
    and 2: "for_each (ScalableShampoo_param pc ss grp) pre w1 = (Inr (), w2)"
  proof -
    have "for_each (ScalableShampoo_param pc ss grp) (params grp) w1
        = (Inl NoSparseGradientError, w2)"
      unfolding ps by (rule for_each_stops[OF 2 b])
    then have "for_each (\<lambda>grp. for_each (ScalableShampoo_param pc ss grp) (params grp))
        (param_groups ss) w0 = (Inl NoSparseGradientError, w2)"
      unfolding gs by (rule for_each_stops[OF 1])
    then show ?thesis by (simp add: ScalableShampoo_step_def cl)
  qed
  show ?thesis using a b c d by blast
qed

text \<open>
  Claim C5, amended. When \<open>Shampoo.step\<close> or \<open>ScalableShampoo.step\<close> returns, it returns
  the loss its closure evaluated to, and None when it has no closure. When \<open>SAM.step\<close>
  returns, it returns None, whatever its closure evaluated to.
\<close>

theorem step_returns_closure_loss:
  "(Shampoo_step cps sh closure w = (Inr r1, w1) \<longrightarrow> r1 = closure_loss closure w) \<and>
   (ScalableShampoo_step pc ss closure' w' = (Inr r2, w2) \<longrightarrow> r2 = closure_loss closure' w') \<and>
   (SAM_step sam (Some c) w'' = (Inr r3, w3) \<longrightarrow> r3 = None)"
proof (intro conjI impI)
  assume "Shampoo_step cps sh closure w = (Inr r1, w1)"
  then show "r1 = closure_loss closure w"
    by (auto simp: Shampoo_step_def split: prod.splits sum.splits dest: call_closure_loss)
next
  assume "ScalableShampoo_step pc ss closure' w' = (Inr r2, w2)"
  then show "r2 = closure_loss closure' w'"
    by (auto simp: ScalableShampoo_step_def split: prod.splits sum.splits dest: call_closure_loss)
next
  assume "SAM_step sam (Some c) w'' = (Inr r3, w3)"
  then show "r3 = None"
    by (auto simp: SAM_step_def split: prod.splits sum.splits)
qed


lemmas sh_eval = Shampoo_param_def Shampoo_init_state_def Shampoo_momentum_def
  Shampoo_weight_decay_def Shampoo_commit_def
  set_state_def get_tensor_def get_int_def new_tensor_def add_inplace_def mul_inplace_def copy_inplace_def
  transpose_contiguous_def view2_def view_def matmul_def eye_def zeros_def swap_dims_def numel_def
  t_scale_def t_add_def Let_def

lemmas ss_eval = ScalableShampoo_param_def ScalableShampoo_new_state_def ScalableShampoo_update_def
  ScalableShampoo_grads_def
  ScalableShampoo_rescale_def ScalableShampoo_weight_decay_def is_precondition_step_def
  Graft_new_def Graft_add_statistics_def Graft_precondition_gradient_def Graft_update_momentum_def
  get_pre_conditioner_def get_graft_def
  set_state_def get_tensor_def get_int_def new_tensor_def add_inplace_def mul_inplace_def
  zeros_like_def torch_norm_def t_scale_def t_add_def Let_def

lemmas ex_sh_defs = ex_cps_def ex_sh_group_def ex_sh_group2_def ex_Shampoo_def ex_Shampoo2_def ex_sh_world_def
  ex_tensor_def ex_pc_def ex_ScalableShampoo_def ex_ScalableShampoo2_def

lemma ex_sh_after0_facts:
  "Shampoo_param ex_cps ex_Shampoo2 ex_sh_group2 0 ex_sh_world = (Inr (), ex_sh_after0)"
  "p_grad ex_sh_after0 1 = Some 3" "is_sparse (heap ex_sh_after0 3)"
  "vals (heap ex_sh_after0 (p_data ex_sh_after0 0)) = [2 - 1 / 10 * (3 / 10)]"
  "state ex_sh_after0 1 = []" "heap ex_sh_after0 (p_data ex_sh_after0 1) = ex_tensor [5]"
  unfolding ex_sh_after0_def prod_eq_iff
  by (simp_all add: sh_eval ex_sh_defs)

lemma ex_ss_after0_facts:
  "ScalableShampoo_param ex_pc ex_ScalableShampoo2 ex_sh_group2 0 ex_sh_world = (Inr (), ex_ss_after0)"
  "p_grad ex_ss_after0 1 = Some 3" "is_sparse (heap ex_ss_after0 3)"
  "vals (heap ex_ss_after0 (p_data ex_ss_after0 0)) = [2 - 1 / 10 * (3 * (3 / (3 + 1 / 10 ^ 16)))]"
  "state ex_ss_after0 1 = []" "heap ex_ss_after0 (p_data ex_ss_after0 1) = ex_tensor [5]"
  unfolding ex_ss_after0_def prod_eq_iff
  by (simp_all add: ss_eval ex_sh_defs)


theorem sparse_gradient_raises_at_first_encounter_witness:
  "Shampoo_step ex_cps ex_Shampoo2 None ex_sh_world = (Inl NoSparseGradientError, ex_sh_after0) \<and>
   vals (heap ex_sh_after0 (p_data ex_sh_after0 0)) = [2 - 1 / 10 * (3 / 10)] \<and>
   state ex_sh_after0 1 = [] \<and> heap ex_sh_after0 (p_data ex_sh_after0 1) = ex_tensor [5] \<and>
   ScalableShampoo_step ex_pc ex_ScalableShampoo2 None ex_sh_world
     = (Inl NoSparseGradientError, ex_ss_after0) \<and>
   vals (heap ex_ss_after0 (p_data ex_ss_after0 0)) = [2 - 1 / 10 * (3 * (3 / (3 + 1 / 10 ^ 16)))] \<and>
   state ex_ss_after0 1 = [] \<and> heap ex_ss_after0 (p_data ex_ss_after0 1) = ex_tensor [5]"
proof -
  let ?grp = "ex_sh_group2"
  have cl: "call_closure None ex_sh_world = (Inr None, ex_sh_world)"
    by (simp add: call_closure_def)
  have ps: "params ?grp = [0] @ 1 # []" by (simp add: ex_sh_group2_def)
  have g1: "param_groups ex_Shampoo2 = [] @ ?grp # []" by (simp add: ex_Shampoo2_def)
  have g2: "param_groups ex_ScalableShampoo2 = [] @ ?grp # []"
    by (simp add: ex_ScalableShampoo2_def)
  have l1: "for_each (Shampoo_param ex_cps ex_Shampoo2 ?grp) [0] ex_sh_world = (Inr (), ex_sh_after0)"
    by (simp add: ex_sh_after0_facts(1))
  have l2: "for_each (ScalableShampoo_param ex_pc ex_ScalableShampoo2 ?grp) [0] ex_sh_world
      = (Inr (), ex_ss_after0)"
    by (simp add: ex_ss_after0_facts(1))
  have "Shampoo_step ex_cps ex_Shampoo2 None ex_sh_world = (Inl NoSparseGradientError, ex_sh_after0)"
    using sparse_gradient_raises_at_first_encounter[OF cl ps ex_sh_after0_facts(2,3),
        of ex_cps ex_Shampoo2 ex_pc ex_ScalableShampoo2 "[]" "[]" ex_sh_world] g1 l1
    by simp
  moreover have "ScalableShampoo_step ex_pc ex_ScalableShampoo2 None ex_sh_world
      = (Inl NoSparseGradientError, ex_ss_after0)"
    using sparse_gradient_raises_at_first_encounter[OF cl ps ex_ss_after0_facts(2,3),
        of ex_cps ex_Shampoo2 ex_pc ex_ScalableShampoo2 "[]" "[]" ex_sh_world] g2 l2
    by simp
  ultimately show ?thesis
    using ex_sh_after0_facts(4,5,6) ex_ss_after0_facts(4,5,6) by simp
qed

lemma ex_sh_step_returns:
  "fst (Shampoo_step ex_cps ex_Shampoo (Some ex_sh_closure) ex_sh_world) \<noteq> Inl e"
  by (simp add: Shampoo_step_def call_closure_def ex_sh_closure_def sh_eval ex_sh_defs)

lemma ex_ss_step_returns:
  "fst (ScalableShampoo_step ex_pc ex_ScalableShampoo (Some ex_sh_closure) ex_sh_world) \<noteq> Inl e"
  by (simp add: ScalableShampoo_step_def call_closure_def ex_sh_closure_def ss_eval ex_sh_defs)

lemma ex_SAM_step_returns:
  "fst (SAM_step ex_SAM (Some ex_closure) ex_world) = Inr None"
  unfolding SAM_step_def first_step_def ex_grad_norm
  by (simp add: ex_closure_def second_step_def restore_params_def second_step_param_def
      first_step_param_def get_tensor_def set_state_def new_tensor_def add_inplace_def Let_def
      ex_SAM_def ex_sgd_step_def ex_world_def ex_group_def ex_tensor_def)

theorem step_returns_closure_loss_witness:
  "fst (Shampoo_step ex_cps ex_Shampoo (Some ex_sh_closure) ex_sh_world) = Inr (Some 7) \<and>
   fst (ScalableShampoo_step ex_pc ex_ScalableShampoo (Some ex_sh_closure) ex_sh_world)
     = Inr (Some 7) \<and>
   fst (SAM_step ex_SAM (Some ex_closure) ex_world) = Inr None"
proof -
  obtain r1 w1 where 1: "Shampoo_step ex_cps ex_Shampoo (Some ex_sh_closure) ex_sh_world = (Inr r1, w1)"
    using ex_sh_step_returns
    by (metis prod.collapse sum.exhaust_sel sum.collapse(1))
  obtain r2 w2 where 2: "ScalableShampoo_step ex_pc ex_ScalableShampoo (Some ex_sh_closure) ex_sh_world
      = (Inr r2, w2)"
    using ex_ss_step_returns
    by (metis prod.collapse sum.exhaust_sel sum.collapse(1))
  obtain w3 where 3: "SAM_step ex_SAM (Some ex_closure) ex_world = (Inr None, w3)"
    using ex_SAM_step_returns by (metis prod.collapse)
  have l: "closure_loss (Some ex_sh_closure) ex_sh_world = Some 7"
    by (simp add: closure_loss_def ex_sh_closure_def)
  have "r1 = Some 7 \<and> r2 = Some 7"
    using step_returns_closure_loss[where cps = ex_cps and sh = ex_Shampoo
        and closure = "Some ex_sh_closure" and w = ex_sh_world and ?r1.0 = r1 and ?w1.0 = w1
        and pc = ex_pc and ss = ex_ScalableShampoo and closure' = "Some ex_sh_closure"
        and w' = ex_sh_world and ?r2.0 = r2 and ?w2.0 = w2
        and sam = ex_SAM and c = ex_closure and w'' = ex_world and ?r3.0 = None and ?w3.0 = w3]
      1 2 3 l
    by simp
  then show ?thesis using 1 2 3 by simp
qed

text \<open>
  Claim C5 as stated fails for SAM: on the sample input \<open>SAM.step\<close> returns None, and
  the closure it ran evaluated to the loss 7.
\<close>

theorem SAM_step_discards_closure_loss:
  "fst (SAM_step ex_SAM (Some ex_closure) ex_world) = Inr None \<and>
   closure_loss (Some ex_closure) (snd (first_step ex_SAM True ex_world)) = Some 7"
  using ex_SAM_step_returns by (simp add: closure_loss_def ex_closure_def)

subsection \<open>Shampoo: the gradient tensor and the state\<close>

lemma kept_refl: "kept p g w w" by (simp add: kept_def)

lemma kept_trans: "kept p g w w1 \<Longrightarrow> kept p g w1 w2 \<Longrightarrow> kept p g w w2"
  by (auto simp: kept_def)

lemma stats_apart_lookup:
  "stats_apart p g w \<Longrightarrow> map_of (state w p) k = Some (TensorV a) \<Longrightarrow>
   k = PRE_COND i \<or> k = INV_PRE_COND i \<Longrightarrow> a \<noteq> g"
  by (auto simp: stats_apart_def list_all_iff dest!: map_of_SomeD)

lemma stats_apart_get_tensor:
  "stats_apart p g w \<Longrightarrow> get_tensor p k w = Inr a \<Longrightarrow>
   k = PRE_COND i \<or> k = INV_PRE_COND i \<Longrightarrow> a \<noteq> g"
  by (auto simp: get_tensor_def split: option.splits val.splits dest: stats_apart_lookup)

lemma set_update_subset: "set (AList.update k v al) \<subseteq> insert (k, v) (set al)"
  by (induction al) auto

lemma stats_apart_set_state:
  assumes "stats_apart p g w" and "v \<noteq> TensorV g"
  shows "stats_apart p g (set_state p k v w)"
proof -
  let ?P = "\<lambda>(k, v). case k of
                  PRE_COND i \<Rightarrow> (case v of TensorV a \<Rightarrow> a \<noteq> g | _ \<Rightarrow> True)
                | INV_PRE_COND i \<Rightarrow> (case v of TensorV a \<Rightarrow> a \<noteq> g | _ \<Rightarrow> True)
                | _ \<Rightarrow> True"
  have 1: "?P (k, v)" using assms(2) by (auto split: key.splits val.splits)
  have 2: "\<forall>x \<in> set (state w p). ?P x"
    using assms(1) by (simp add: stats_apart_def list_all_iff)
  have "\<forall>x \<in> set (AList.update k v (state w p)). ?P x"
  proof
    fix x assume "x \<in> set (AList.update k v (state w p))"
    then have "x = (k, v) \<or> x \<in> set (state w p)"
      using set_update_subset[of k v "state w p"] by blast
    then show "?P x" using 1 2 by blast
  qed
  then show ?thesis by (simp add: stats_apart_def set_state_def list_all_iff)
qed

lemma stats_apart_set_other:
  assumes "stats_apart p g w" and "k = STEP \<or> k = MOMENTUM_BUFFER"
  shows "stats_apart p g (set_state p k v w)"
proof -
  let ?P = "\<lambda>(k, v). case k of
                  PRE_COND i \<Rightarrow> (case v of TensorV a \<Rightarrow> a \<noteq> g | _ \<Rightarrow> True)
                | INV_PRE_COND i \<Rightarrow> (case v of TensorV a \<Rightarrow> a \<noteq> g | _ \<Rightarrow> True)
                | _ \<Rightarrow> True"
  have 1: "?P (k, v)" using assms(2) by auto
  have 2: "\<forall>x \<in> set (state w p). ?P x"
    using assms(1) by (simp add: stats_apart_def list_all_iff)
  have "\<forall>x \<in> set (AList.update k v (state w p)). ?P x"
  proof
    fix x assume "x \<in> set (AList.update k v (state w p))"
    then have "x = (k, v) \<or> x \<in> set (state w p)"
      using set_update_subset[of k v "state w p"] by blast
    then show "?P x" using 1 2 by blast
  qed
  then show ?thesis by (simp add: stats_apart_def set_state_def list_all_iff)
qed

lemma stats_apart_mono:
  assumes "stats_apart p g w" "state w' p = state w p"
  shows "stats_apart p g w'"
  using assms by (simp add: stats_apart_def)

lemma init_dim_frame:
  fixes w :: "('pc, 'z) optimizer_scheme" and A B i
  assumes "g < next_addr w" "p_data w p < next_addr w" "stats_apart p g w"
  defines "w' \<equiv> (let (pre_cond, wa) = new_tensor A w;
                     wb = set_state p (PRE_COND i) (TensorV pre_cond) wa;
                     (inv_pre_cond, wc) = new_tensor B wb
                 in set_state p (INV_PRE_COND i) (TensorV inv_pre_cond) wc)"
  shows "kept p g w w' \<and> stats_apart p g w' \<and> (\<forall>a < next_addr w. heap w' a = heap w a) \<and>
         map_of (state w' p) MOMENTUM_BUFFER = map_of (state w p) MOMENTUM_BUFFER"
proof -
  let ?wa = "snd (new_tensor A w)"
  let ?wb = "set_state p (PRE_COND i) (TensorV (next_addr w)) ?wa"
  let ?wc = "snd (new_tensor B ?wb)"
  have w': "w' = set_state p (INV_PRE_COND i) (TensorV (Suc (next_addr w))) ?wc"
    by (simp add: w'_def new_tensor_def set_state_def Let_def)
  have sa: "stats_apart p g ?wa"
    by (rule stats_apart_mono[OF assms(3)]) (simp add: new_tensor_def)
  have sb: "stats_apart p g ?wb"
    by (rule stats_apart_set_state[OF sa]) (use assms(1) in auto)
  have sc: "stats_apart p g ?wc"
    by (rule stats_apart_mono[OF sb]) (simp add: new_tensor_def set_state_def)
  have sd: "stats_apart p g w'"
    unfolding w'
    by (rule stats_apart_set_state[OF sc]) (use assms(1) in auto)
  have k: "kept p g w w'" "\<forall>a < next_addr w. heap w' a = heap w a"
    "map_of (state w' p) MOMENTUM_BUFFER = map_of (state w p) MOMENTUM_BUFFER"
    using assms(1,2)
    by (auto simp: w' kept_def new_tensor_def set_state_def update_conv')
  show ?thesis using k sd by simp
qed

lemma init_dims_frame:
  fixes w :: "('pc, 'z) optimizer_scheme" and A B ds
  assumes "g < next_addr w" "p_data w p < next_addr w" "stats_apart p g w"
  defines "w' \<equiv> fold (\<lambda>(dim_id, dm) w.
              (let (pre_cond, wa) = new_tensor (A dm) w;
                   wb = set_state p (PRE_COND dim_id) (TensorV pre_cond) wa;
                   (inv_pre_cond, wc) = new_tensor (B dm) wb
               in set_state p (INV_PRE_COND dim_id) (TensorV inv_pre_cond) wc)) ds w"
  shows "kept p g w w' \<and> stats_apart p g w' \<and> (\<forall>a < next_addr w. heap w' a = heap w a) \<and>
         map_of (state w' p) MOMENTUM_BUFFER = map_of (state w p) MOMENTUM_BUFFER"
  using assms(1,2,3) unfolding w'_def
proof (induction ds arbitrary: w)
  case Nil
  then show ?case by (simp add: kept_refl)
next
  case (Cons d ds)
  obtain i dm where d: "d = (i, dm)" by (cases d)
  let ?w1 = "(let (pre_cond, wa) = new_tensor (A dm) w;
                   wb = set_state p (PRE_COND i) (TensorV pre_cond) wa;
                   (inv_pre_cond, wc) = new_tensor (B dm) wb
               in set_state p (INV_PRE_COND i) (TensorV inv_pre_cond) wc)"
  have 1: "kept p g w ?w1 \<and> stats_apart p g ?w1 \<and> (\<forall>a < next_addr w. heap ?w1 a = heap w a) \<and>
         map_of (state ?w1 p) MOMENTUM_BUFFER = map_of (state w p) MOMENTUM_BUFFER"
    by (rule init_dim_frame[OF Cons.prems])
  then have k1: "kept p g w ?w1" and pre: "g < next_addr ?w1" "p_data ?w1 p < next_addr ?w1" "stats_apart p g ?w1"
    using Cons.prems(1,2) by (auto simp: kept_def)
  note IH = Cons.IH[OF pre]
  have le: "next_addr w \<le> next_addr ?w1" using k1 by (simp add: kept_def)
  show ?case
    unfolding d fold_Cons comp_def prod.case
    using IH 1 le kept_trans[OF k1] by (auto simp del: Let_def split_paired_All)
qed

lemma Shampoo_init_state_frame:
  fixes w :: "('pc, 'z) optimizer_scheme" and self grp
  assumes "g < next_addr w" "p_data w p < next_addr w" "stats_apart p g w"
  defines "w1 \<equiv> Shampoo_init_state self grp p g w"
  shows "kept p g w w1" "stats_apart p g w1" "g < next_addr w1" "p_data w1 p < next_addr w1"
    "momentum grp > 0 \<Longrightarrow> get_tensor p MOMENTUM_BUFFER w1 = Inr b \<Longrightarrow>
       heap (mul_inplace g (1 - momentum grp) w1) b = momentum_buffer_value grp p g w"
proof -
  have all: "kept p g w w1 \<and> stats_apart p g w1 \<and>
    (momentum grp > 0 \<longrightarrow> get_tensor p MOMENTUM_BUFFER w1 = Inr b \<longrightarrow>
       heap (mul_inplace g (1 - momentum grp) w1) b = momentum_buffer_value grp p g w)"
  proof (cases "length (state w p) = 0")
    case False
    then have "w1 = w" by (simp add: w1_def Shampoo_init_state_def)
    then show ?thesis using assms(3) False
      by (auto simp: kept_refl momentum_buffer_value_def mul_inplace_def)
  next
    case True
    let ?w1 = "set_state p STEP (IntV 0) w"
    let ?w2 = "(if momentum grp > 0 then
                     (let (buf, w') = new_tensor (heap ?w1 g) ?w1
                      in set_state p MOMENTUM_BUFFER (TensorV buf) w')
                   else ?w1)"
    have s1: "stats_apart p g ?w1" by (rule stats_apart_set_state[OF assms(3)]) simp
    have k2: "kept p g w ?w2" using assms(1,2)
      by (auto simp: kept_def new_tensor_def set_state_def)
    have s2: "stats_apart p g ?w2"
    proof (cases "momentum grp > 0")
      case False
      then show ?thesis using s1 by simp
    next
      case True
      have "stats_apart p g (snd (new_tensor (heap ?w1 g) ?w1))"
        by (rule stats_apart_mono[OF s1]) (simp add: new_tensor_def)
      then have "stats_apart p g (set_state p MOMENTUM_BUFFER (TensorV (next_addr w))
          (snd (new_tensor (heap ?w1 g) ?w1)))"
        by (rule stats_apart_set_state) (use assms(1) in auto)
      then show ?thesis using True by (simp add: new_tensor_def set_state_def Let_def)
    qed
    have b2: "momentum grp > 0 \<Longrightarrow> map_of (state ?w2 p) MOMENTUM_BUFFER = Some (TensorV (next_addr w))
        \<and> heap ?w2 (next_addr w) = heap w g \<and> next_addr w < next_addr ?w2"
      by (simp add: new_tensor_def set_state_def Let_def update_conv')
    have pre: "g < next_addr ?w2" "p_data ?w2 p < next_addr ?w2"
      using k2 assms(1,2) by (auto simp: kept_def)
    have w1: "w1 = fold (\<lambda>(dim_id, dm) w.
              (let (pre_cond, wa) = new_tensor (t_scale (matrix_eps self) (eye dm)) w;
                   wb = set_state p (PRE_COND dim_id) (TensorV pre_cond) wa;
                   (inv_pre_cond, wc) = new_tensor (zeros dm dm) wb
               in set_state p (INV_PRE_COND dim_id) (TensorV inv_pre_cond) wc))
            (enumerate 0 (shape (heap ?w2 g))) ?w2"
      using True unfolding w1_def Shampoo_init_state_def by (simp add: Let_def)
    have f: "kept p g ?w2 w1 \<and> stats_apart p g w1 \<and> (\<forall>a < next_addr ?w2. heap w1 a = heap ?w2 a) \<and>
         map_of (state w1 p) MOMENTUM_BUFFER = map_of (state ?w2 p) MOMENTUM_BUFFER"
      unfolding w1
      by (rule init_dims_frame[OF pre s2, of "\<lambda>dm. t_scale (matrix_eps self) (eye dm)" "\<lambda>dm. zeros dm dm"])
    have "heap (mul_inplace g (1 - momentum grp) w1) b = momentum_buffer_value grp p g w"
      if "momentum grp > 0" "get_tensor p MOMENTUM_BUFFER w1 = Inr b"
    proof -
      have "map_of (state w1 p) MOMENTUM_BUFFER = Some (TensorV (next_addr w))"
        using f b2[OF that(1)] by simp
      then have "b = next_addr w" using that(2) by (simp add: get_tensor_def)
      then show ?thesis using f b2[OF that(1)] True assms(1)
        by (simp add: momentum_buffer_value_def mul_inplace_def)
    qed
    then show ?thesis using kept_trans[OF k2] f by blast
  qed
  then show "kept p g w w1" "stats_apart p g w1"
    "momentum grp > 0 \<Longrightarrow> get_tensor p MOMENTUM_BUFFER w1 = Inr b \<Longrightarrow>
       heap (mul_inplace g (1 - momentum grp) w1) b = momentum_buffer_value grp p g w"
    by blast+
  then show "g < next_addr w1" "p_data w1 p < next_addr w1"
    using assms(1,2) by (auto simp: kept_def)
qed

lemma Shampoo_dims_frame:
  assumes "stats_apart p g w"
    and "Shampoo_dims cps self p order osz ds grad w = (r, w')"
  shows "same_but_heap g w w'"
  using assms
proof (induction ds arbitrary: grad w)
  case Nil
  then show ?case by (simp add: same_but_heap_def)
next
  case (Cons d ds)
  obtain i dm where d: "d = (i, dm)" by (cases d)
  show ?case
  proof (cases "get_tensor p (PRE_COND i) w")
    case (Inl e)
    then show ?thesis using Cons.prems by (simp add: d same_but_heap_def)
  next
    case pc: (Inr pre_cond)
    show ?thesis
    proof (cases "get_tensor p (INV_PRE_COND i) w")
      case (Inl e)
      then show ?thesis using Cons.prems pc by (simp add: d same_but_heap_def)
    next
      case ipc: (Inr inv_pre_cond)
      have a1: "pre_cond \<noteq> g"
        using stats_apart_get_tensor[OF Cons.prems(1) pc] by auto
      have a2: "inv_pre_cond \<noteq> g"
        using stats_apart_get_tensor[OF Cons.prems(1) ipc] by auto
      show ?thesis
      proof (cases "dm = 0")
        case True
        then show ?thesis using Cons.prems pc ipc by (simp add: d same_but_heap_def Let_def)
      next
        case dm: False
        let ?g1 = "transpose_contiguous i grad"
        let ?g2 = "view2 dm ?g1"
        let ?gt = "transpose_contiguous 1 ?g2"
        let ?w1 = "add_inplace pre_cond (matmul ?g2 ?gt) 1 w"
        have f1: "same_but_heap g w ?w1"
          using a1 by (simp add: same_but_heap_def add_inplace_def)
        show ?thesis
        proof (cases "get_int p STEP ?w1")
          case (Inl e)
          then show ?thesis using Cons.prems pc ipc dm f1 by (simp add: d Let_def)
        next
          case n: (Inr n)
          let ?w2 = "(if n mod preconditioning_compute_steps self = 0
                      then copy_inplace inv_pre_cond (cps (heap ?w1 pre_cond) (- 1 / real order)) ?w1
                      else ?w1)"
          let ?g3 = "(if i = order - 1
                       then view osz (matmul ?gt (heap ?w2 inv_pre_cond))
                       else view (shape ?g1) (matmul (heap ?w2 inv_pre_cond) ?g2))"
          have f2: "same_but_heap g w ?w2"
            using a1 a2 by (simp add: same_but_heap_def add_inplace_def copy_inplace_def)
          have sep2: "stats_apart p g ?w2"
            by (rule stats_apart_mono[OF Cons.prems(1)]) (use f2 in \<open>auto simp: same_but_heap_def\<close>)
          have rec: "Shampoo_dims cps self p order osz ds ?g3 ?w2 = (r, w')"
            using Cons.prems(2) pc ipc dm n
            by (simp add: d Let_def split del: if_split cong: if_cong)
          have "same_but_heap g ?w2 w'"
            by (rule Cons.IH[OF sep2 rec])
          then show ?thesis using f2 by (auto simp: same_but_heap_def)
        qed
      qed
    qed
  qed
qed

text \<open>
  Claim C9, amended. \<open>Shampoo.step\<close> writes the momentum blend and the weight decay into
  the tensor \<open>p.grad\<close> itself. Let \<open>p.grad\<close> and \<open>p\<close> be two tensors of the store, and
  \<open>p.grad\<close> none of the matrices \<open>pre_cond_i\<close> and \<open>inv_pre_cond_i\<close> of the state. When the body of the loop
  returns for the parameter, \<open>p.grad\<close> is still that tensor and holds
  \<open>(1 - momentum) * g + momentum * b\<close> if \<open>momentum > 0\<close>, plus \<open>weight_decay * p\<close> if
  \<open>weight_decay > 0\<close>, for the gradient \<open>g\<close> and the parameter value \<open>p\<close> before the
  step, \<open>b\<close> being the value of \<open>state['momentum_buffer']\<close> that line 99 reads: \<open>g\<close> where
  the state is new (the buffer is a clone), \<open>(1 - momentum) * g\<close> where the buffer is the
  tensor \<open>p.grad\<close> itself (line 127 stores \<open>p.grad\<close> as the buffer when the gradient has
  no dimension), and the value the buffer had before the step otherwise. Whether the
  result differs from \<open>g\<close> depends on those values. The step keeps the condition on the
  matrices, which holds of a new state.
\<close>

theorem Shampoo_step_blends_grad_in_place:
  fixes w :: "('pc, 'z) optimizer_scheme"
  assumes g: "p_grad w p = Some g" and lt: "g < next_addr w" "p_data w p < next_addr w"
    and ne: "g \<noteq> p_data w p" and sep: "stats_apart p g w"
    and run: "Shampoo_param cps self grp p w = (Inr (), w')"
  shows "p_grad w' p = Some g \<and>
         heap w' g =
           blended_grad grp (heap w g) (momentum_buffer_value grp p g w) (heap w (p_data w p)) \<and>
         stats_apart p g w'"
proof -
  let ?d = "p_data w p"
  let ?w1 = "Shampoo_init_state self grp p g w"
  note i = Shampoo_init_state_frame[OF lt sep, where self = self and grp = grp]
  have k1: "p_grad ?w1 = p_grad w" "p_data ?w1 = p_data w" "heap ?w1 g = heap w g"
    "heap ?w1 ?d = heap w ?d"
    using i(1) by (auto simp: kept_def)
  have dense: "\<not> is_sparse (heap w g)" using run g by (auto simp: Shampoo_param_def split: if_splits)
  obtain r2 w2 where m0: "Shampoo_momentum grp p g ?w1 = (r2, w2)" by fastforce
  have "r2 = Inr ()" using run g dense m0 by (cases r2) (simp_all add: Shampoo_param_def)
  then have m: "Shampoo_momentum grp p g ?w1 = (Inr (), w2)" using m0 by simp
  let ?g1 = "(if momentum grp > 0
              then t_add (t_scale (1 - momentum grp) (heap w g)) (momentum grp)
                     (momentum_buffer_value grp p g w)
              else heap w g)"
  have f2: "p_grad w2 = p_grad w \<and> p_data w2 = p_data w \<and> next_addr w2 = next_addr ?w1 \<and>
      state w2 = state ?w1 \<and> heap w2 ?d = heap w ?d \<and> heap w2 g = ?g1"
  proof (cases "momentum grp > 0")
    case False
    then show ?thesis using m k1 by (auto simp: Shampoo_momentum_def)
  next
    case True
    let ?wm = "mul_inplace g (1 - momentum grp) ?w1"
    have st: "state ?wm = state ?w1" by (simp add: mul_inplace_def)
    obtain b where b: "get_tensor p MOMENTUM_BUFFER ?w1 = Inr b"
      and w2: "w2 = add_inplace g (heap ?wm b) (momentum grp) ?wm"
      using m True st
      by (auto simp: Shampoo_momentum_def Let_def get_tensor_def split: sum.splits)
    have hb: "heap ?wm b = momentum_buffer_value grp p g w" by (rule i(5)[OF True b])
    have hg: "heap ?wm g = t_scale (1 - momentum grp) (heap w g)"
      using k1 by (simp add: mul_inplace_def)
    have hd: "heap ?wm ?d = heap w ?d" "p_grad ?wm = p_grad w" "p_data ?wm = p_data w"
      "next_addr ?wm = next_addr ?w1"
      using k1 ne by (simp_all add: mul_inplace_def)
    show ?thesis
      unfolding w2 hb using True hg hd st ne
      by (simp add: add_inplace_def)
  qed
  let ?w3 = "Shampoo_weight_decay grp p g w2"
  let ?G = "blended_grad grp (heap w g) (momentum_buffer_value grp p g w) (heap w ?d)"
  have f3: "p_grad ?w3 = p_grad w \<and> p_data ?w3 = p_data w \<and> next_addr ?w3 = next_addr ?w1 \<and>
      state ?w3 = state ?w1 \<and> heap ?w3 ?d = heap w ?d \<and> heap ?w3 g = ?G"
    using f2 ne by (auto simp: Shampoo_weight_decay_def add_inplace_def blended_grad_def Let_def)
  have sep3: "stats_apart p g ?w3"
    by (rule stats_apart_mono[OF i(2)]) (use f3 in auto)
  let ?order = "length (shape (heap ?w3 g))"
  obtain r4 w4 where d0: "Shampoo_dims cps self p ?order (shape (heap ?w3 g))
      (enumerate 0 (shape (heap ?w3 g))) (heap ?w3 g) ?w3 = (r4, w4)" by fastforce
  have run4: "(case r4 of Inl e \<Rightarrow> (Inl e, w4) | Inr gr \<Rightarrow> Shampoo_commit grp p g ?order gr w4)
      = (Inr (), w')"
    using run g dense m d0 by (simp add: Shampoo_param_def Let_def split: sum.splits)
  then obtain gr where r4: "r4 = Inr gr" and c: "Shampoo_commit grp p g ?order gr w4 = (Inr (), w')"
    by (cases r4) auto
  have f4: "same_but_heap g ?w3 w4"
    by (rule Shampoo_dims_frame[OF sep3 d0])
  have g4: "heap w4 g = ?G" "p_grad w4 = p_grad w" "p_data w4 = p_data w" "g < next_addr w4"
    using f4 f3 i(3) by (auto simp: same_but_heap_def)
  obtain n where n: "get_int p STEP w4 = Inr n"
    using c by (auto simp: Shampoo_commit_def split: sum.splits)
  let ?w5 = "set_state p STEP (IntV (n + 1)) w4"
  have sep4: "stats_apart p g w4"
    by (rule stats_apart_mono[OF sep3]) (use f4 in \<open>simp add: same_but_heap_def\<close>)
  have sep5: "stats_apart p g (set_state p MOMENTUM_BUFFER (TensorV b) ?w5)" for b
    by (intro stats_apart_set_other[OF _ disjI2] stats_apart_set_other[OF _ disjI1] sep4) simp_all
  show ?thesis
  proof (cases "?order = 0")
    case True
    then have w': "w' = add_inplace (p_data w4 p) (heap w4 g) (- lr grp)
        (set_state p MOMENTUM_BUFFER (TensorV g) ?w5)"
      using c n by (simp add: Shampoo_commit_def Let_def set_state_def)
    have "stats_apart p g w'"
      by (rule stats_apart_mono[OF sep5[of g]]) (simp add: w' add_inplace_def)
    then show ?thesis using w' g4 g ne by (simp add: add_inplace_def set_state_def)
  next
    case False
    then have w': "w' = add_inplace (p_data w4 p) gr (- lr grp)
        (set_state p MOMENTUM_BUFFER (TensorV (next_addr w4)) (snd (new_tensor gr ?w5)))"
      using c n by (simp add: Shampoo_commit_def Let_def set_state_def new_tensor_def)
    have "stats_apart p g w'"
      by (rule stats_apart_mono[OF sep5[of "next_addr w4"]])
         (simp add: w' add_inplace_def set_state_def new_tensor_def)
    then show ?thesis using w' g4 g ne by (simp add: add_inplace_def set_state_def new_tensor_def)
  qed
qed

lemma ex_sh_param_ok:
  "Shampoo_param ex_cps ex_Shampoo ex_sh_group 0 ex_sh_world =
     (Inr (), snd (Shampoo_param ex_cps ex_Shampoo ex_sh_group 0 ex_sh_world))"
  unfolding prod_eq_iff by (simp add: sh_eval ex_sh_defs)

lemma ex_sh_step:
  "Shampoo_step ex_cps ex_Shampoo None ex_sh_world =
     (Inr None, snd (Shampoo_param ex_cps ex_Shampoo ex_sh_group 0 ex_sh_world))"
proof -
  have "param_groups ex_Shampoo = [ex_sh_group]" "params ex_sh_group = [0]"
    by (simp_all add: ex_Shampoo_def ex_sh_group_def)
  moreover obtain w1 where "Shampoo_param ex_cps ex_Shampoo ex_sh_group 0 ex_sh_world = (Inr (), w1)"
    using ex_sh_param_ok by blast
  ultimately show ?thesis
    by (simp add: Shampoo_step_def call_closure_def)
qed

lemma ex_sh_world1_eq:
  "ex_sh_world1 = snd (Shampoo_param ex_cps ex_Shampoo ex_sh_group 0 ex_sh_world)"
  by (simp add: ex_sh_world1_def ex_sh_step)

lemma ex_sh_world1_fields:
  "state ex_sh_world1 0 = [(STEP, IntV 1), (MOMENTUM_BUFFER, TensorV 7), (PRE_COND 0, TensorV 5),
      (INV_PRE_COND 0, TensorV 6)]"
  "p_grad ex_sh_world1 0 = Some 1" "p_data ex_sh_world1 0 = 0" "next_addr ex_sh_world1 = 8"
  "heap ex_sh_world1 1 = ex_tensor [3]" "vals (heap ex_sh_world1 7) = [3 / 10]"
  "vals (heap ex_sh_world1 5) = [10]" "vals (heap ex_sh_world1 6) = [1 / 10]"
  "vals (heap ex_sh_world1 0) = [2 - 1 / 10 * (3 / 10)]"
  unfolding ex_sh_world1_eq
  by (simp_all add: sh_eval ex_sh_defs)

text \<open>
  Claim C9 as stated fails on a first step: with momentum \<open>1/2\<close> and no weight decay the
  buffer is a clone of the gradient, and the gradient stored after the step equals the
  one supplied.
\<close>

theorem Shampoo_first_step_keeps_grad:
  "0 < momentum ex_sh_group \<and>
   Shampoo_step ex_cps ex_Shampoo None ex_sh_world = (Inr None, ex_sh_world1) \<and>
   p_grad ex_sh_world 0 = Some 1 \<and> p_grad ex_sh_world1 0 = Some 1 \<and>
   heap ex_sh_world1 1 = heap ex_sh_world 1"
  using ex_sh_step ex_sh_world1_fields(2,5)
  by (simp add: ex_sh_world1_eq ex_sh_group_def ex_sh_world_def)

lemma ex_sh_second_ok:
  "Shampoo_param ex_cps ex_Shampoo ex_sh_group 0 ex_sh_world1 =
     (Inr (), snd (Shampoo_param ex_cps ex_Shampoo ex_sh_group 0 ex_sh_world1))"
  unfolding prod_eq_iff ex_sh_world1_eq by (simp add: sh_eval ex_sh_defs)

lemma ex_sh_scalar_world1_eq:
  "ex_sh_scalar_world1 = snd (Shampoo_param ex_cps ex_Shampoo ex_sh_group 0 ex_sh_scalar_world)"
proof -
  have "param_groups ex_Shampoo = [ex_sh_group]" "params ex_sh_group = [0]"
    by (simp_all add: ex_Shampoo_def ex_sh_group_def)
  moreover have "fst (Shampoo_param ex_cps ex_Shampoo ex_sh_group 0 ex_sh_scalar_world) = Inr ()"
    by (simp add: sh_eval ex_sh_defs ex_sh_scalar_world_def ex_scalar_def)
  ultimately show ?thesis
    unfolding ex_sh_scalar_world1_def Shampoo_step_def call_closure_def
    by (cases "Shampoo_param ex_cps ex_Shampoo ex_sh_group 0 ex_sh_scalar_world") simp
qed

lemma ex_sh_scalar_world1_fields:
  "state ex_sh_scalar_world1 0 = [(STEP, IntV 1), (MOMENTUM_BUFFER, TensorV 1)]"
  "p_grad ex_sh_scalar_world1 0 = Some 1" "p_data ex_sh_scalar_world1 0 = 0"
  "next_addr ex_sh_scalar_world1 = 3"
  "heap ex_sh_scalar_world1 1 = ex_scalar 3"
  "vals (heap ex_sh_scalar_world1 0) = [2 - 1 / 10 * 3]"
  unfolding ex_sh_scalar_world1_eq
  by (simp_all add: sh_eval ex_sh_defs ex_sh_scalar_world_def ex_scalar_def)

lemma ex_sh_scalar_second_ok:
  "Shampoo_param ex_cps ex_Shampoo ex_sh_group 0 ex_sh_scalar_world1 =
     (Inr (), snd (Shampoo_param ex_cps ex_Shampoo ex_sh_group 0 ex_sh_scalar_world1))"
  unfolding prod_eq_iff ex_sh_scalar_world1_eq
  by (simp add: sh_eval ex_sh_defs ex_sh_scalar_world_def ex_scalar_def)

theorem Shampoo_step_blends_grad_in_place_witness:
  "vals (heap (snd (Shampoo_param ex_cps ex_Shampoo ex_sh_group 0 ex_sh_world1)) 1)
     = [3 * (1 - 1 / 2) + 1 / 2 * (3 / 10)] \<and>
   vals (heap ex_sh_world1 1) = [3] \<and>
   map_of (state ex_sh_scalar_world1 0) MOMENTUM_BUFFER = Some (TensorV 1) \<and>
   p_grad ex_sh_scalar_world1 0 = Some 1 \<and>
   vals (heap ex_sh_scalar_world1 1) = [3] \<and>
   vals (heap (snd (Shampoo_param ex_cps ex_Shampoo ex_sh_group 0 ex_sh_scalar_world1)) 1)
     = [9 / 4]"
proof -
  have h: "momentum ex_sh_group = 1 / 2" "weight_decay ex_sh_group = 0"
    by (simp_all add: ex_sh_group_def)
  have sep: "stats_apart 0 1 ex_sh_world1"
    by (simp add: stats_apart_def ex_sh_world1_fields)
  have lt: "1 < next_addr ex_sh_world1" "p_data ex_sh_world1 0 < next_addr ex_sh_world1"
    and ne: "1 \<noteq> p_data ex_sh_world1 0"
    by (simp_all add: ex_sh_world1_fields)
  have b: "momentum_buffer_value ex_sh_group 0 1 ex_sh_world1 = heap ex_sh_world1 7"
    by (simp add: momentum_buffer_value_def get_tensor_def ex_sh_world1_fields)
  from Shampoo_step_blends_grad_in_place[OF ex_sh_world1_fields(2) lt ne sep ex_sh_second_ok]
  have "heap (snd (Shampoo_param ex_cps ex_Shampoo ex_sh_group 0 ex_sh_world1)) 1 =
      blended_grad ex_sh_group (heap ex_sh_world1 1) (heap ex_sh_world1 7)
        (heap ex_sh_world1 (p_data ex_sh_world1 0))"
    unfolding b by simp
  moreover have "heap ex_sh_world1 (Suc 0) = ex_tensor [3]"
    using ex_sh_world1_fields(5) by simp
  ultimately have 1: "vals (heap (snd (Shampoo_param ex_cps ex_Shampoo ex_sh_group 0 ex_sh_world1)) 1)
     = [3 * (1 - 1 / 2) + 1 / 2 * (3 / 10)] \<and> vals (heap ex_sh_world1 1) = [3]"
    by (simp add: blended_grad_def h t_add_def t_scale_def ex_sh_world1_fields ex_tensor_def)
  have sep0: "stats_apart 0 1 ex_sh_scalar_world1"
    by (simp add: stats_apart_def ex_sh_scalar_world1_fields)
  have lt0: "1 < next_addr ex_sh_scalar_world1"
      "p_data ex_sh_scalar_world1 0 < next_addr ex_sh_scalar_world1"
    and ne0: "1 \<noteq> p_data ex_sh_scalar_world1 0"
    by (simp_all add: ex_sh_scalar_world1_fields)
  have s0: "heap ex_sh_scalar_world1 (Suc 0) = ex_scalar 3"
    using ex_sh_scalar_world1_fields(5) by simp
  have b0: "momentum_buffer_value ex_sh_group 0 1 ex_sh_scalar_world1 = ex_scalar (3 / 2)"
    using s0
    by (simp add: momentum_buffer_value_def get_tensor_def ex_sh_scalar_world1_fields h
        t_scale_def ex_scalar_def)
  from Shampoo_step_blends_grad_in_place[OF ex_sh_scalar_world1_fields(2) lt0 ne0 sep0
      ex_sh_scalar_second_ok]
  have "heap (snd (Shampoo_param ex_cps ex_Shampoo ex_sh_group 0 ex_sh_scalar_world1)) 1 =
      blended_grad ex_sh_group (heap ex_sh_scalar_world1 1) (ex_scalar (3 / 2))
        (heap ex_sh_scalar_world1 (p_data ex_sh_scalar_world1 0))"
    unfolding b0 by simp
  then have 2: "vals (heap (snd (Shampoo_param ex_cps ex_Shampoo ex_sh_group 0 ex_sh_scalar_world1)) 1)
     = [9 / 4]"
    using s0 by (simp add: blended_grad_def h t_add_def t_scale_def ex_scalar_def)
  have 3: "map_of (state ex_sh_scalar_world1 0) MOMENTUM_BUFFER = Some (TensorV 1)"
    "p_grad ex_sh_scalar_world1 0 = Some 1" "vals (heap ex_sh_scalar_world1 1) = [3]"
    using s0 by (simp_all add: ex_sh_scalar_world1_fields ex_scalar_def)
  from 1 2 3 show ?thesis by blast
qed

text \<open>
  Claim C4 fails for \<open>Shampoo.reset\<close>: after one step of the sample optimizer and a
  reset, the state of the parameter has the step 0 and still the momentum buffer and the
  two matrices of the step, statistics included (\<open>pre_cond_0\<close> is \<open>[10]\<close>, not
  \<open>matrix_eps * I = [1]\<close>); and a step after a reset of the new optimizer raises KeyError,
  its state being no longer empty and never initialised.
\<close>

theorem Shampoo_reset_keeps_buffers:
  "state (Shampoo_reset ex_Shampoo ex_sh_world1) 0 =
     [(STEP, IntV 0), (MOMENTUM_BUFFER, TensorV 7), (PRE_COND 0, TensorV 5),
      (INV_PRE_COND 0, TensorV 6)] \<and>
   heap (Shampoo_reset ex_Shampoo ex_sh_world1) = heap ex_sh_world1 \<and>
   vals (heap ex_sh_world1 7) = [3 / 10] \<and> vals (heap ex_sh_world1 5) = [10] \<and>
   vals (heap ex_sh_world1 6) = [1 / 10] \<and>
   fst (Shampoo_step ex_cps ex_Shampoo None (Shampoo_reset ex_Shampoo ex_sh_world)) = Inl KeyError"
proof -
  have r: "Shampoo_reset ex_Shampoo w = set_state 0 STEP (IntV 0) w" for w :: "unit optimizer"
    by (simp add: Shampoo_reset_def ex_Shampoo_def ex_sh_group_def)
  have "fst (Shampoo_step ex_cps ex_Shampoo None (Shampoo_reset ex_Shampoo ex_sh_world)) = Inl KeyError"
    unfolding r
    by (simp add: Shampoo_step_def call_closure_def sh_eval ex_sh_defs)
  then show ?thesis
    unfolding r by (simp add: set_state_def ex_sh_world1_fields)
qed

subsection \<open>Scalable Shampoo: grafting and the switch to preconditioning\<close>

lemma torch_norm_nonneg: "0 \<le> torch_norm t"
  by (simp add: torch_norm_def sum_list_sq_nonneg)

lemma sum_list_sq_scale: "(\<Sum>x\<leftarrow>xs. (x * c)\<^sup>2) = c\<^sup>2 * (\<Sum>x\<leftarrow>xs. (x::real)\<^sup>2)"
  by (induction xs) (simp_all add: power_mult_distrib algebra_simps)

lemma torch_norm_scale: "torch_norm (t_scale c t) = \<bar>c\<bar> * torch_norm t"
proof -
  have "(\<Sum>x\<leftarrow>map (\<lambda>x. x * c) (vals t). x\<^sup>2) = c\<^sup>2 * (\<Sum>x\<leftarrow>vals t. x\<^sup>2)"
    using sum_list_sq_scale[of c "vals t"] by (simp add: comp_def)
  then show ?thesis
    by (simp add: torch_norm_def t_scale_def real_sqrt_mult)
qed

text \<open>
  Claim C8. With \<open>graft_type\<close> other than None, lines 331 to 335 of
  \<open>ScalableShampoo.step\<close> multiply every element of the tensor \<open>shampoo_grad\<close> by
  \<open>norm(graft_grad) / (norm(shampoo_grad) + 1e-16)\<close>, the norms taken before, and write
  to no other tensor; the factor is not negative, so the direction is kept, and the norm
  of the result is \<open>norm(graft_grad) * norm(shampoo_grad) / (norm(shampoo_grad) + 1e-16)\<close>.
  With \<open>graft_type\<close> None they do nothing.
\<close>

theorem ScalableShampoo_rescale_factor:
  fixes w :: "'b torch_scheme"
  shows "(graft_type self \<noteq> NONE \<longrightarrow>
            vals (heap (ScalableShampoo_rescale self graft_grad shampoo_grad w) shampoo_grad) =
              map (\<lambda>x. x * (torch_norm (heap w graft_grad) /
                               (torch_norm (heap w shampoo_grad) + 1 / 10 ^ 16)))
                (vals (heap w shampoo_grad)) \<and>
            0 \<le> torch_norm (heap w graft_grad) / (torch_norm (heap w shampoo_grad) + 1 / 10 ^ 16) \<and>
            torch_norm (heap (ScalableShampoo_rescale self graft_grad shampoo_grad w) shampoo_grad) =
              torch_norm (heap w graft_grad) *
                (torch_norm (heap w shampoo_grad) / (torch_norm (heap w shampoo_grad) + 1 / 10 ^ 16)) \<and>
            (\<forall>a. a \<noteq> shampoo_grad \<longrightarrow>
               heap (ScalableShampoo_rescale self graft_grad shampoo_grad w) a = heap w a)) \<and>
         (graft_type self = NONE \<longrightarrow> ScalableShampoo_rescale self graft_grad shampoo_grad w = w)"
proof -
  let ?c = "torch_norm (heap w graft_grad) / (torch_norm (heap w shampoo_grad) + 1 / 10 ^ 16)"
  have c0: "0 \<le> ?c"
    using torch_norm_nonneg[of "heap w graft_grad"]
      torch_norm_nonneg[of "heap w shampoo_grad"] by simp
  have n: "torch_norm (t_scale ?c (heap w shampoo_grad)) =
      torch_norm (heap w graft_grad) *
        (torch_norm (heap w shampoo_grad) / (torch_norm (heap w shampoo_grad) + 1 / 10 ^ 16))"
  proof -
    have "\<bar>?c\<bar> = ?c" using c0 by (rule abs_of_nonneg)
    then show ?thesis unfolding torch_norm_scale by simp
  qed
  have r: "graft_type self \<noteq> NONE \<Longrightarrow> ScalableShampoo_rescale self graft_grad shampoo_grad w
      = w\<lparr>heap := (heap w)(shampoo_grad := t_scale ?c (heap w shampoo_grad))\<rparr>"
    by (simp add: ScalableShampoo_rescale_def mul_inplace_def Let_def)
  show ?thesis
  proof (cases "graft_type self = NONE")
    case True
    then show ?thesis by (simp add: ScalableShampoo_rescale_def)
  next
    case False
    have v: "vals (t_scale ?c (heap w shampoo_grad)) = map (\<lambda>x. x * ?c) (vals (heap w shampoo_grad))"
      by (simp add: t_scale_def)
    show ?thesis
      unfolding r[OF False] using False c0 n v by simp
  qed
qed

lemma Graft_add_statistics_eq:
  "Graft_add_statistics gr G beta2 w =
     w\<lparr>heap := (heap w)(statistics gr :=
          graft_statistics_value gr G beta2 (heap w (statistics gr)))\<rparr>"
  by (cases "graft_kind gr")
     (simp_all add: Graft_add_statistics_def graft_statistics_value_def add_inplace_def
        mul_inplace_def)

lemma Graft_precondition_gradient_eq:
  "Graft_precondition_gradient gr x w =
     (if graft_kind gr \<in> {ADAGRAD, RMSPROP, SQRTN}
      then new_tensor (graft_preconditioned gr (heap w x) (heap w (statistics gr))) w
      else (x, w))"
  "graft_kind gr \<notin> {ADAGRAD, RMSPROP, SQRTN} \<Longrightarrow> graft_preconditioned gr X S = X"
  by (cases "graft_kind gr";
      simp add: Graft_precondition_gradient_def graft_preconditioned_def)+

lemma ScalableShampoo_grads_trace:
  fixes w1 :: "('pc, 'z) optimizer_scheme"
  assumes d: "distinct [p_data w1 p, g, m, statistics gr, graft_momentum gr]"
    and l: "list_all (\<lambda>a. a < next_addr w1) [p_data w1 p, g, m, statistics gr, graft_momentum gr]"
    and r: "ScalableShampoo_grads pc self grp p g c gr step is_pre w1 = ((gg, sg), w6)"
  shows "next_addr w1 \<le> gg \<and> gg < next_addr w6 \<and>
         (if is_pre then next_addr w1 \<le> sg \<and> sg < next_addr w6 \<and> sg \<noteq> gg else sg = g) \<and>
         heap w6 gg = graft_preconditioned gr
            (t_scale (if \<not> decoupled_learning_rate self then lr grp else 1) (heap w1 g))
            (graft_statistics_value gr (heap w1 g) (snd (betas grp)) (heap w1 (statistics gr))) \<and>
         (\<not> is_pre \<longrightarrow> heap w6 sg = heap w1 g) \<and>
         (is_pre \<longrightarrow> (\<exists>pc2. map_of (state w6 p) PRE_CONDITIONER = Some (PreCondV pc2) \<and>
                        heap w6 sg = pc_preconditioned_grad pc pc2 (heap w1 g))) \<and>
         (\<forall>a < next_addr w1. a \<noteq> statistics gr \<longrightarrow> heap w6 a = heap w1 a) \<and>
         p_data w6 = p_data w1 \<and> p_grad w6 = p_grad w1 \<and>
         (\<forall>k. k \<noteq> PRE_CONDITIONER \<longrightarrow> map_of (state w6 p) k = map_of (state w1 p) k)"
proof -
  have gs: "g \<noteq> statistics gr" "g < next_addr w1" "statistics gr < next_addr w1"
    using d l by auto
  show ?thesis
  proof (cases "graft_kind gr \<in> {ADAGRAD, RMSPROP, SQRTN}")
    case True
    show ?thesis
    proof (cases is_pre)
      case pre: True
      from r show ?thesis
        unfolding ScalableShampoo_grads_def Graft_add_statistics_eq Graft_precondition_gradient_eq(1)
        using True pre gs
        by (simp add: Let_def new_tensor_def set_state_def update_conv' split del: if_split
            cong: if_cong) (auto simp: update_conv')
    next
      case pre: False
      from r show ?thesis
        unfolding ScalableShampoo_grads_def Graft_add_statistics_eq Graft_precondition_gradient_eq(1)
        using True pre gs
        by (simp add: Let_def new_tensor_def set_state_def update_conv' split del: if_split
            cong: if_cong) (auto simp: update_conv')
    qed
  next
    case False
    note gp = Graft_precondition_gradient_eq(2)[OF False]
    show ?thesis
    proof (cases is_pre)
      case pre: True
      from r show ?thesis
        unfolding ScalableShampoo_grads_def Graft_add_statistics_eq Graft_precondition_gradient_eq(1)
        using False pre gs
        by (simp add: gp Let_def new_tensor_def set_state_def update_conv' split del: if_split
            cong: if_cong) (auto simp: update_conv')
    next
      case pre: False
      from r show ?thesis
        unfolding ScalableShampoo_grads_def Graft_add_statistics_eq Graft_precondition_gradient_eq(1)
        using False pre gs
        by (simp add: gp Let_def new_tensor_def set_state_def update_conv' split del: if_split
            cong: if_cong) (auto simp: update_conv')
    qed
  qed
qed

lemma rescale_wd_trace:
  fixes w6 :: "('pc, 'z) optimizer_scheme"
  assumes "sg \<noteq> gg" "p_data w6 p \<noteq> sg" "p_data w6 p \<noteq> gg"
  shows "heap (ScalableShampoo_weight_decay self grp p gg sg (ScalableShampoo_rescale self gg sg w6)) sg
           = decayed self grp
               (if graft_type self \<noteq> NONE
                then t_scale (torch_norm (heap w6 gg) / (torch_norm (heap w6 sg) + 1 / 10 ^ 16))
                       (heap w6 sg)
                else heap w6 sg) (heap w6 (p_data w6 p))"
    and "heap (ScalableShampoo_weight_decay self grp p gg sg (ScalableShampoo_rescale self gg sg w6)) gg
           = decayed self grp (heap w6 gg) (heap w6 (p_data w6 p))"
    and "a \<noteq> sg \<Longrightarrow> a \<noteq> gg \<Longrightarrow>
         heap (ScalableShampoo_weight_decay self grp p gg sg (ScalableShampoo_rescale self gg sg w6)) a
           = heap w6 a"
    and "p_data (ScalableShampoo_weight_decay self grp p gg sg (ScalableShampoo_rescale self gg sg w6))
           = p_data w6"
    and "state (ScalableShampoo_weight_decay self grp p gg sg (ScalableShampoo_rescale self gg sg w6))
           = state w6"
    and "p_grad (ScalableShampoo_weight_decay self grp p gg sg (ScalableShampoo_rescale self gg sg w6))
           = p_grad w6"
  using assms
  by (simp_all add: ScalableShampoo_weight_decay_def ScalableShampoo_rescale_def decayed_def
      add_inplace_def mul_inplace_def Let_def)

lemma inplace_fields:
  "heap (mul_inplace a c w) = (heap w)(a := t_scale c (heap w a))"
  "heap (add_inplace a x alpha w) = (heap w)(a := t_add (heap w a) alpha x)"
  "p_data (mul_inplace a c w) = p_data w" "p_data (add_inplace a x alpha w) = p_data w"
  "p_grad (mul_inplace a c w) = p_grad w" "p_grad (add_inplace a x alpha w) = p_grad w"
  "next_addr (mul_inplace a c w) = next_addr w" "next_addr (add_inplace a x alpha w) = next_addr w"
  by (simp_all add: mul_inplace_def add_inplace_def)

lemma inplace_state:
  fixes w :: "('pc, 'z) optimizer_scheme"
  shows "state (mul_inplace a c w) = state w" "state (add_inplace a x alpha w) = state w"
  by (simp_all add: mul_inplace_def add_inplace_def)

lemma update_trace:
  fixes w8 :: "('pc, 'z) optimizer_scheme"
  assumes dd: "p_data w8 p \<notin> {g, m, graft_momentum gr, sg, gg}"
    and mm: "m \<notin> {g, graft_momentum gr, sg, gg}"
    and gm: "graft_momentum gr \<notin> {g, sg, gg}"
    and gg: "gg \<notin> {g, sg}"
  shows "heap (ScalableShampoo_update self grp p gr is_pre g gg sg m w8) (p_data w8 p)
           = t_add (heap w8 (p_data w8 p)) (- lr grp)
               (heap (ScalableShampoo_update self grp p gr is_pre g gg sg m w8)
                  (if is_pre then m else graft_momentum gr))"
    and "p_data (ScalableShampoo_update self grp p gr is_pre g gg sg m w8) = p_data w8"
    and "state (ScalableShampoo_update self grp p gr is_pre g gg sg m w8) = state w8"
    and "p_grad (ScalableShampoo_update self grp p gr is_pre g gg sg m w8) = p_grad w8"
    and "\<not> is_pre \<Longrightarrow> sg = g \<Longrightarrow>
         heap (ScalableShampoo_update self grp p gr is_pre g gg sg m w8) g = heap w8 g"
    and "\<not> is_pre \<Longrightarrow> sg = g \<Longrightarrow>
         heap (ScalableShampoo_update self grp p gr is_pre g gg sg m w8) (graft_momentum gr)
           = (if nesterov self
              then t_add (t_scale (fst (betas grp))
                            (t_add (t_scale (fst (betas grp)) (heap w8 (graft_momentum gr))) 1
                               (heap w8 g))) 1
                     (t_scale (if moving_average_for_momentum self then 1 - fst (betas grp) else 1)
                        (heap w8 gg))
              else t_add (t_scale (fst (betas grp)) (heap w8 (graft_momentum gr))) 1 (heap w8 g))"
    and "is_pre \<Longrightarrow>
         heap (ScalableShampoo_update self grp p gr is_pre g gg sg m w8) m
           = (if nesterov self
              then t_add (t_scale (fst (betas grp))
                            (t_add (t_scale (fst (betas grp)) (heap w8 m)) 1 (heap w8 sg))) 1
                     (t_scale (if moving_average_for_momentum self then 1 - fst (betas grp) else 1)
                        (heap w8 sg))
              else t_add (t_scale (fst (betas grp)) (heap w8 m)) 1 (heap w8 sg))"
proof -
  have ne: "p_data w8 p \<noteq> g" "p_data w8 p \<noteq> m" "p_data w8 p \<noteq> graft_momentum gr"
    "p_data w8 p \<noteq> sg" "p_data w8 p \<noteq> gg" "m \<noteq> g" "m \<noteq> graft_momentum gr" "m \<noteq> sg"
    "m \<noteq> gg" "graft_momentum gr \<noteq> g" "graft_momentum gr \<noteq> sg" "graft_momentum gr \<noteq> gg"
    "gg \<noteq> g" "gg \<noteq> sg"
    using assms by auto
  note ne' = ne ne[symmetric]
  note defs = ScalableShampoo_update_def Graft_update_momentum_def Let_def inplace_fields inplace_state
  show "heap (ScalableShampoo_update self grp p gr is_pre g gg sg m w8) (p_data w8 p)
           = t_add (heap w8 (p_data w8 p)) (- lr grp)
               (heap (ScalableShampoo_update self grp p gr is_pre g gg sg m w8)
                  (if is_pre then m else graft_momentum gr))"
    by (cases is_pre; cases "nesterov self") (simp_all add: defs ne')
  show "p_data (ScalableShampoo_update self grp p gr is_pre g gg sg m w8) = p_data w8"
    by (cases is_pre; cases "nesterov self") (simp_all add: defs)
  show "state (ScalableShampoo_update self grp p gr is_pre g gg sg m w8) = state w8"
    by (cases is_pre; cases "nesterov self") (simp_all add: defs)
  show "p_grad (ScalableShampoo_update self grp p gr is_pre g gg sg m w8) = p_grad w8"
    by (cases is_pre; cases "nesterov self") (simp_all add: defs)
  show "\<not> is_pre \<Longrightarrow> sg = g \<Longrightarrow>
         heap (ScalableShampoo_update self grp p gr is_pre g gg sg m w8) g = heap w8 g"
    by (cases "nesterov self") (simp_all add: defs ne')
  show "\<not> is_pre \<Longrightarrow> sg = g \<Longrightarrow>
         heap (ScalableShampoo_update self grp p gr is_pre g gg sg m w8) (graft_momentum gr)
           = (if nesterov self
              then t_add (t_scale (fst (betas grp))
                            (t_add (t_scale (fst (betas grp)) (heap w8 (graft_momentum gr))) 1
                               (heap w8 g))) 1
                     (t_scale (if moving_average_for_momentum self then 1 - fst (betas grp) else 1)
                        (heap w8 gg))
              else t_add (t_scale (fst (betas grp)) (heap w8 (graft_momentum gr))) 1 (heap w8 g))"
    by (cases "nesterov self") (simp_all add: defs ne')
  show "is_pre \<Longrightarrow>
         heap (ScalableShampoo_update self grp p gr is_pre g gg sg m w8) m
           = (if nesterov self
              then t_add (t_scale (fst (betas grp))
                            (t_add (t_scale (fst (betas grp)) (heap w8 m)) 1 (heap w8 sg))) 1
                     (t_scale (if moving_average_for_momentum self then 1 - fst (betas grp) else 1)
                        (heap w8 sg))
              else t_add (t_scale (fst (betas grp)) (heap w8 m)) 1 (heap w8 sg))"
    by (cases "nesterov self") (simp_all add: defs ne')
qed

lemma ScalableShampoo_param_trace:
  fixes w :: "('pc, 'z) optimizer_scheme"
  assumes g: "p_grad w p = Some g" "\<not> is_sparse (heap w g)"
    and ne: "length (state w p) \<noteq> 0"
    and rdy: "ss_ready p g n m c gr w"
  shows "\<exists>w'. ScalableShampoo_param pc self grp p w = (Inr (), w') \<and>
           map_of (state w' p) STEP = Some (IntV (n + 1)) \<and>
           map_of (state w' p) MOMENTUM = Some (TensorV m) \<and>
           map_of (state w' p) GRAFT = Some (GraftV gr) \<and>
           p_data w' = p_data w \<and> p_grad w' = p_grad w \<and>
           heap w' (p_data w p) =
             t_add (heap w (p_data w p)) (- lr grp)
               (heap w' (if is_precondition_step self (n + 1) then m else graft_momentum gr)) \<and>
           (\<not> is_precondition_step self (n + 1) \<longrightarrow>
              heap w' g = decayed self grp
                 (rescaled self (graft_grad_value self grp gr (heap w g) (heap w (statistics gr)))
                    (heap w g))
                 (heap w (p_data w p)) \<and>
              heap w' (graft_momentum gr) =
                nesterov_blend self grp (heap w (graft_momentum gr)) (heap w' g)
                  (decayed self grp
                     (graft_grad_value self grp gr (heap w g) (heap w (statistics gr)))
                     (heap w (p_data w p)))) \<and>
           (is_precondition_step self (n + 1) \<longrightarrow>
              (\<exists>pc2 SG. map_of (state w' p) PRE_CONDITIONER = Some (PreCondV pc2) \<and>
                 SG = decayed self grp
                        (rescaled self
                           (graft_grad_value self grp gr (heap w g) (heap w (statistics gr)))
                           (pc_preconditioned_grad pc pc2 (heap w g)))
                        (heap w (p_data w p)) \<and>
                 heap w' m = nesterov_blend self grp (heap w m) SG SG))"
proof -
  let ?d = "p_data w p"
  let ?gm = "graft_momentum gr"
  let ?pre = "is_precondition_step self (n + 1)"
  let ?w1 = "set_state p STEP (IntV (n + 1)) w"
  have st: "map_of (state w p) STEP = Some (IntV n)" "map_of (state w p) MOMENTUM = Some (TensorV m)"
    "map_of (state w p) PRE_CONDITIONER = Some (PreCondV c)"
    "map_of (state w p) GRAFT = Some (GraftV gr)"
    and d: "distinct [?d, g, m, statistics gr, ?gm]"
    and l: "list_all (\<lambda>a. a < next_addr w) [?d, g, m, statistics gr, ?gm]"
    using rdy by (simp_all add: ss_ready_def)
  have w1: "p_data ?w1 = p_data w" "p_grad ?w1 = p_grad w" "heap ?w1 = heap w"
    "next_addr ?w1 = next_addr w"
    "map_of (state ?w1 p) STEP = Some (IntV (n + 1))"
    "\<And>k. k \<noteq> STEP \<Longrightarrow> map_of (state ?w1 p) k = map_of (state w p) k"
    by (simp_all add: set_state_def update_conv')
  have look: "get_int p STEP w = Inr n" "get_pre_conditioner p ?w1 = Inr c"
    "get_graft p ?w1 = Inr gr"
    by (simp_all add: get_int_def get_pre_conditioner_def get_graft_def st w1(6))
  obtain gg sg w6 where
    r: "ScalableShampoo_grads pc self grp p g c gr (n + 1) ?pre ?w1 = ((gg, sg), w6)"
    by (metis prod.exhaust)
  have d1: "distinct [p_data ?w1 p, g, m, statistics gr, ?gm]"
    and l1: "list_all (\<lambda>a. a < next_addr ?w1) [p_data ?w1 p, g, m, statistics gr, ?gm]"
    using d l by (simp_all add: w1)
  note A = ScalableShampoo_grads_trace[OF d1 l1 r, unfolded w1]
  have Agg: "next_addr w \<le> gg" and
    Asg: "if ?pre then next_addr w \<le> sg \<and> sg \<noteq> gg else sg = g"
    and Ah: "heap w6 gg = graft_grad_value self grp gr (heap w g) (heap w (statistics gr))"
    and Afr: "\<And>a. a < next_addr w \<Longrightarrow> a \<noteq> statistics gr \<Longrightarrow> heap w6 a = heap w a"
    and Apd: "p_data w6 = p_data w" and Apg: "p_grad w6 = p_grad w"
    and Ast: "\<And>k. k \<noteq> PRE_CONDITIONER \<Longrightarrow> map_of (state w6 p) k = map_of (state ?w1 p) k"
    using A by (auto simp: graft_grad_value_def split: if_splits)
  have Anp: "\<not> ?pre \<Longrightarrow> heap w6 sg = heap w g"
    and Ap: "?pre \<Longrightarrow> \<exists>pc2. map_of (state w6 p) PRE_CONDITIONER = Some (PreCondV pc2) \<and>
                        heap w6 sg = pc_preconditioned_grad pc pc2 (heap w g)"
    using A by auto
  have lt: "?d < next_addr w" "g < next_addr w" "m < next_addr w" "?gm < next_addr w"
    and dn: "?d \<noteq> g" "?d \<noteq> m" "?d \<noteq> ?gm" "?d \<noteq> statistics gr" "g \<noteq> m" "g \<noteq> ?gm"
      "m \<noteq> ?gm" "g \<noteq> statistics gr" "m \<noteq> statistics gr" "?gm \<noteq> statistics gr"
    using d l by auto
  have ggn: "gg \<noteq> ?d" "gg \<noteq> g" "gg \<noteq> m" "gg \<noteq> ?gm" "gg \<noteq> sg"
    using Agg Asg lt by (auto split: if_splits)
  have sgn: "sg \<noteq> ?d" "sg \<noteq> m" "sg \<noteq> ?gm"
    using Asg lt dn by (auto split: if_splits)
  let ?w8 = "ScalableShampoo_weight_decay self grp p gg sg (ScalableShampoo_rescale self gg sg w6)"
  have pre6: "sg \<noteq> gg" "p_data w6 p \<noteq> sg" "p_data w6 p \<noteq> gg"
    using ggn sgn by (auto simp: Apd)
  note B = rescale_wd_trace[OF pre6, where self = self and grp = grp, unfolded Apd]
  have B8: "p_data ?w8 = p_data w" "state ?w8 = state w6" "p_grad ?w8 = p_grad w"
    by (simp_all add: B(4,5,6) Apg)
  have mo: "get_tensor p MOMENTUM ?w8 = Inr m"
    by (simp add: get_tensor_def B8 Ast w1(6) st)
  let ?w' = "ScalableShampoo_update self grp p gr ?pre g gg sg m ?w8"
  have run: "ScalableShampoo_param pc self grp p w = (Inr (), ?w')"
    using g ne look r mo by (simp add: ScalableShampoo_param_def Let_def)
  have pre8: "p_data ?w8 p \<notin> {g, m, ?gm, sg, gg}" "m \<notin> {g, ?gm, sg, gg}" "?gm \<notin> {g, sg, gg}"
    "gg \<notin> {g, sg}"
    using dn ggn sgn by (auto simp: B8)
  note D = update_trace[OF pre8, where self = self and grp = grp and is_pre = ?pre, unfolded B8]
  have h8: "heap ?w8 ?d = heap w ?d" "heap ?w8 m = heap w m" "heap ?w8 ?gm = heap w ?gm"
    using B(3) ggn sgn Afr lt dn by (metis)+
  have s': "map_of (state ?w' p) STEP = Some (IntV (n + 1))"
    "map_of (state ?w' p) MOMENTUM = Some (TensorV m)"
    "map_of (state ?w' p) GRAFT = Some (GraftV gr)"
    by (simp_all add: D(3) B8 Ast w1 st)
  have F2: "heap ?w' ?d = t_add (heap w ?d) (- lr grp) (heap ?w' (if ?pre then m else ?gm))"
    using D(1) by (simp add: h8)
  have F3: "heap ?w' g = decayed self grp
                 (rescaled self (graft_grad_value self grp gr (heap w g) (heap w (statistics gr)))
                    (heap w g))
                 (heap w ?d) \<and>
              heap ?w' ?gm =
                nesterov_blend self grp (heap w ?gm) (heap ?w' g)
                  (decayed self grp
                     (graft_grad_value self grp gr (heap w g) (heap w (statistics gr)))
                     (heap w ?d))" if np: "\<not> ?pre"
  proof -
    have sg: "sg = g" using Asg np by simp
    have g8: "heap ?w8 g = decayed self grp
        (rescaled self (graft_grad_value self grp gr (heap w g) (heap w (statistics gr))) (heap w g))
        (heap w ?d)"
      using B(1) Anp[OF np] Ah Afr[OF lt(1) dn(4)] by (simp add: sg rescaled_def)
    have gg8: "heap ?w8 gg = decayed self grp
        (graft_grad_value self grp gr (heap w g) (heap w (statistics gr))) (heap w ?d)"
      using B(2) Ah Afr[OF lt(1) dn(4)] by simp
    show ?thesis
      using D(5)[OF np sg] D(6)[OF np sg] g8 gg8 h8 by (simp add: nesterov_blend_def)
  qed
  have F4: "\<exists>pc2 SG. map_of (state ?w' p) PRE_CONDITIONER = Some (PreCondV pc2) \<and>
                 SG = decayed self grp
                        (rescaled self
                           (graft_grad_value self grp gr (heap w g) (heap w (statistics gr)))
                           (pc_preconditioned_grad pc pc2 (heap w g)))
                        (heap w ?d) \<and>
                 heap ?w' m = nesterov_blend self grp (heap w m) SG SG" if pr: "?pre"
  proof -
    obtain pc2 where pc2: "map_of (state w6 p) PRE_CONDITIONER = Some (PreCondV pc2)"
      "heap w6 sg = pc_preconditioned_grad pc pc2 (heap w g)"
      using Ap[OF pr] by blast
    have sg8: "heap ?w8 sg = decayed self grp
        (rescaled self (graft_grad_value self grp gr (heap w g) (heap w (statistics gr)))
           (pc_preconditioned_grad pc pc2 (heap w g)))
        (heap w ?d)"
      using B(1) pc2(2) Ah Afr[OF lt(1) dn(4)] by (simp add: rescaled_def)
    have "heap ?w' m = nesterov_blend self grp (heap w m) (heap ?w8 sg) (heap ?w8 sg)"
      using D(7)[OF pr] h8 by (simp add: nesterov_blend_def)
    then show ?thesis
      using pc2(1) sg8 by (simp add: D(3) B8)
  qed
  show ?thesis
    using run s' D(2) D(4) F2 F3 F4 by (intro exI[of _ ?w']) simp
qed

lemma ss_initialised_frame:
  fixes w :: "('pc, 'z) optimizer_scheme"
  assumes "p_data w p < next_addr w" "g < next_addr w"
  shows "p_grad (ss_initialised pc self grp p w) = p_grad w"
    and "p_data (ss_initialised pc self grp p w) = p_data w"
    and "heap (ss_initialised pc self grp p w) g = heap w g"
    and "heap (ss_initialised pc self grp p w) (p_data w p) = heap w (p_data w p)"
  using assms
  by (simp_all add: ss_initialised_def ScalableShampoo_new_state_def Graft_new_def new_tensor_def
      set_state_def Let_def)

lemma ss_initialised_nonempty:
  fixes w :: "('pc, 'z) optimizer_scheme"
  shows "length (state (ss_initialised pc self grp p w) p) \<noteq> 0"
proof (cases "length (state w p) = 0")
  case False
  then show ?thesis by (simp add: ss_initialised_def)
next
  case True
  have "map_of (state (ss_initialised pc self grp p w) p) STEP = Some (IntV 0)"
    using True
    by (simp add: ss_initialised_def ScalableShampoo_new_state_def Graft_new_def new_tensor_def
        set_state_def Let_def update_conv')
  then show ?thesis by auto
qed

lemma ScalableShampoo_param_initialised:
  fixes w :: "('pc, 'z) optimizer_scheme"
  assumes "p_grad w p = Some g" "\<not> is_sparse (heap w g)" "p_data w p < next_addr w"
    "g < next_addr w"
  shows "ScalableShampoo_param pc self grp p w =
         ScalableShampoo_param pc self grp p (ss_initialised pc self grp p w)"
proof -
  let ?w0 = "ss_initialised pc self grp p w"
  note f = ss_initialised_frame[OF assms(3,4), where pc = pc and self = self and grp = grp]
  have 1: "p_grad ?w0 p = Some g" "heap ?w0 g = heap w g"
    by (simp_all add: f assms(1))
  have 2: "length (state ?w0 p) \<noteq> 0" by (rule ss_initialised_nonempty)
  have idem: "ss_initialised pc self grp p ?w0 = ?w0"
    using 2 by (simp add: ss_initialised_def[of _ _ _ _ ?w0])
  show ?thesis
    unfolding ScalableShampoo_param_def ss_initialised_def[symmetric] idem
    by (simp add: assms 1 Let_def)
qed

lemma ScalableShampoo_step_trace:
  fixes w :: "('pc, 'z) optimizer_scheme"
  assumes g: "p_grad w p = Some g" "\<not> is_sparse (heap w g)"
    and lt: "p_data w p < next_addr w" "g < next_addr w"
    and rdy: "ss_ready p g n m c gr (ss_initialised pc self grp p w)"
  shows "\<exists>w'. ScalableShampoo_param pc self grp p w = (Inr (), w') \<and>
           map_of (state w' p) STEP = Some (IntV (n + 1)) \<and>
           map_of (state w' p) MOMENTUM = Some (TensorV m) \<and>
           map_of (state w' p) GRAFT = Some (GraftV gr) \<and>
           p_data w' = p_data w \<and> p_grad w' = p_grad w \<and>
           heap w' (p_data w p) =
             t_add (heap w (p_data w p)) (- lr grp)
               (heap w' (if is_precondition_step self (n + 1) then m else graft_momentum gr)) \<and>
           (\<not> is_precondition_step self (n + 1) \<longrightarrow>
              heap w' g = decayed self grp
                 (rescaled self
                    (graft_grad_value self grp gr (heap w g)
                       (heap (ss_initialised pc self grp p w) (statistics gr)))
                    (heap w g))
                 (heap w (p_data w p)) \<and>
              heap w' (graft_momentum gr) =
                nesterov_blend self grp (heap (ss_initialised pc self grp p w) (graft_momentum gr))
                  (heap w' g)
                  (decayed self grp
                     (graft_grad_value self grp gr (heap w g)
                        (heap (ss_initialised pc self grp p w) (statistics gr)))
                     (heap w (p_data w p)))) \<and>
           (is_precondition_step self (n + 1) \<longrightarrow>
              (\<exists>pc2 SG. map_of (state w' p) PRE_CONDITIONER = Some (PreCondV pc2) \<and>
                 SG = decayed self grp
                        (rescaled self
                           (graft_grad_value self grp gr (heap w g)
                              (heap (ss_initialised pc self grp p w) (statistics gr)))
                           (pc_preconditioned_grad pc pc2 (heap w g)))
                        (heap w (p_data w p)) \<and>
                 heap w' m = nesterov_blend self grp (heap (ss_initialised pc self grp p w) m) SG SG))"
proof -
  let ?w0 = "ss_initialised pc self grp p w"
  note f = ss_initialised_frame[OF lt, where pc = pc and self = self and grp = grp]
  have g0: "p_grad ?w0 p = Some g" "\<not> is_sparse (heap ?w0 g)"
    using g f by simp_all
  have e: "ScalableShampoo_param pc self grp p w = ScalableShampoo_param pc self grp p ?w0"
    by (rule ScalableShampoo_param_initialised[OF g lt])
  from ScalableShampoo_param_trace[OF g0 ss_initialised_nonempty rdy,
      where pc = pc and self = self and grp = grp]
  show ?thesis
    unfolding e f by simp
qed

text \<open>
  Claim C1. For a parameter with a dense gradient whose state holds the step count
  \<open>n\<close> before the step (0 when the state is new), the body of the loop of
  \<open>ScalableShampoo.step\<close> returns and leaves the step count \<open>n + 1\<close>;
  \<open>is_precondition_step(n + 1)\<close> holds iff \<open>n + 1 >= start_preconditioning_step\<close>.
  While \<open>n + 1 < start_preconditioning_step\<close> the update applied to the parameter is
  \<open>-lr\<close> times the Graft's momentum buffer, which is the Graft's momentum blended (with
  Nesterov momentum) with the Graft's gradient: nothing of the PreConditioner's
  \<open>preconditioned_grad\<close> enters. From \<open>n + 1 >= start_preconditioning_step\<close> on the
  update is \<open>-lr\<close> times \<open>state['momentum']\<close>, which accumulates the preconditioned
  gradient, rescaled and decayed.
\<close>

theorem ScalableShampoo_switches_at_start_step:
  fixes w :: "('pc, 'z) optimizer_scheme"
  assumes g: "p_grad w p = Some g" "\<not> is_sparse (heap w g)"
    and lt: "p_data w p < next_addr w" "g < next_addr w"
    and rdy: "ss_ready p g n m c gr (ss_initialised pc self grp p w)"
  shows "\<exists>w'. ScalableShampoo_param pc self grp p w = (Inr (), w') \<and>
           map_of (state w' p) STEP = Some (IntV (n + 1)) \<and>
           (is_precondition_step self (n + 1) \<longleftrightarrow> start_preconditioning_step self \<le> n + 1) \<and>
           (n + 1 < start_preconditioning_step self \<longrightarrow>
              heap w' (p_data w' p) =
                t_add (heap w (p_data w p)) (- lr grp) (heap w' (graft_momentum gr)) \<and>
              heap w' (graft_momentum gr) =
                nesterov_blend self grp (heap (ss_initialised pc self grp p w) (graft_momentum gr))
                  (heap w' g)
                  (decayed self grp
                     (graft_grad_value self grp gr (heap w g)
                        (heap (ss_initialised pc self grp p w) (statistics gr)))
                     (heap w (p_data w p)))) \<and>
           (start_preconditioning_step self \<le> n + 1 \<longrightarrow>
              heap w' (p_data w' p) = t_add (heap w (p_data w p)) (- lr grp) (heap w' m) \<and>
              (\<exists>pc2 SG. map_of (state w' p) PRE_CONDITIONER = Some (PreCondV pc2) \<and>
                 SG = decayed self grp
                        (rescaled self
                           (graft_grad_value self grp gr (heap w g)
                              (heap (ss_initialised pc self grp p w) (statistics gr)))
                           (pc_preconditioned_grad pc pc2 (heap w g)))
                        (heap w (p_data w p)) \<and>
                 heap w' m = nesterov_blend self grp (heap (ss_initialised pc self grp p w) m) SG SG))"
proof -
  have b: "is_precondition_step self (n + 1) \<longleftrightarrow> start_preconditioning_step self \<le> n + 1"
    by (simp add: is_precondition_step_def)
  from ScalableShampoo_step_trace[OF g lt rdy]
  obtain w' where w': "ScalableShampoo_param pc self grp p w = (Inr (), w')"
    "map_of (state w' p) STEP = Some (IntV (n + 1))" "p_data w' = p_data w"
    "heap w' (p_data w p) =
             t_add (heap w (p_data w p)) (- lr grp)
               (heap w' (if is_precondition_step self (n + 1) then m else graft_momentum gr))"
    "\<not> is_precondition_step self (n + 1) \<longrightarrow>
              heap w' (graft_momentum gr) =
                nesterov_blend self grp (heap (ss_initialised pc self grp p w) (graft_momentum gr))
                  (heap w' g)
                  (decayed self grp
                     (graft_grad_value self grp gr (heap w g)
                        (heap (ss_initialised pc self grp p w) (statistics gr)))
                     (heap w (p_data w p)))"
    "is_precondition_step self (n + 1) \<longrightarrow>
              (\<exists>pc2 SG. map_of (state w' p) PRE_CONDITIONER = Some (PreCondV pc2) \<and>
                 SG = decayed self grp
                        (rescaled self
                           (graft_grad_value self grp gr (heap w g)
                              (heap (ss_initialised pc self grp p w) (statistics gr)))
                           (pc_preconditioned_grad pc pc2 (heap w g)))
                        (heap w (p_data w p)) \<and>
                 heap w' m = nesterov_blend self grp (heap (ss_initialised pc self grp p w) m) SG SG)"
    by blast
  have np: "n + 1 < start_preconditioning_step self \<Longrightarrow> \<not> is_precondition_step self (n + 1)"
    by (simp add: is_precondition_step_def)
  have pr: "start_preconditioning_step self \<le> n + 1 \<Longrightarrow> is_precondition_step self (n + 1)"
    by (simp add: is_precondition_step_def)
  show ?thesis
  proof (intro exI[of _ w'] conjI impI)
    show "ScalableShampoo_param pc self grp p w = (Inr (), w')" by (rule w'(1))
    show "map_of (state w' p) STEP = Some (IntV (n + 1))" by (rule w'(2))
    show "is_precondition_step self (n + 1) = (start_preconditioning_step self \<le> n + 1)"
      by (rule b)
  next
    assume a: "n + 1 < start_preconditioning_step self"
    show "heap w' (p_data w' p) =
        t_add (heap w (p_data w p)) (- lr grp) (heap w' (graft_momentum gr))"
      using w'(3,4) np[OF a] by simp
    show "heap w' (graft_momentum gr) =
                nesterov_blend self grp (heap (ss_initialised pc self grp p w) (graft_momentum gr))
                  (heap w' g)
                  (decayed self grp
                     (graft_grad_value self grp gr (heap w g)
                        (heap (ss_initialised pc self grp p w) (statistics gr)))
                     (heap w (p_data w p)))"
      using w'(5) np[OF a] by simp
  next
    assume a: "start_preconditioning_step self \<le> n + 1"
    show "heap w' (p_data w' p) = t_add (heap w (p_data w p)) (- lr grp) (heap w' m)"
      using w'(3,4) pr[OF a] by simp
    show "\<exists>pc2 SG. map_of (state w' p) PRE_CONDITIONER = Some (PreCondV pc2) \<and>
                 SG = decayed self grp
                        (rescaled self
                           (graft_grad_value self grp gr (heap w g)
                              (heap (ss_initialised pc self grp p w) (statistics gr)))
                           (pc_preconditioned_grad pc pc2 (heap w g)))
                        (heap w (p_data w p)) \<and>
                 heap w' m = nesterov_blend self grp (heap (ss_initialised pc self grp p w) m) SG SG"
      using w'(6) pr[OF a] by simp
  qed
qed

text \<open>
  Claim C10. On a step that does not precondition yet
  (\<open>n + 1 < start_preconditioning_step\<close>) with \<open>graft_type\<close> other than None,
  \<open>shampoo_grad\<close> is the tensor \<open>p.grad\<close>: after the step \<open>p.grad\<close> holds the gradient
  rescaled by \<open>norm(graft_grad) / (norm(grad) + 1e-16)\<close> and then decayed, and the
  Graft's momentum has accumulated that value of \<open>p.grad\<close>, not the gradient the caller
  supplied.
\<close>

theorem ScalableShampoo_graft_momentum_reads_rescaled_grad:
  fixes w :: "('pc, 'z) optimizer_scheme"
  assumes g: "p_grad w p = Some g" "\<not> is_sparse (heap w g)"
    and lt: "p_data w p < next_addr w" "g < next_addr w"
    and rdy: "ss_ready p g n m c gr (ss_initialised pc self grp p w)"
    and early: "n + 1 < start_preconditioning_step self"
    and graft: "graft_type self \<noteq> NONE"
  shows "\<exists>w'. ScalableShampoo_param pc self grp p w = (Inr (), w') \<and>
           p_grad w' p = Some g \<and>
           heap w' g =
             decayed self grp
               (t_scale
                  (torch_norm (graft_grad_value self grp gr (heap w g)
                                 (heap (ss_initialised pc self grp p w) (statistics gr)))
                     / (torch_norm (heap w g) + 1 / 10 ^ 16))
                  (heap w g))
               (heap w (p_data w p)) \<and>
           heap w' (graft_momentum gr) =
             nesterov_blend self grp (heap (ss_initialised pc self grp p w) (graft_momentum gr))
               (heap w' g)
               (decayed self grp
                  (graft_grad_value self grp gr (heap w g)
                     (heap (ss_initialised pc self grp p w) (statistics gr)))
                  (heap w (p_data w p)))"
proof -
  have np: "\<not> is_precondition_step self (n + 1)"
    using early by (simp add: is_precondition_step_def)
  from ScalableShampoo_step_trace[OF g lt rdy]
  show ?thesis
    using np graft g(1) by (auto simp: rescaled_def)
qed

subsection \<open>Scalable Shampoo: the sample optimizer\<close>

lemma ex_norm_3_4: "torch_norm (ex_tensor [3, 4]) = 5"
  by (simp add: torch_norm_def ex_tensor_def)

theorem ScalableShampoo_rescale_factor_witness:
  "graft_type ex_ScalableShampoo \<noteq> NONE \<and>
   vals (heap (ScalableShampoo_rescale ex_ScalableShampoo 1 1 ex_world) 1) =
     [3 * (5 / (5 + 1 / 10 ^ 16)), 4 * (5 / (5 + 1 / 10 ^ 16))] \<and>
   torch_norm (heap (ScalableShampoo_rescale ex_ScalableShampoo 1 1 ex_world) 1) =
     5 * (5 / (5 + 1 / 10 ^ 16)) \<and>
   heap (ScalableShampoo_rescale ex_ScalableShampoo 1 1 ex_world) 0 = ex_tensor [1, 2] \<and>
   ScalableShampoo_rescale (ex_ScalableShampoo\<lparr>graft_type := NONE\<rparr>) 1 1 ex_world = ex_world"
proof -
  have h: "heap ex_world 1 = ex_tensor [3, 4]" "heap ex_world 0 = ex_tensor [1, 2]"
    "graft_type ex_ScalableShampoo \<noteq> NONE"
    "graft_type (ex_ScalableShampoo\<lparr>graft_type := NONE\<rparr>) = NONE"
    by (simp_all add: ex_world_def ex_ScalableShampoo_def)
  have v: "vals (ex_tensor [3, 4]) = [3, 4]" by (simp add: ex_tensor_def)
  from ScalableShampoo_rescale_factor[where self = ex_ScalableShampoo and graft_grad = 1
      and shampoo_grad = 1 and w = ex_world]
    ScalableShampoo_rescale_factor[where self = "ex_ScalableShampoo\<lparr>graft_type := NONE\<rparr>"
      and graft_grad = 1 and shampoo_grad = 1 and w = ex_world]
  show ?thesis
    unfolding h ex_norm_3_4 v using h(3) by (simp add: h)
qed

lemma ex_ss_initialised:
  "ss_ready 0 1 0 4 () ex_graft (ss_initialised ex_pc ex_ScalableShampoo ex_sh_group 0 ex_sh_world)"
  "heap (ss_initialised ex_pc ex_ScalableShampoo ex_sh_group 0 ex_sh_world) 4 = ex_tensor [0]"
  "heap (ss_initialised ex_pc ex_ScalableShampoo ex_sh_group 0 ex_sh_world) 5 = ex_tensor [0]"
  "heap (ss_initialised ex_pc ex_ScalableShampoo ex_sh_group 0 ex_sh_world) 6 = ex_tensor [0]"
  by (simp_all add: ss_ready_def ss_initialised_def ex_graft_def ss_eval ex_sh_defs)

lemma ex_ss_world0:
  "p_grad ex_sh_world 0 = Some 1" "\<not> is_sparse (heap ex_sh_world 1)"
  "p_data ex_sh_world 0 < next_addr ex_sh_world" "1 < next_addr ex_sh_world"
  "heap ex_sh_world 1 = ex_tensor [3]" "heap ex_sh_world (p_data ex_sh_world 0) = ex_tensor [2]"
  by (simp_all add: ex_sh_defs)

lemma ex_ss_world1_facts:
  "p_grad ex_ss_world1 0 = Some 1" "\<not> is_sparse (heap ex_ss_world1 1)"
  "p_data ex_ss_world1 0 < next_addr ex_ss_world1" "1 < next_addr ex_ss_world1"
  "heap ex_ss_world1 1 = ex_tensor [3]"
  "vals (heap ex_ss_world1 (p_data ex_ss_world1 0)) = [2 - 1 / 10 * (3 * (3 / (3 + 1 / 10 ^ 16)))]"
  "vals (heap ex_ss_world1 4) = [3 * (3 / (3 + 1 / 10 ^ 16))]"
  "heap ex_ss_world1 5 = ex_tensor [0]"
  "ss_ready 0 1 1 4 () ex_graft ex_ss_world1"
  "ss_initialised ex_pc ex_ScalableShampoo ex_sh_group 0 ex_ss_world1 = ex_ss_world1"
  unfolding ex_ss_world1_def
  by (simp_all add: ss_ready_def ss_initialised_def ex_graft_def ss_eval ex_sh_defs)

lemma ex_ss_values:
  "graft_grad_value ex_ScalableShampoo ex_sh_group ex_graft (ex_tensor [3]) (ex_tensor [0])
     = ex_tensor [3]"
  "torch_norm (ex_tensor [3]) = 3"
  "lr ex_sh_group = 1 / 10"
  "start_preconditioning_step ex_ScalableShampoo = 2"
  "graft_type ex_ScalableShampoo \<noteq> NONE"
  "graft_momentum ex_graft = 6" "statistics ex_graft = 5"
  "decayed ex_ScalableShampoo ex_sh_group X P = X"
  "nesterov_blend ex_ScalableShampoo ex_sh_group M X W = t_add (t_scale (9 / 10) M) 1 X"
  "pc_preconditioned_grad ex_pc c (ex_tensor [3]) = ex_tensor [3 / 2]"
  by (simp_all add: graft_grad_value_def graft_preconditioned_def graft_statistics_value_def
      decayed_def nesterov_blend_def torch_norm_def t_scale_def ex_graft_def ex_sh_defs)

theorem ScalableShampoo_graft_momentum_reads_rescaled_grad_witness:
  "\<exists>w'. ScalableShampoo_param ex_pc ex_ScalableShampoo ex_sh_group 0 ex_sh_world = (Inr (), w') \<and>
      heap ex_sh_world 1 = ex_tensor [3] \<and> p_grad w' 0 = Some 1 \<and>
      vals (heap w' 1) = [3 * (3 / (3 + 1 / 10 ^ 16))] \<and>
      vals (heap w' 6) = [0 * (9 / 10) + 3 * (3 / (3 + 1 / 10 ^ 16))]"
proof -
  have e: "(0::int) + 1 < start_preconditioning_step ex_ScalableShampoo"
    by (simp add: ex_ss_values)
  from ScalableShampoo_graft_momentum_reads_rescaled_grad[OF ex_ss_world0(1-4)
      ex_ss_initialised(1) e ex_ss_values(5)]
  obtain w' where w': "ScalableShampoo_param ex_pc ex_ScalableShampoo ex_sh_group 0 ex_sh_world
        = (Inr (), w')" "p_grad w' 0 = Some 1"
    "heap w' 1 = t_scale (3 / (3 + 1 / 10 ^ 16)) (ex_tensor [3])"
    "heap w' 6 = t_add (t_scale (9 / 10) (ex_tensor [0])) 1 (heap w' 1)"
    unfolding ex_ss_values ex_ss_world0(5,6) ex_ss_initialised(2-4) ex_ss_values by blast
  have v1: "vals (heap w' 1) = [3 * (3 / (3 + 1 / 10 ^ 16))]"
    unfolding w'(3) by (simp add: t_scale_def ex_tensor_def)
  have v6: "vals (heap w' 6) = [0 * (9 / 10) + 3 * (3 / (3 + 1 / 10 ^ 16))]"
    using v1 unfolding w'(4) by (simp add: t_add_def t_scale_def ex_tensor_def)
  from w'(1,2) v1 v6 ex_ss_world0(5) show ?thesis by blast
qed

theorem ScalableShampoo_switches_at_start_step_witness:
  "(\<exists>w'. ScalableShampoo_param ex_pc ex_ScalableShampoo ex_sh_group 0 ex_sh_world = (Inr (), w') \<and>
      map_of (state w' 0) STEP = Some (IntV 1) \<and>
      \<not> is_precondition_step ex_ScalableShampoo 1 \<and>
      heap w' (p_data w' 0) = t_add (ex_tensor [2]) (- (1 / 10)) (heap w' 6) \<and>
      heap w' 6 = t_add (t_scale (9 / 10) (ex_tensor [0])) 1 (heap w' 1)) \<and>
   (\<exists>w'. ScalableShampoo_param ex_pc ex_ScalableShampoo ex_sh_group 0 ex_ss_world1 = (Inr (), w') \<and>
      map_of (state w' 0) STEP = Some (IntV 2) \<and>
      is_precondition_step ex_ScalableShampoo 2 \<and>
      vals (heap w' 4) =
        [3 * (3 / (3 + 1 / 10 ^ 16)) * (9 / 10) + 3 / 2 * (3 / (3 / 2 + 1 / 10 ^ 16))] \<and>
      vals (heap w' (p_data w' 0)) =
        [2 - 1 / 10 * (3 * (3 / (3 + 1 / 10 ^ 16)))
           - 1 / 10 * (3 * (3 / (3 + 1 / 10 ^ 16)) * (9 / 10) + 3 / 2 * (3 / (3 / 2 + 1 / 10 ^ 16)))])"
proof -
  have a: "(0::int) + 1 < start_preconditioning_step ex_ScalableShampoo"
    "\<not> start_preconditioning_step ex_ScalableShampoo \<le> (0::int) + 1"
    "start_preconditioning_step ex_ScalableShampoo \<le> (1::int) + 1"
    "\<not> (1::int) + 1 < start_preconditioning_step ex_ScalableShampoo"
    by (simp_all add: ex_ss_values)
  have n: "torch_norm (ex_tensor [3 / 2]) = 3 / 2"
    by (simp add: torch_norm_def ex_tensor_def)
  have r: "rescaled ex_ScalableShampoo (ex_tensor [3]) (ex_tensor [3 / 2])
      = ex_tensor [3 / 2 * (3 / (3 / 2 + 1 / 10 ^ 16))]"
    unfolding rescaled_def ex_ss_values n using ex_ss_values(5)
    by (simp add: t_scale_def ex_tensor_def)
  from ScalableShampoo_switches_at_start_step[OF ex_ss_world0(1-4) ex_ss_initialised(1)]
  have 1: "\<exists>w'. ScalableShampoo_param ex_pc ex_ScalableShampoo ex_sh_group 0 ex_sh_world = (Inr (), w') \<and>
      map_of (state w' 0) STEP = Some (IntV 1) \<and>
      \<not> is_precondition_step ex_ScalableShampoo 1 \<and>
      heap w' (p_data w' 0) = t_add (ex_tensor [2]) (- (1 / 10)) (heap w' 6) \<and>
      heap w' 6 = t_add (t_scale (9 / 10) (ex_tensor [0])) 1 (heap w' 1)"
    unfolding ex_ss_values ex_ss_world0(5,6) ex_ss_initialised(2-4) ex_ss_values
    using a by simp
  from ScalableShampoo_switches_at_start_step[OF ex_ss_world1_facts(1-4),
      where pc = ex_pc and self = ex_ScalableShampoo and grp = ex_sh_group and n = 1 and m = 4
        and c = "()" and gr = ex_graft]
    ex_ss_world1_facts(9)
  obtain w' where w': "ScalableShampoo_param ex_pc ex_ScalableShampoo ex_sh_group 0 ex_ss_world1
        = (Inr (), w')" "map_of (state w' 0) STEP = Some (IntV 2)"
      "is_precondition_step ex_ScalableShampoo 2"
      "heap w' (p_data w' 0) = t_add (heap ex_ss_world1 (p_data ex_ss_world1 0)) (- (1 / 10)) (heap w' 4)"
      "heap w' 4 = t_add (t_scale (9 / 10) (heap ex_ss_world1 4)) 1
         (ex_tensor [3 / 2 * (3 / (3 / 2 + 1 / 10 ^ 16))])"
    unfolding ex_ss_world1_facts(10) ex_ss_values ex_ss_world1_facts(5,8) ex_ss_values r
    using a by auto
  have 2: "vals (heap w' 4) =
        [3 * (3 / (3 + 1 / 10 ^ 16)) * (9 / 10) + 3 / 2 * (3 / (3 / 2 + 1 / 10 ^ 16))]"
    unfolding w'(5) by (simp add: t_add_def t_scale_def ex_tensor_def ex_ss_world1_facts(7))
  have 3: "vals (heap w' (p_data w' 0)) =
        [2 - 1 / 10 * (3 * (3 / (3 + 1 / 10 ^ 16)))
           - 1 / 10 * (3 * (3 / (3 + 1 / 10 ^ 16)) * (9 / 10) + 3 / 2 * (3 / (3 / 2 + 1 / 10 ^ 16)))]"
    unfolding w'(4) by (simp add: t_add_def 2 ex_ss_world1_facts(6))
  from 1 w'(1,2,3) 2 3 show ?thesis by blast
qed

end
